(* ===== verification/Prelude.thy ===== *)
theory Prelude
  imports Main "HOL-Library.Sublist"
begin

text \<open>
  The vocabulary every component of the model shares.

  The Go code threads two things through its calls: mutable state (the machine scope, the
  API servers behind the clients) and a pair \<open>(value, err)\<close>.  An operation is therefore a
  function from a state to an \<^emph>\<open>outcome\<close> and a new state.  The outcome is a value, an error
  or a run-time panic (a nil dereference); the state survives all three, as it does in Go,
  where a callee that fails has already written the fields it wrote.

  The second half of the theory is the frame logic the component proofs rest on: a
  reflexive and transitive relation between the state before and after is kept by an
  operation when all its parts keep it.
\<close>

named_theorems op_defs \<open>definitions of the operation combinators\<close>
named_theorems frame_rules \<open>rules that lift a state relation through an operation\<close>

section \<open>Outcomes and operations\<close>

datatype ('x, 'a) outcome = Ok (result_of: 'a) | Err (error_of: 'x) | Panic

type_synonym ('s, 'x, 'a) op = "'s \<Rightarrow> ('x, 'a) outcome \<times> 's"

definition ret :: "'a \<Rightarrow> ('s, 'x, 'a) op" where
  [op_defs]: "ret x = (\<lambda>s. (Ok x, s))"

definition raise :: "'x \<Rightarrow> ('s, 'x, 'a) op" where
  [op_defs]: "raise e = (\<lambda>s. (Err e, s))"

definition panic :: "('s, 'x, 'a) op" where
  [op_defs]: "panic = (\<lambda>s. (Panic, s))"

text \<open>
  \<open>handle m f h\<close> is \<^verbatim>\<open>x, err := m(); if err != nil { h(err) }; f(x)\<close>: both
  branches continue in the state the call left behind, and a panic unwinds.
\<close>

definition handle ::
  "('s, 'x, 'a) op \<Rightarrow> ('a \<Rightarrow> ('s, 'y, 'b) op) \<Rightarrow> ('x \<Rightarrow> ('s, 'y, 'b) op) \<Rightarrow> ('s, 'y, 'b) op" where
  [op_defs]: "handle m f h = (\<lambda>s. case m s of
      (Ok x, s') \<Rightarrow> f x s'
    | (Err e, s') \<Rightarrow> h e s'
    | (Panic, s') \<Rightarrow> (Panic, s'))"

definition bnd :: "('s, 'x, 'a) op \<Rightarrow> ('a \<Rightarrow> ('s, 'x, 'b) op) \<Rightarrow> ('s, 'x, 'b) op" where
  [op_defs]: "bnd m f = handle m f raise"

definition gets :: "('s \<Rightarrow> 'a) \<Rightarrow> ('s, 'x, 'a) op" where
  [op_defs]: "gets f = (\<lambda>s. (Ok (f s), s))"

definition modify :: "('s \<Rightarrow> 's) \<Rightarrow> ('s, 'x, unit) op" where
  [op_defs]: "modify f = (\<lambda>s. (Ok (), f s))"

text \<open>A pure call whose result is an outcome.\<close>

definition lift_out :: "('x, 'a) outcome \<Rightarrow> ('s, 'x, 'a) op" where
  [op_defs]: "lift_out r = (\<lambda>s. (r, s))"

text \<open>Dereferencing a pointer: nil panics.\<close>

definition deref :: "'a option \<Rightarrow> ('s, 'x, 'a) op" where
  [op_defs]: "deref p = (case p of None \<Rightarrow> panic | Some x \<Rightarrow> ret x)"

text \<open>\<^verbatim>\<open>ptr.Deref(p, d)\<close> of k8s.io/utils.\<close>

definition ptr_Deref :: "'a option \<Rightarrow> 'a \<Rightarrow> 'a" where
  "ptr_Deref p d = (case p of None \<Rightarrow> d | Some x \<Rightarrow> x)"

lemma ptr_Deref_simps [simp]:
  "ptr_Deref None d = d" "ptr_Deref (Some x) d = x"
  by (simp_all add: ptr_Deref_def)

lemma handle_ret [simp]: "handle (ret x) f h = f x"
  by (simp add: op_defs)

lemma handle_raise [simp]: "handle (raise e) f h = h e"
  by (simp add: op_defs)

lemma bnd_ret [simp]: "bnd (ret x) f = f x"
  by (simp add: bnd_def)

lemma bnd_raise [simp]: "bnd (raise e) f = raise e"
  by (simp add: bnd_def)

lemma bnd_assoc: "bnd (bnd m f) g = bnd m (\<lambda>x. bnd (f x) g)"
  by (auto simp: op_defs fun_eq_iff split: prod.splits outcome.splits)

lemma bnd_ret_right [simp]: "bnd m ret = m"
  by (auto simp: op_defs fun_eq_iff split: prod.splits outcome.splits)

text \<open>Inversion of a successful sequence: both parts succeeded.\<close>

lemma bnd_OkE:
  assumes "bnd m f s = (Ok y, t)"
  obtains x s' where "m s = (Ok x, s')" and "f x s' = (Ok y, t)"
  using assms by (auto simp: op_defs split: prod.splits outcome.splits)

lemma handle_OkE:
  assumes "handle m f h s = (Ok y, t)"
  obtains (ok) x s' where "m s = (Ok x, s')" and "f x s' = (Ok y, t)"
    | (err) e s' where "m s = (Err e, s')" and "h e s' = (Ok y, t)"
  using assms by (auto simp: op_defs split: prod.splits outcome.splits)

lemma handle_cases:
  assumes "handle m f h s = (r, s')"
  obtains (ok) x t where "m s = (Ok x, t)" "f x t = (r, s')"
    | (error) e t where "m s = (Err e, t)" "h e t = (r, s')"
    | (panic) "m s = (Panic, s')" "r = Panic"
proof -
  obtain q t where "m s = (q, t)" by fastforce
  with assms that show thesis by (cases q) (auto simp: op_defs)
qed

lemma handle_eq_Ok: "m s = (Ok x, s') \<Longrightarrow> handle m f h s = f x s'"
  by (simp add: handle_def)

lemma handle_eq_Err: "m s = (Err e, s') \<Longrightarrow> handle m f h s = h e s'"
  by (simp add: handle_def)

lemma bnd_eq_Ok: "m s = (Ok x, s') \<Longrightarrow> bnd m f s = f x s'"
  by (simp add: bnd_def handle_def)

lemma bnd_eq_Err: "m s = (Err e, s') \<Longrightarrow> bnd m f s = (Err e, s')"
  by (simp add: op_defs)

lemmas op_eqs = handle_eq_Ok handle_eq_Err bnd_eq_Ok bnd_eq_Err

section \<open>Frame logic\<close>

definition keeps :: "('s \<Rightarrow> 's \<Rightarrow> bool) \<Rightarrow> ('s, 'x, 'a) op \<Rightarrow> bool" where
  "keeps R m \<longleftrightarrow> (\<forall>s. R s (snd (m s)))"

lemma keepsD: "keeps R m \<Longrightarrow> m s = (r, s') \<Longrightarrow> R s s'"
  by (metis keeps_def snd_conv)

lemma keepsI: "(\<And>s r s'. m s = (r, s') \<Longrightarrow> R s s') \<Longrightarrow> keeps R m"
  by (simp add: keeps_def prod_eq_iff)

lemma keeps_mono: "keeps R m \<Longrightarrow> (\<And>s s'. R s s' \<Longrightarrow> Q s s') \<Longrightarrow> keeps Q m"
  by (simp add: keeps_def)

lemma keeps_option [frame_rules]:
  "keeps R f \<Longrightarrow> (\<And>x. keeps R (g x)) \<Longrightarrow> keeps R (case p of None \<Rightarrow> f | Some x \<Rightarrow> g x)"
  by (cases p) auto

lemma keeps_if [frame_rules]:
  "keeps R f \<Longrightarrow> keeps R g \<Longrightarrow> keeps R (if b then f else g)"
  by simp

lemma keeps_list [frame_rules]:
  "keeps R f \<Longrightarrow> (\<And>x xs. keeps R (g x xs)) \<Longrightarrow>
     keeps R (case l of [] \<Rightarrow> f | x # xs \<Rightarrow> g x xs)"
  by (cases l) auto

lemma keeps_prod [frame_rules]:
  "(\<And>x y. keeps R (f x y)) \<Longrightarrow> keeps R (case p of (x, y) \<Rightarrow> f x y)"
  by (cases p) auto

text \<open>
  The interface of the frame logic: a relation that is reflexive and transitive is kept by a
  composed operation as soon as the parts keep it.  It is interpreted on the call-log
  relation of the world and on the scope relations built from it.
\<close>

locale op_frame =
  fixes R :: "'s \<Rightarrow> 's \<Rightarrow> bool"
  assumes refl: "R s s"
    and trans: "R s t \<Longrightarrow> R t u \<Longrightarrow> R s u"
begin

lemma frame_ret [frame_rules]: "keeps R (ret x)"
  by (simp add: keeps_def ret_def refl)

lemma frame_raise [frame_rules]: "keeps R (raise e)"
  by (simp add: keeps_def raise_def refl)

lemma frame_panic [frame_rules]: "keeps R panic"
  by (simp add: keeps_def panic_def refl)

lemma frame_gets [frame_rules]: "keeps R (gets f)"
  by (simp add: keeps_def gets_def refl)

lemma frame_lift_out [frame_rules]: "keeps R (lift_out r)"
  by (simp add: keeps_def lift_out_def refl)

lemma frame_deref [frame_rules]: "keeps R (deref p)"
  by (cases p) (simp_all add: deref_def frame_panic frame_ret)

lemma frame_handle [frame_rules]:
  assumes "keeps R m" and "\<And>x. keeps R (f x)" and "\<And>e. keeps R (h e)"
  shows "keeps R (handle m f h)"
proof (rule keepsI)
  fix s r u assume run: "handle m f h s = (r, u)"
  obtain o' t where m: "m s = (o', t)" by fastforce
  then have st: "R s t" using assms(1) by (auto dest: keepsD)
  show "R s u"
  proof (cases o')
    case (Ok x)
    with run m have "f x t = (r, u)" by (simp add: handle_def)
    with assms(2) st show ?thesis by (blast dest: keepsD intro: trans)
  next
    case (Err e)
    with run m have "h e t = (r, u)" by (simp add: handle_def)
    with assms(3) st show ?thesis by (blast dest: keepsD intro: trans)
  next
    case Panic
    with run m st show ?thesis by (simp add: handle_def)
  qed
qed

lemma frame_bnd [frame_rules]:
  "keeps R m \<Longrightarrow> (\<And>x. keeps R (f x)) \<Longrightarrow> keeps R (bnd m f)"
  by (simp add: bnd_def frame_handle frame_raise)

end

section \<open>Lists and options\<close>

lemma list_all_filter_Nil: "list_all (\<lambda>x. \<not> P x) xs \<longleftrightarrow> filter P xs = []"
  by (induction xs) auto

end
