(* ===== verification/Go_Std.thy ===== *)
theory Go_Std
  imports Prelude "HOL-Library.Word" "HOL-Library.Char_ord" "HOL-Library.List_Lexorder"
begin

text \<open>
  What the provider uses of the Go language and its standard library: fixed-width integers
  and their conversions, \<^verbatim>\<open>strconv\<close>, \<^verbatim>\<open>strings\<close>, \<^verbatim>\<open>encoding/base64\<close>, the JSON rendering of
  a string, error values with their wrapping (\<^verbatim>\<open>fmt.Errorf\<close> with \<^verbatim>\<open>%w\<close>, \<^verbatim>\<open>errors.As\<close>).

  A Go string is a byte sequence and so is an Isabelle \<open>string\<close>.  Rendering (\<^verbatim>\<open>%q\<close>, JSON,
  lower-casing) is exact on ASCII; bytes from 0x80 on are passed through, which is what Go
  does with printable UTF-8 text.  An \<^verbatim>\<open>int32\<close> is a \<open>32 word\<close> and an \<^verbatim>\<open>int64\<close> or \<^verbatim>\<open>int\<close> a
  \<open>64 word\<close>, read with \<open>sint\<close>.
\<close>

section \<open>Integers\<close>

type_synonym int32 = "32 word"
type_synonym int64 = "64 word"

text \<open>Integer division truncates towards zero.\<close>

definition go_div :: "int \<Rightarrow> int \<Rightarrow> int" where
  "go_div a b = sgn a * sgn b * (\<bar>a\<bar> div \<bar>b\<bar>)"

text \<open>Conversions between the widths: \<^verbatim>\<open>int64(x)\<close> sign-extends, \<^verbatim>\<open>int32(x)\<close> keeps the low bits.\<close>

definition int64_of_int32 :: "int32 \<Rightarrow> int64" where
  "int64_of_int32 x = scast x"

definition int32_of_int64 :: "int64 \<Rightarrow> int32" where
  "int32_of_int64 x = ucast x"

lemma go_div_nonneg: "0 \<le> a \<Longrightarrow> 0 < b \<Longrightarrow> go_div a b = a div b"
  by (cases "a = 0") (auto simp: go_div_def sgn_if)

lemma go_div_neg: "a < 0 \<Longrightarrow> 0 < b \<Longrightarrow> go_div a b = - ((- a) div b)"
  by (auto simp: go_div_def sgn_if)

lemma go_div_ge_iff:
  assumes "0 < b" "0 < k"
  shows "k \<le> go_div a b \<longleftrightarrow> k * b \<le> a"
proof (cases "0 \<le> a")
  case True
  have "k \<le> a div b \<longleftrightarrow> k * b \<le> a"
  proof
    assume "k \<le> a div b"
    then have "k * b \<le> a div b * b" using assms by simp
    also have "\<dots> \<le> a" using assms minus_mod_eq_div_mult [of a b] pos_mod_sign [of b a] by linarith
    finally show "k * b \<le> a" .
  next
    assume "k * b \<le> a"
    then have "k * b div b \<le> a div b" using assms(1) by (rule zdiv_mono1)
    then show "k \<le> a div b" using assms by simp
  qed
  with True assms show ?thesis by (simp add: go_div_nonneg)
next
  case False
  then have "go_div a b \<le> 0"
    using assms by (simp add: go_div_neg pos_imp_zdiv_nonneg_iff)
  moreover have "0 < k * b" using assms by simp
  ultimately show ?thesis using False assms by linarith
qed

lemma sint_int64_of_int32: "sint (int64_of_int32 x) = sint x"
  by (simp add: int64_of_int32_def sint_up_scast is_up)

section \<open>Characters and strings\<close>

abbreviation dq :: char where "dq \<equiv> CHR 0x22"
abbreviation sq :: char where "sq \<equiv> CHR 0x27"
abbreviation bs :: char where "bs \<equiv> CHR 0x5C"

abbreviation code :: "char \<Rightarrow> nat" where "code c \<equiv> of_char c"

definition lower_char :: "char \<Rightarrow> char" where
  "lower_char c = (if 65 \<le> code c \<and> code c \<le> 90 then char_of (code c + 32) else c)"

text \<open>\<^verbatim>\<open>strings.ToLower\<close>.\<close>

definition strings_ToLower :: "string \<Rightarrow> string" where
  "strings_ToLower s = map lower_char s"

text \<open>\<^verbatim>\<open>strings.Contains(s, substr)\<close>: a scan over the start positions.\<close>

fun strings_Contains :: "string \<Rightarrow> string \<Rightarrow> bool" where
  "strings_Contains [] sub = (sub = [])"
| "strings_Contains (c # s) sub = (prefix sub (c # s) \<or> strings_Contains s sub)"

text \<open>The scan agrees with the reference notion of a contiguous sublist.\<close>

lemma strings_Contains_sublist: "strings_Contains s sub \<longleftrightarrow> sublist sub s"
  by (induction s) (auto simp: sublist_Cons_right)

lemma strings_Contains_mid: "strings_Contains (xs @ sub @ ys) sub"
  by (simp add: strings_Contains_sublist)

lemma strings_Contains_append:
  "strings_Contains s sub \<Longrightarrow> strings_Contains (p @ s @ q) sub"
  by (auto simp: strings_Contains_sublist intro: sublist_order.order_trans)

lemma strings_ToLower_append [simp]:
  "strings_ToLower (s @ t) = strings_ToLower s @ strings_ToLower t"
  by (simp add: strings_ToLower_def)

text \<open>Two adjacent characters, a way to refute that a text contains a phrase.\<close>

fun has_pair :: "char \<Rightarrow> char \<Rightarrow> string \<Rightarrow> bool" where
  "has_pair x y (a # b # s) = ((a = x \<and> b = y) \<or> has_pair x y (b # s))"
| "has_pair x y _ = False"

lemma has_pair_append:
  "has_pair x y (a @ b) \<longleftrightarrow> has_pair x y a \<or> has_pair x y b \<or> (a \<noteq> [] \<and> b \<noteq> [] \<and> last a = x \<and> hd b = y)"
proof (induction a)
  case Nil
  then show ?case by simp
next
  case (Cons c a)
  then show ?case by (cases a; cases b) auto
qed

lemma has_pair_Cons: "has_pair x y (c # s) \<longleftrightarrow> (c = x \<and> s \<noteq> [] \<and> hd s = y) \<or> has_pair x y s"
  by (cases s) auto

lemma has_pair_mem: "has_pair x y s \<Longrightarrow> y \<in> set s"
  by (induction x y s rule: has_pair.induct) auto

lemma strings_Contains_has_pair: "strings_Contains s (p @ [x, y] @ q) \<Longrightarrow> has_pair x y s"
  by (auto simp: strings_Contains_sublist sublist_def has_pair_append)

lemma strings_Contains_mem: "strings_Contains s sub \<Longrightarrow> c \<in> set sub \<Longrightarrow> c \<in> set s"
  by (auto simp: strings_Contains_sublist sublist_def)

text \<open>A phrase in two joined texts is in one of them or straddles the joint.\<close>

lemma strings_Contains_joint:
  assumes "strings_Contains (p @ m) w" and "\<not> strings_Contains p w" and "\<not> strings_Contains m w"
  shows "\<exists>x y z. w = x @ y \<and> x \<noteq> [] \<and> y \<noteq> [] \<and> p = z @ x"
proof -
  from assms(1) obtain a b where ab: "p @ m = a @ w @ b" by (auto simp: strings_Contains_sublist sublist_def)
  then consider d where "p = a @ d" "d @ m = w @ b" | d where "a = p @ d" "m = d @ w @ b"
    by (auto simp: append_eq_append_conv2)
  then show ?thesis
  proof cases
    case 1
    then consider e where "d = w @ e" | e where "w = d @ e" "m = e @ b"
      by (auto simp: append_eq_append_conv2)
    then show ?thesis
    proof cases
      case 1
      with \<open>p = a @ d\<close> assms(2) show ?thesis by (auto simp: strings_Contains_sublist sublist_def)
    next
      case 2
      show ?thesis
      proof (cases "d = [] \<or> e = []")
        case True
        with 1 2 have "p = a @ w @ [] \<or> m = [] @ w @ b" by auto
        with assms(2,3) show ?thesis by (metis strings_Contains_mid)
      qed (use 1 2 in blast)
    qed
  next
    case 2
    with assms(3) show ?thesis by (auto simp: strings_Contains_sublist sublist_def)
  qed
qed

text \<open>\<^verbatim>\<open>strconv.Itoa\<close> and \<^verbatim>\<open>strconv.FormatInt(_, 10)\<close>.\<close>

definition digit_char :: "nat \<Rightarrow> char" where
  "digit_char d = char_of (48 + d)"

fun nat_digits :: "nat \<Rightarrow> string" where
  "nat_digits n = (if n < 10 then [digit_char n] else nat_digits (n div 10) @ [digit_char (n mod 10)])"

declare nat_digits.simps [simp del]

definition strconv_Itoa :: "int \<Rightarrow> string" where
  "strconv_Itoa i = (if i < 0 then CHR ''-'' # nat_digits (nat (- i)) else nat_digits (nat i))"

text \<open>The reader of decimal numerals, \<^verbatim>\<open>strconv.Atoi\<close> on well-formed input.\<close>

definition is_digit :: "char \<Rightarrow> bool" where
  "is_digit c \<longleftrightarrow> 48 \<le> code c \<and> code c \<le> 57"

definition digits_val :: "string \<Rightarrow> nat" where
  "digits_val s = foldl (\<lambda>n c. 10 * n + (code c - 48)) 0 s"

definition strconv_Atoi :: "string \<Rightarrow> int option" where
  "strconv_Atoi s = (case s of
       [] \<Rightarrow> None
     | c # cs \<Rightarrow>
         if c = CHR ''-'' then (if cs \<noteq> [] \<and> list_all is_digit cs then Some (- int (digits_val cs)) else None)
         else if list_all is_digit s then Some (int (digits_val s)) else None)"

lemma code_digit_char [simp]: "d < 10 \<Longrightarrow> code (digit_char d) = 48 + d"
  by (simp add: digit_char_def)

lemma nat_digits_nonempty [simp]: "nat_digits n \<noteq> []"
  by (subst nat_digits.simps) simp

lemma nat_digits_are_digits: "list_all is_digit (nat_digits n)"
proof (induction n rule: nat_digits.induct)
  case (1 n)
  then show ?case
    by (subst nat_digits.simps) (auto simp: is_digit_def [of "digit_char _"])
qed

lemma digits_val_nat_digits: "digits_val (nat_digits n) = n"
proof (induction n rule: nat_digits.induct)
  case (1 n)
  then show ?case
    by (subst nat_digits.simps) (auto simp: digits_val_def)
qed

lemma strconv_Atoi_Itoa: "strconv_Atoi (strconv_Itoa i) = Some i"
proof (cases "i < 0")
  case True
  then show ?thesis
    by (simp add: strconv_Itoa_def strconv_Atoi_def nat_digits_are_digits digits_val_nat_digits)
next
  case False
  obtain c cs where d: "nat_digits (nat i) = c # cs" by (cases "nat_digits (nat i)") auto
  then have "is_digit c" using nat_digits_are_digits [of "nat i"] by simp
  then have "c \<noteq> CHR ''-''" by (auto simp: is_digit_def)
  with False d show ?thesis
    using nat_digits_are_digits [of "nat i"] digits_val_nat_digits [of "nat i"]
    by (simp add: strconv_Itoa_def strconv_Atoi_def)
qed

text \<open>\<^verbatim>\<open>strconv.Quote\<close>, the \<^verbatim>\<open>%q\<close> verb.\<close>

definition hex_digit :: "nat \<Rightarrow> char" where
  "hex_digit d = (if d < 10 then char_of (48 + d) else char_of (87 + d))"

definition quote_char :: "char \<Rightarrow> string" where
  "quote_char c =
     (if c = dq then [bs, dq] else if c = bs then [bs, bs]
      else if code c = 7 then [bs, CHR ''a''] else if code c = 8 then [bs, CHR ''b'']
      else if code c = 12 then [bs, CHR ''f''] else if code c = 10 then [bs, CHR ''n'']
      else if code c = 13 then [bs, CHR ''r''] else if code c = 9 then [bs, CHR ''t'']
      else if code c = 11 then [bs, CHR ''v'']
      else if code c < 32 \<or> code c = 127
        then [bs, CHR ''x'', hex_digit (code c div 16), hex_digit (code c mod 16)]
      else [c])"

definition strconv_Quote :: "string \<Rightarrow> string" where
  "strconv_Quote s = dq # concat (map quote_char s) @ [dq]"

text \<open>The JSON rendering of a string by \<^verbatim>\<open>encoding/json\<close>, with its HTML-safe escapes.\<close>

definition json_char :: "char \<Rightarrow> string" where
  "json_char c =
     (if c = dq then [bs, dq] else if c = bs then [bs, bs]
      else if code c = 8 then [bs, CHR ''b''] else if code c = 12 then [bs, CHR ''f'']
      else if code c = 10 then [bs, CHR ''n''] else if code c = 13 then [bs, CHR ''r'']
      else if code c = 9 then [bs, CHR ''t'']
      else if code c < 32 \<or> c = CHR ''<'' \<or> c = CHR ''>'' \<or> c = CHR ''&''
        then [bs, CHR ''u'', CHR ''0'', CHR ''0'', hex_digit (code c div 16), hex_digit (code c mod 16)]
      else [c])"

definition json_string :: "string \<Rightarrow> string" where
  "json_string s = dq # concat (map json_char s) @ [dq]"

text \<open>\<^verbatim>\<open>strings.Join\<close>.\<close>

fun strings_Join :: "string list \<Rightarrow> string \<Rightarrow> string" where
  "strings_Join [] sep = []"
| "strings_Join [x] sep = x"
| "strings_Join (x # y # xs) sep = x @ sep @ strings_Join (y # xs) sep"

text \<open>The string of a \<^verbatim>\<open>time.Duration\<close> that is a whole number of seconds.\<close>

definition duration_String :: "nat \<Rightarrow> string" where
  "duration_String n =
     (if n < 60 then nat_digits n @ ''s''
      else if n < 3600 then nat_digits (n div 60) @ ''m'' @ nat_digits (n mod 60) @ ''s''
      else nat_digits (n div 3600) @ ''h'' @ nat_digits (n div 60 mod 60) @ ''m'' @
           nat_digits (n mod 60) @ ''s'')"

section \<open>Base64\<close>

text \<open>\<^verbatim>\<open>base64.StdEncoding\<close>: groups of three bytes become four characters, with padding.\<close>

definition b64_char :: "nat \<Rightarrow> char" where
  "b64_char n =
     (if n < 26 then char_of (65 + n) else if n < 52 then char_of (71 + n)
      else if n < 62 then char_of (n - 4) else if n = 62 then CHR ''+'' else CHR ''/'')"

definition b64_val :: "char \<Rightarrow> nat option" where
  "b64_val c =
     (let k = code c in
      if 65 \<le> k \<and> k \<le> 90 then Some (k - 65) else if 97 \<le> k \<and> k \<le> 122 then Some (k - 71)
      else if 48 \<le> k \<and> k \<le> 57 then Some (k + 4) else if c = CHR ''+'' then Some 62
      else if c = CHR ''/'' then Some 63 else None)"

fun base64_EncodeToString :: "string \<Rightarrow> string" where
  "base64_EncodeToString [] = []"
| "base64_EncodeToString [a] =
     [b64_char (code a div 4), b64_char (code a mod 4 * 16), CHR ''='', CHR ''='']"
| "base64_EncodeToString [a, b] =
     [b64_char (code a div 4), b64_char (code a mod 4 * 16 + code b div 16),
      b64_char (code b mod 16 * 4), CHR ''='']"
| "base64_EncodeToString (a # b # c # s) =
     b64_char (code a div 4) # b64_char (code a mod 4 * 16 + code b div 16) #
     b64_char (code b mod 16 * 4 + code c div 64) # b64_char (code c mod 64) #
     base64_EncodeToString s"

fun base64_DecodeString :: "string \<Rightarrow> string option" where
  "base64_DecodeString [] = Some []"
| "base64_DecodeString (w # x # y # z # s) =
     (case (b64_val w, b64_val x) of
        (Some i, Some j) \<Rightarrow>
          (if y = CHR ''='' \<and> z = CHR ''='' \<and> s = [] then Some [char_of (i * 4 + j div 16)]
           else case b64_val y of
             None \<Rightarrow> None
           | Some k \<Rightarrow>
               if z = CHR ''='' \<and> s = [] then Some [char_of (i * 4 + j div 16), char_of (j mod 16 * 16 + k div 4)]
               else (case (b64_val z, base64_DecodeString s) of
                  (Some l, Some t) \<Rightarrow>
                    Some (char_of (i * 4 + j div 16) # char_of (j mod 16 * 16 + k div 4) #
                          char_of (k mod 4 * 64 + l) # t)
                | _ \<Rightarrow> None))
      | _ \<Rightarrow> None)"
| "base64_DecodeString _ = None"

lemma code_bound: "code c < 256"
  by simp

lemma b64_val_char: "n < 64 \<Longrightarrow> b64_val (b64_char n) = Some n"
  by (auto simp: b64_val_def b64_char_def Let_def)

lemma b64_char_not_pad: "b64_char n \<noteq> CHR ''=''"
proof
  assume "b64_char n = CHR ''=''"
  then have "code (b64_char n) = 61" by simp
  then show False by (auto simp: b64_char_def split: if_splits)
qed

lemma code_div_bounds: "code c div 4 < 64" "code c div 16 < 16" "code c div 64 < 4"
  by (simp_all add: less_mult_imp_div_less)

lemma code_mod_bounds:
  "code a mod 4 * 16 < 64" "code a mod 16 * 4 < 64"
  "code a mod 4 * 16 + code b div 16 < 64" "code a mod 16 * 4 + code b div 64 < 64"
proof -
  have m: "code a mod 4 \<le> 3" "code a mod 16 \<le> 15"
    using mod_less_divisor [of 4 "code a"] mod_less_divisor [of 16 "code a"] by linarith+
  then show "code a mod 4 * 16 < 64" "code a mod 16 * 4 < 64" by simp_all
  show "code a mod 4 * 16 + code b div 16 < 64" "code a mod 16 * 4 + code b div 64 < 64"
    using m code_div_bounds [of b] by linarith+
qed

lemmas code_groups = code_div_bounds code_mod_bounds

text \<open>Decoding inverts encoding on every byte string.\<close>

lemma base64_Decode_Encode: "base64_DecodeString (base64_EncodeToString s) = Some s"
proof (induction s rule: base64_EncodeToString.induct)
  case 1
  then show ?case by simp
next
  case (2 a)
  then show ?case by (simp add: b64_val_char code_groups)
next
  case (3 a b)
  then show ?case by (simp add: b64_val_char b64_char_not_pad code_groups)
next
  case (4 a b c s)
  then show ?case by (simp add: b64_val_char b64_char_not_pad code_groups)
qed

end
