(* ===== verification/Errors.thy ===== *)
theory Errors
  imports Go_Std
begin

text \<open>
  Error values.  Go code inspects an error in three ways, and the model keeps what each of
  them needs: its message (\<^verbatim>\<open>Error()\<close>, on which \<open>isNotFoundError\<close> of utils.go decides), its
  chain of wrapped errors (\<^verbatim>\<open>errors.As\<close>, on which the machine controller decides), and its
  dynamic type (a type switch, in the machine-set controller).

  The second half renders the field errors of \<^verbatim>\<open>k8s.io/apimachinery\<close> that the validation of
  a provider spec collects, and their aggregate.
\<close>

section \<open>Error values\<close>

text \<open>
  \<open>NewError\<close> is an error with a message and nothing below it, \<open>WrapError\<close> one made by
  \<^verbatim>\<open>fmt.Errorf\<close> with \<^verbatim>\<open>%w\<close>, the next two are the machine controller's own error types, and
  \<open>StatusError\<close> is what the Kubernetes API client returns (reason and message).
\<close>

datatype go_error =
    NewError string
  | WrapError string go_error
  | MachineError string string
  | RequeueAfterError nat
  | StatusError string string

primrec err_Error :: "go_error \<Rightarrow> string" where
  "err_Error (NewError m) = m"
| "err_Error (WrapError m e) = m"
| "err_Error (MachineError reason m) = m"
| "err_Error (RequeueAfterError n) = ''requeue in: '' @ duration_String n"
| "err_Error (StatusError reason m) = m"

text \<open>\<^verbatim>\<open>fmt.Errorf("...: %w", err)\<close>: the text before the verb, the wrapped error.\<close>

definition fmt_Errorf_w :: "string \<Rightarrow> go_error \<Rightarrow> go_error" where
  "fmt_Errorf_w pre e = WrapError (pre @ err_Error e) e"

text \<open>The same with a nil error as the argument of \<^verbatim>\<open>%w\<close>.\<close>

definition fmt_Errorf_w_nil :: "string \<Rightarrow> go_error" where
  "fmt_Errorf_w_nil pre = NewError (pre @ ''%!w(<nil>)'')"

lemma err_Error_Errorf_w [simp]: "err_Error (fmt_Errorf_w pre e) = pre @ err_Error e"
  by (simp add: fmt_Errorf_w_def)

text \<open>\<^verbatim>\<open>errors.As\<close> for the two typed errors of the machine controller, and for API status errors.\<close>

primrec as_MachineError :: "go_error \<Rightarrow> (string \<times> string) option" where
  "as_MachineError (NewError m) = None"
| "as_MachineError (WrapError m e) = as_MachineError e"
| "as_MachineError (MachineError r m) = Some (r, m)"
| "as_MachineError (RequeueAfterError n) = None"
| "as_MachineError (StatusError r m) = None"

primrec as_RequeueAfterError :: "go_error \<Rightarrow> nat option" where
  "as_RequeueAfterError (NewError m) = None"
| "as_RequeueAfterError (WrapError m e) = as_RequeueAfterError e"
| "as_RequeueAfterError (MachineError r m) = None"
| "as_RequeueAfterError (RequeueAfterError n) = Some n"
| "as_RequeueAfterError (StatusError r m) = None"

primrec as_StatusError :: "go_error \<Rightarrow> string option" where
  "as_StatusError (NewError m) = None"
| "as_StatusError (WrapError m e) = as_StatusError e"
| "as_StatusError (MachineError r m) = None"
| "as_StatusError (RequeueAfterError n) = None"
| "as_StatusError (StatusError r m) = Some r"

lemma as_fmt_Errorf_w [simp]:
  "as_MachineError (fmt_Errorf_w pre e) = as_MachineError e"
  "as_RequeueAfterError (fmt_Errorf_w pre e) = as_RequeueAfterError e"
  "as_StatusError (fmt_Errorf_w pre e) = as_StatusError e"
  by (simp_all add: fmt_Errorf_w_def)

text \<open>\<^verbatim>\<open>apierrors.IsNotFound\<close>: the reason of the status error in the chain.\<close>

definition apierrors_IsNotFound :: "go_error \<Rightarrow> bool" where
  "apierrors_IsNotFound e \<longleftrightarrow> as_StatusError e = Some ''NotFound''"

definition InvalidConfigurationMachineError :: string where
  "InvalidConfigurationMachineError = ''InvalidConfiguration''"

text \<open>\<^verbatim>\<open>machinecontroller.InvalidMachineConfiguration\<close>, given the formatted message.\<close>

definition InvalidMachineConfiguration :: "string \<Rightarrow> go_error" where
  "InvalidMachineConfiguration m = MachineError InvalidConfigurationMachineError m"

section \<open>Field errors\<close>

datatype field_error_type = ErrorTypeRequired | ErrorTypeInvalid | ErrorTypeTooMany | ErrorTypeInternal

text \<open>
  The rejected value: a plain string prints quoted, an int32 in decimal; values of named string
  types, \<^verbatim>\<open>int\<close> and structs go through the JSON encoder.
\<close>

datatype bad_value =
    BadString string
  | BadInt int
  | BadNamedString string
  | BadCategory string string
  | BadErr go_error

record field_error =
  fe_Type :: field_error_type
  fe_Field :: string
  fe_BadValue :: bad_value
  fe_Detail :: string

primrec error_type_String :: "field_error_type \<Rightarrow> string" where
  "error_type_String ErrorTypeRequired = ''Required value''"
| "error_type_String ErrorTypeInvalid = ''Invalid value''"
| "error_type_String ErrorTypeTooMany = ''Too many''"
| "error_type_String ErrorTypeInternal = ''Internal error''"

primrec bad_value_String :: "bad_value \<Rightarrow> string" where
  "bad_value_String (BadString s) = strconv_Quote s"
| "bad_value_String (BadInt i) = strconv_Itoa i"
| "bad_value_String (BadNamedString s) = json_string s"
| "bad_value_String (BadCategory k v) =
     ''{'' @ json_string ''key'' @ '':'' @ json_string k @ '','' @ json_string ''value'' @ '':'' @ json_string v @ ''}''"
| "bad_value_String (BadErr e) = ''{}''"

definition field_ErrorBody :: "field_error \<Rightarrow> string" where
  "field_ErrorBody e =
     (let s = (if fe_Type e = ErrorTypeRequired \<or> fe_Type e = ErrorTypeInternal
               then error_type_String (fe_Type e)
               else error_type_String (fe_Type e) @ '': '' @ bad_value_String (fe_BadValue e))
      in if fe_Detail e \<noteq> [] then s @ '': '' @ fe_Detail e else s)"

definition field_Error :: "field_error \<Rightarrow> string" where
  "field_Error e = fe_Field e @ '': '' @ field_ErrorBody e"

text \<open>A path is the list of its names; \<^verbatim>\<open>Child\<close> appends, \<^verbatim>\<open>String\<close> joins with dots.\<close>

type_synonym field_path = "string list"

definition path_Child :: "field_path \<Rightarrow> string list \<Rightarrow> field_path" where
  "path_Child p names = p @ names"

definition path_String :: "field_path \<Rightarrow> string" where
  "path_String p = strings_Join p ''.''"

definition field_Required :: "field_path \<Rightarrow> string \<Rightarrow> field_error" where
  "field_Required p detail =
     \<lparr>fe_Type = ErrorTypeRequired, fe_Field = path_String p, fe_BadValue = BadString [], fe_Detail = detail\<rparr>"

definition field_Invalid :: "field_path \<Rightarrow> bad_value \<Rightarrow> string \<Rightarrow> field_error" where
  "field_Invalid p v detail =
     \<lparr>fe_Type = ErrorTypeInvalid, fe_Field = path_String p, fe_BadValue = v, fe_Detail = detail\<rparr>"

definition field_TooMany :: "field_path \<Rightarrow> int \<Rightarrow> int \<Rightarrow> field_error" where
  "field_TooMany p actual maxQuantity =
     \<lparr>fe_Type = ErrorTypeTooMany, fe_Field = path_String p, fe_BadValue = BadInt actual,
      fe_Detail = ''must have at most '' @ strconv_Itoa maxQuantity @ (if maxQuantity = 1 then '' item'' else '' items'')\<rparr>"

definition field_InternalError :: "field_path \<Rightarrow> go_error \<Rightarrow> field_error" where
  "field_InternalError p e =
     \<lparr>fe_Type = ErrorTypeInternal, fe_Field = path_String p, fe_BadValue = BadErr e, fe_Detail = err_Error e\<rparr>"

text \<open>
  \<^verbatim>\<open>ErrorList.ToAggregate().Error()\<close>.  \<^verbatim>\<open>ToAggregate\<close> drops repeated messages, and the aggregate
  of one error prints as that error.
\<close>

fun distinct_msgs :: "string list \<Rightarrow> string list \<Rightarrow> string list" where
  "distinct_msgs seen [] = []"
| "distinct_msgs seen (m # ms) = (if m \<in> set seen then distinct_msgs seen ms else m # distinct_msgs (m # seen) ms)"

definition aggregate_Error :: "field_error list \<Rightarrow> string" where
  "aggregate_Error errs =
     (let ms = distinct_msgs [] (map field_Error errs)
      in case ms of [] \<Rightarrow> [] | [m] \<Rightarrow> m | _ \<Rightarrow> ''['' @ strings_Join ms '', '' @ '']'')"

lemma set_distinct_msgs: "set (distinct_msgs seen ms) = set ms - set seen"
  by (induction ms arbitrary: seen) auto

lemma distinct_distinct_msgs: "distinct (distinct_msgs seen ms)"
  by (induction ms arbitrary: seen) (auto simp: set_distinct_msgs)

lemma strings_Join_contains: "m \<in> set ms \<Longrightarrow> strings_Contains (strings_Join ms sep) m"
proof (induction ms sep rule: strings_Join.induct)
  case (3 x y xs sep)
  show ?case
  proof (cases "m = x")
    case True
    then show ?thesis by (simp add: strings_Contains_sublist)
  next
    case False
    with 3 have "sublist m (strings_Join (y # xs) sep)" by (simp add: strings_Contains_sublist)
    then show ?thesis
      using strings_Contains_append [of "strings_Join (y # xs) sep" m "x @ sep" "[]"]
      by (simp add: strings_Contains_sublist)
  qed
qed (auto simp: strings_Contains_sublist)

text \<open>No message is lost: the aggregate's text contains the text of every field error.\<close>

lemma aggregate_Error_contains:
  assumes "e \<in> set errs"
  shows "strings_Contains (aggregate_Error errs) (field_Error e)"
proof -
  let ?ms = "distinct_msgs [] (map field_Error errs)"
  have mem: "field_Error e \<in> set ?ms" using assms by (simp add: set_distinct_msgs)
  then have j: "sublist (field_Error e) (strings_Join ?ms '', '')"
    using strings_Join_contains by (simp add: strings_Contains_sublist)
  show ?thesis
  proof (cases "\<exists>m. ?ms = [m]")
    case True
    with mem show ?thesis by (auto simp: aggregate_Error_def strings_Contains_sublist)
  next
    case False
    with mem have "aggregate_Error errs = ''['' @ strings_Join ?ms '', '' @ '']''"
      by (auto simp: aggregate_Error_def Let_def split: list.splits)
    with j show ?thesis
      using strings_Contains_append [of "strings_Join ?ms '', ''" "field_Error e" "''[''" "'']''"]
      by (simp add: strings_Contains_sublist)
  qed
qed

end
