(* ===== verification/API_Types.thy ===== *)
theory API_Types
  imports Errors
begin

text \<open>
  The data the provider reads and writes, field by field as the Go structs have it: the
  Machine and MachineSet objects, the Nutanix provider spec and status, the Infrastructure,
  Node and Secret objects, and the Prism Central entities (VM, cluster, image, ...).  A
  pointer is an \<open>option\<close>, a slice a list, a nil-able map an optional partial function, an
  enumeration with a string base type a \<open>string\<close> with named constants (so that an unknown
  value is a value).  A \<^verbatim>\<open>resource.Quantity\<close> is the int64 its \<^verbatim>\<open>Value\<close> method returns.
\<close>

type_synonym bytes = string
type_synonym string_map = "(string \<rightharpoonup> string) option"
type_synonym Quantity = int64

text \<open>Reading a Go map: nil is empty, a missing key is the zero value.\<close>

definition map_lookup :: "string_map \<Rightarrow> string \<Rightarrow> string option" where
  "map_lookup m k = (case m of None \<Rightarrow> None | Some f \<Rightarrow> f k)"

definition map_get :: "string_map \<Rightarrow> string \<Rightarrow> string" where
  "map_get m k = ptr_Deref (map_lookup m k) []"

text \<open>\<^verbatim>\<open>if m == nil { m = map[string]string{} }\<close>.\<close>

definition map_make :: "string_map \<Rightarrow> (string \<rightharpoonup> string)" where
  "map_make m = (case m of None \<Rightarrow> Map.empty | Some f \<Rightarrow> f)"

lemma map_lookup_Some [simp]: "map_lookup (Some f) k = f k"
  by (simp add: map_lookup_def)

lemma map_lookup_make [simp]: "map_make m k = map_lookup m k"
  by (cases m) (simp_all add: map_make_def map_lookup_def)

section \<open>Provider spec (openshift/api machine/v1)\<close>

definition NutanixIdentifierUUID :: string where "NutanixIdentifierUUID = ''uuid''"
definition NutanixIdentifierName :: string where "NutanixIdentifierName = ''name''"

record NutanixResourceIdentifier =
  ri_Type :: string
  ri_UUID :: "string option"
  ri_Name :: "string option"

definition NutanixLegacyBoot :: string where "NutanixLegacyBoot = ''Legacy''"
definition NutanixUEFIBoot :: string where "NutanixUEFIBoot = ''UEFI''"
definition NutanixSecureBoot :: string where "NutanixSecureBoot = ''SecureBoot''"

record NutanixCategory =
  cat_Key :: string
  cat_Value :: string

definition NutanixGPUIdentifierName :: string where "NutanixGPUIdentifierName = ''Name''"
definition NutanixGPUIdentifierDeviceID :: string where "NutanixGPUIdentifierDeviceID = ''DeviceID''"

record NutanixGPU =
  gpu_Type :: string
  gpu_DeviceID :: "int32 option"
  gpu_Name :: "string option"

definition NutanixDiskModeStandard :: string where "NutanixDiskModeStandard = ''Standard''"
definition NutanixDiskModeFlash :: string where "NutanixDiskModeFlash = ''Flash''"

record NutanixStorageResourceIdentifier =
  sri_Type :: string
  sri_UUID :: "string option"

record NutanixVMStorageConfig =
  sc_DiskMode :: string
  sc_StorageContainer :: "NutanixStorageResourceIdentifier option"

definition NutanixDiskDeviceTypeDisk :: string where "NutanixDiskDeviceTypeDisk = ''Disk''"
definition NutanixDiskDeviceTypeCDROM :: string where "NutanixDiskDeviceTypeCDROM = ''CDRom''"

definition NutanixDiskAdapterTypeSCSI :: string where "NutanixDiskAdapterTypeSCSI = ''SCSI''"
definition NutanixDiskAdapterTypeIDE :: string where "NutanixDiskAdapterTypeIDE = ''IDE''"
definition NutanixDiskAdapterTypePCI :: string where "NutanixDiskAdapterTypePCI = ''PCI''"
definition NutanixDiskAdapterTypeSATA :: string where "NutanixDiskAdapterTypeSATA = ''SATA''"
definition NutanixDiskAdapterTypeSPAPR :: string where "NutanixDiskAdapterTypeSPAPR = ''SPAPR''"

record NutanixVMDiskDeviceProperties =
  dp_DeviceType :: string
  dp_AdapterType :: string
  dp_DeviceIndex :: int32

record NutanixVMDisk =
  dd_DiskSize :: Quantity
  dd_DeviceProperties :: "NutanixVMDiskDeviceProperties option"
  dd_StorageConfig :: "NutanixVMStorageConfig option"
  dd_DataSource :: "NutanixResourceIdentifier option"

text \<open>References to secrets and to the failure domain are the referenced names.\<close>

record NutanixMachineProviderConfig =
  ps_Cluster :: NutanixResourceIdentifier
  ps_Image :: NutanixResourceIdentifier
  ps_Subnets :: "NutanixResourceIdentifier list"
  ps_VCPUsPerSocket :: int32
  ps_VCPUSockets :: int32
  ps_MemorySize :: Quantity
  ps_SystemDiskSize :: Quantity
  ps_BootType :: string
  ps_Project :: NutanixResourceIdentifier
  ps_Categories :: "NutanixCategory list"
  ps_GPUs :: "NutanixGPU list"
  ps_DataDisks :: "NutanixVMDisk list"
  ps_UserDataSecret :: "string option"
  ps_CredentialsSecret :: "string option"
  ps_FailureDomain :: "string option"

definition empty_identifier :: NutanixResourceIdentifier where
  "empty_identifier = \<lparr>ri_Type = [], ri_UUID = None, ri_Name = None\<rparr>"

text \<open>The zero value \<^verbatim>\<open>NutanixMachineProviderConfig{}\<close>.\<close>

definition empty_spec :: NutanixMachineProviderConfig where
  "empty_spec = \<lparr>ps_Cluster = empty_identifier, ps_Image = empty_identifier, ps_Subnets = [],
     ps_VCPUsPerSocket = 0, ps_VCPUSockets = 0, ps_MemorySize = 0, ps_SystemDiskSize = 0,
     ps_BootType = [], ps_Project = empty_identifier, ps_Categories = [], ps_GPUs = [],
     ps_DataDisks = [], ps_UserDataSecret = None, ps_CredentialsSecret = None,
     ps_FailureDomain = None\<rparr>"

section \<open>Provider status and conditions\<close>

datatype ConditionStatus = ConditionTrue | ConditionFalse | ConditionUnknown

text \<open>The zero \<^verbatim>\<open>metav1.Time\<close> is \<open>None\<close>.\<close>

record Condition =
  co_Type :: string
  co_Status :: ConditionStatus
  co_Reason :: string
  co_Message :: string
  co_LastTransitionTime :: "nat option"

record NutanixMachineProviderStatus =
  st_Conditions :: "Condition list"
  st_VmUUID :: "string option"

definition empty_status :: NutanixMachineProviderStatus where
  "empty_status = \<lparr>st_Conditions = [], st_VmUUID = None\<rparr>"

section \<open>Kubernetes objects\<close>

datatype NodeAddressType = NodeInternalIP | NodeInternalDNS | NodeHostName

record NodeAddress =
  na_Type :: NodeAddressType
  na_Address :: string

record Machine =
  m_Name :: string
  m_Namespace :: string
  m_Labels :: string_map
  m_Annotations :: string_map
  m_ResourceVersion :: string
  m_ProviderSpec :: "bytes option"
  m_ProviderID :: "string option"
  m_ProviderStatus :: "bytes option"
  m_Addresses :: "NodeAddress list"
  m_NodeRef :: "string option"

record MachineSet =
  ms_Name :: string
  ms_Namespace :: string
  ms_Annotations :: string_map
  ms_Deleted :: bool
  ms_ProviderSpec :: "bytes option"

record Node =
  n_Name :: string
  n_Labels :: string_map
  n_ProviderID :: string
  n_VolumesAttached :: "string list"

text \<open>A Secret is its data; \<^verbatim>\<open>configv1\<close> failure domains have their own identifier constants.\<close>

type_synonym Secret = "string \<rightharpoonup> bytes"

definition config_IdentifierUUID :: string where "config_IdentifierUUID = ''UUID''"
definition config_IdentifierName :: string where "config_IdentifierName = ''Name''"

record NutanixFailureDomain =
  fd_Name :: string
  fd_Cluster :: NutanixResourceIdentifier
  fd_Subnets :: "NutanixResourceIdentifier list"

record NutanixPlatformSpec =
  np_Address :: string
  np_Port :: int32
  np_FailureDomains :: "NutanixFailureDomain list"

text \<open>Of the Infrastructure object only \<^verbatim>\<open>spec.platformSpec.nutanix\<close> is read; it may be nil.\<close>

record Infrastructure =
  in_Nutanix :: "NutanixPlatformSpec option"

section \<open>Prism Central entities\<close>

datatype PowerState =
    POWERSTATE_UNKNOWN | POWERSTATE_REDACTED | POWERSTATE_ON | POWERSTATE_OFF
  | POWERSTATE_PAUSED | POWERSTATE_UNDETERMINED

primrec PowerState_GetName :: "PowerState \<Rightarrow> string" where
  "PowerState_GetName POWERSTATE_UNKNOWN = ''$UNKNOWN''"
| "PowerState_GetName POWERSTATE_REDACTED = ''$REDACTED''"
| "PowerState_GetName POWERSTATE_ON = ''ON''"
| "PowerState_GetName POWERSTATE_OFF = ''OFF''"
| "PowerState_GetName POWERSTATE_PAUSED = ''PAUSED''"
| "PowerState_GetName POWERSTATE_UNDETERMINED = ''UNDETERMINED''"

text \<open>An \<^verbatim>\<open>IPv4Address\<close> is its optional value.\<close>

record Ipv4Config =
  ic_IpAddress :: "string option option"

record Ipv4Info =
  ii_LearnedIpAddresses :: "string option list"

record NicNetworkInfo =
  ni_Subnet :: "string option option"
  ni_Ipv4Config :: "Ipv4Config option"
  ni_Ipv4Info :: "Ipv4Info option"

text \<open>What \<^verbatim>\<open>GetNicNetworkInfo\<close> can hold.\<close>

datatype OneOfNicNetworkInfo =
    VirtualEthernetNicNetworkInfo "Ipv4Config option" "Ipv4Info option"
  | DpOffloadNicNetworkInfo "Ipv4Config option" "Ipv4Info option"
  | SriovNicNetworkInfo

record Nic =
  nic_NicNetworkInfo :: "OneOfNicNetworkInfo option"
  nic_NetworkInfo :: "NicNetworkInfo option"

datatype DiskBusType = DISKBUSTYPE_SCSI | DISKBUSTYPE_IDE | DISKBUSTYPE_PCI | DISKBUSTYPE_SATA | DISKBUSTYPE_SPAPR
datatype CdRomBusType = CDROMBUSTYPE_IDE | CDROMBUSTYPE_SATA

record VmDisk =
  vd_DiskSizeBytes :: "int64 option"
  vd_ImageExtId :: "string option"
  vd_IsFlashModeEnabled :: "bool option"
  vd_StorageContainer :: "string option"

record Disk =
  dk_BackingInfo :: VmDisk
  dk_Address :: "(DiskBusType \<times> int64) option"

record CdRom =
  cd_BackingInfo :: VmDisk
  cd_Address :: "(CdRomBusType \<times> int64) option"

datatype BootDeviceType = BOOTDEVICETYPE_CDROM | BOOTDEVICETYPE_DISK | BOOTDEVICETYPE_NETWORK

datatype BootConfig = UefiBoot bool | LegacyBoot "BootDeviceType list"

record VmGpu =
  vg_DeviceId :: "int64 option"
  vg_Name :: "string option"

record CloudInit =
  ci_Metadata :: string
  ci_ConfigDriveV2 :: bool
  ci_Userdata :: string

record Vm =
  vm_ExtId :: "string option"
  vm_Name :: "string option"
  vm_PowerState :: "PowerState option"
  vm_MemorySizeBytes :: "int64 option"
  vm_NumCoresPerSocket :: "int64 option"
  vm_NumSockets :: "int64 option"
  vm_HardwareClockTimezone :: "string option"
  vm_Cluster :: "string option option"
  vm_Nics :: "Nic list"
  vm_Disks :: "Disk list"
  vm_CdRoms :: "CdRom list"
  vm_BootConfig :: "BootConfig option"
  vm_Gpus :: "VmGpu list"
  vm_Categories :: "string list"
  vm_Project :: "string option"
  vm_GuestCustomization :: "CloudInit option"

text \<open>\<^verbatim>\<open>vmmModels.NewVm()\<close> and the other constructors of empty entities.\<close>

definition NewVm :: Vm where
  "NewVm = \<lparr>vm_ExtId = None, vm_Name = None, vm_PowerState = None, vm_MemorySizeBytes = None,
     vm_NumCoresPerSocket = None, vm_NumSockets = None, vm_HardwareClockTimezone = None,
     vm_Cluster = None, vm_Nics = [], vm_Disks = [], vm_CdRoms = [], vm_BootConfig = None,
     vm_Gpus = [], vm_Categories = [], vm_Project = None, vm_GuestCustomization = None\<rparr>"

definition NewVmDisk :: VmDisk where
  "NewVmDisk = \<lparr>vd_DiskSizeBytes = None, vd_ImageExtId = None, vd_IsFlashModeEnabled = None,
     vd_StorageContainer = None\<rparr>"

datatype ClusterFunctionRef =
    CLUSTERFUNCTIONREF_UNKNOWN | CLUSTERFUNCTIONREF_REDACTED | CLUSTERFUNCTIONREF_AOS
  | CLUSTERFUNCTIONREF_PRISM_CENTRAL | CLUSTERFUNCTIONREF_CLOUD_DATA_GATEWAY
  | CLUSTERFUNCTIONREF_AFS | CLUSTERFUNCTIONREF_ONE_NODE | CLUSTERFUNCTIONREF_TWO_NODE
  | CLUSTERFUNCTIONREF_ANALYTICS_PLATFORM

text \<open>\<open>cl_Config\<close> is the optional cluster config, of which only the function list is read.\<close>

record Cluster =
  cl_ExtId :: "string option"
  cl_Name :: "string option"
  cl_Config :: "ClusterFunctionRef list option"

text \<open>Images, subnets and categories: only the external id of a listed entity is read.\<close>

record Entity =
  en_ExtId :: "string option"

text \<open>A v3 project: its metadata pointer and the uuid in it.\<close>

record Project =
  pj_Metadata :: "string option option"

record PhysicalGpuConfig =
  pg_DeviceName :: "string option"
  pg_DeviceId :: "int64 option"

text \<open>A physical GPU profile: its optional configuration.\<close>

record GpuProfile =
  gp_PhysicalGpuConfig :: "PhysicalGpuConfig option"

section \<open>Credentials and ignition\<close>

record Credentials =
  cr_URL :: string
  cr_Username :: string
  cr_Password :: string
  cr_Endpoint :: string
  cr_Port :: string

definition empty_credentials :: Credentials where
  "empty_credentials = \<lparr>cr_URL = [], cr_Username = [], cr_Password = [], cr_Endpoint = [], cr_Port = []\<rparr>"

record IgnFile =
  if_Path :: string
  if_Overwrite :: "bool option"
  if_Mode :: "int option"
  if_Source :: "string option"

text \<open>An ignition config: its file list and everything else in it, which the code only carries.\<close>

record IgnConfig =
  ig_Files :: "IgnFile list"
  ig_Rest :: bytes

end
