(* ===== verification/World.thy ===== *)
theory World
  imports API_Types
begin

text \<open>
  Everything outside the provider: Prism Central behind its two clients, the Kubernetes API
  server, the process environment, the clock, and the JSON codecs of third-party types.  It
  is a parameter of the model: the record \<open>api\<close> holds one function per external call, over
  an arbitrary state \<open>'e\<close> of the outside, so that every theorem holds for every behaviour of
  the servers, including answers that change between two calls.

  The world the operations run in is that outside state and what the provider did to it: the
  log of its calls in order, the events it recorded and the failure metrics it registered.
  A machine scope extends this record with its own fields, so a theorem that an operation
  keeps \<open>world.more\<close> says that it leaves the whole scope alone.
\<close>

section \<open>External operations\<close>

type_synonym ('e, 'a) ext_call = "'e \<Rightarrow> (go_error + 'a) \<times> 'e"

text \<open>The credentials secret, as its JSON decodes: a list of typed entries with raw data.\<close>

record Credential =
  cred_Type :: string
  cred_Data :: "bytes option"

record BasicAuthCredential =
  ba_Username :: string
  ba_Password :: string

text \<open>
  The JSON decoder of a provider spec takes the address of a pointer, so the text \<^verbatim>\<open>null\<close>
  decodes to a nil pointer: \<open>Inr None\<close>.  A task is the id of an asynchronous operation.
\<close>

record 'e api =
  a_VMs_Get :: "string \<Rightarrow> ('e, Vm) ext_call"
  a_VMs_List :: "string \<Rightarrow> ('e, Vm list) ext_call"
  a_VMs_Create :: "Vm \<Rightarrow> ('e, Vm) ext_call"
  a_VMs_DeleteAsync :: "string \<Rightarrow> ('e, string) ext_call"
  a_VMs_PowerOnVM :: "string \<Rightarrow> ('e, string) ext_call"
  a_Wait :: "string \<Rightarrow> ('e, unit) ext_call"
  a_ListNicsByVmId :: "string \<Rightarrow> ('e, Nic list) ext_call"
  a_Images_Get :: "string \<Rightarrow> ('e, Entity) ext_call"
  a_Images_List :: "string \<Rightarrow> ('e, Entity list) ext_call"
  a_Clusters_Get :: "string \<Rightarrow> ('e, Cluster) ext_call"
  a_Clusters_List :: "string option \<Rightarrow> ('e, Cluster list) ext_call"
  a_ListClusterPhysicalGPUs :: "string \<Rightarrow> ('e, GpuProfile list) ext_call"
  a_Subnets_Get :: "string \<Rightarrow> ('e, Entity) ext_call"
  a_Subnets_List :: "string \<Rightarrow> ('e, Entity list) ext_call"
  a_Categories_List :: "string \<Rightarrow> ('e, Entity list) ext_call"
  a_ListProject :: "string \<Rightarrow> ('e, Project list) ext_call"
  a_GetProject :: "string \<Rightarrow> ('e, Project) ext_call"
  a_NewClient :: "Credentials \<Rightarrow> ('e, unit) ext_call"
  a_NewV3Client :: "Credentials \<Rightarrow> ('e, unit) ext_call"
  a_Get_Infrastructure :: "string \<Rightarrow> ('e, Infrastructure) ext_call"
  a_Get_Secret :: "string \<Rightarrow> string \<Rightarrow> ('e, Secret) ext_call"
  a_Get_Node :: "string \<Rightarrow> ('e, Node) ext_call"
  a_Update_Node :: "Node \<Rightarrow> ('e, unit) ext_call"
  a_Patch_Machine :: "Machine \<Rightarrow> Machine \<Rightarrow> ('e, Machine) ext_call"
  a_Patch_MachineStatus :: "Machine \<Rightarrow> Machine \<Rightarrow> ('e, Machine) ext_call"
  a_Get_MachineSet :: "string \<Rightarrow> string \<Rightarrow> ('e, MachineSet) ext_call"
  a_Patch_MachineSet :: "MachineSet \<Rightarrow> MachineSet \<Rightarrow> ('e, MachineSet) ext_call"
  a_LookupEnv :: "string \<Rightarrow> 'e \<Rightarrow> string option"
  a_Now :: "'e \<Rightarrow> nat \<times> 'e"
  a_Unmarshal_Spec :: "bytes \<Rightarrow> go_error + NutanixMachineProviderConfig option"
  a_Marshal_Spec :: "NutanixMachineProviderConfig \<Rightarrow> go_error + bytes"
  a_Unmarshal_Status :: "bytes \<Rightarrow> go_error + NutanixMachineProviderStatus"
  a_Marshal_Status :: "NutanixMachineProviderStatus \<Rightarrow> go_error + bytes"
  a_Unmarshal_Credentials :: "bytes \<Rightarrow> go_error + Credential list"
  a_Unmarshal_BasicAuth :: "bytes \<Rightarrow> go_error + BasicAuthCredential"
  a_Unmarshal_Ignition :: "bytes \<Rightarrow> go_error + IgnConfig"
  a_Marshal_Ignition :: "IgnConfig \<Rightarrow> go_error + bytes"
  a_dataurl_EncodeBytes :: "bytes \<Rightarrow> string"

section \<open>The world\<close>

datatype call =
    C_VMs_Get string | C_VMs_List string | C_VMs_Create Vm | C_VMs_DeleteAsync string
  | C_VMs_PowerOnVM string | C_Wait string | C_ListNicsByVmId string
  | C_Images_Get string | C_Images_List string
  | C_Clusters_Get string | C_Clusters_List "string option" | C_ListClusterPhysicalGPUs string
  | C_Subnets_Get string | C_Subnets_List string | C_Categories_List string
  | C_ListProject string | C_GetProject string
  | C_NewClient Credentials | C_NewV3Client Credentials
  | C_Get_Infrastructure string | C_Get_Secret string string | C_Get_Node string
  | C_Update_Node Node | C_Patch_Machine Machine | C_Patch_MachineStatus Machine
  | C_Get_MachineSet string string | C_Patch_MachineSet MachineSet

text \<open>The calls that change something outside.\<close>

fun is_mutation :: "call \<Rightarrow> bool" where
  "is_mutation (C_VMs_Create v) = True"
| "is_mutation (C_VMs_DeleteAsync u) = True"
| "is_mutation (C_VMs_PowerOnVM u) = True"
| "is_mutation (C_Update_Node n) = True"
| "is_mutation (C_Patch_Machine m) = True"
| "is_mutation (C_Patch_MachineStatus m) = True"
| "is_mutation (C_Patch_MachineSet m) = True"
| "is_mutation _ = False"

abbreviation is_read :: "call \<Rightarrow> bool" where
  "is_read c \<equiv> \<not> is_mutation c"

fun is_create :: "call \<Rightarrow> bool" where
  "is_create (C_VMs_Create v) = True"
| "is_create _ = False"

fun is_power_on :: "call \<Rightarrow> bool" where
  "is_power_on (C_VMs_PowerOnVM u) = True"
| "is_power_on _ = False"

fun is_delete :: "call \<Rightarrow> bool" where
  "is_delete (C_VMs_DeleteAsync u) = True"
| "is_delete _ = False"

lemma read_not_special [simp]:
  "is_read c \<Longrightarrow> \<not> is_create c" "is_read c \<Longrightarrow> \<not> is_delete c" "is_read c \<Longrightarrow> \<not> is_power_on c"
  by (cases c; simp)+

datatype event_type = EventTypeNormal | EventTypeWarning

record event =
  ev_Type :: event_type
  ev_Reason :: string
  ev_Message :: string

datatype metric = FailedInstanceUpdate string string string | FailedInstanceDelete string string string

record 'e world =
  w_ext :: 'e
  w_calls :: "call list"
  w_events :: "event list"
  w_metrics :: "metric list"

text \<open>An external call: the answer, the new outside state, one more entry in the log.\<close>

definition call_api :: "call \<Rightarrow> ('e, 'a) ext_call \<Rightarrow> (('e, 'z) world_scheme, go_error, 'a) op" where
  "call_api c f = (\<lambda>s. case f (w_ext s) of
      (r, e) \<Rightarrow> (case r of Inl err \<Rightarrow> Err err | Inr x \<Rightarrow> Ok x,
                 s\<lparr>w_ext := e, w_calls := w_calls s @ [c]\<rparr>))"

definition record_event :: "event \<Rightarrow> (('e, 'z) world_scheme, go_error, unit) op" where
  "record_event ev = modify (\<lambda>s. s\<lparr>w_events := w_events s @ [ev]\<rparr>)"

definition record_metric :: "metric \<Rightarrow> (('e, 'z) world_scheme, go_error, unit) op" where
  "record_metric m = modify (\<lambda>s. s\<lparr>w_metrics := w_metrics s @ [m]\<rparr>)"

text \<open>\<^verbatim>\<open>metav1.Now()\<close>.\<close>

definition metav1_Now :: "'e api \<Rightarrow> (('e, 'z) world_scheme, go_error, nat) op" where
  "metav1_Now A = (\<lambda>s. case a_Now A (w_ext s) of (t, e) \<Rightarrow> (Ok t, s\<lparr>w_ext := e\<rparr>))"

text \<open>A codec call: pure, its result a Go pair.\<close>

definition lift_sum :: "'x + 'a \<Rightarrow> ('s, 'x, 'a) op" where
  [op_defs]: "lift_sum r = (case r of Inl e \<Rightarrow> raise e | Inr x \<Rightarrow> ret x)"

section \<open>The call log as a frame\<close>

text \<open>
  \<open>call_rel P s s'\<close>: from \<open>s\<close> to \<open>s'\<close> only calls satisfying \<open>P\<close> were made, no event or metric
  was recorded, and whatever extends the world record is untouched.
\<close>

definition call_rel :: "(call \<Rightarrow> bool) \<Rightarrow> ('e, 'z) world_scheme \<Rightarrow> ('e, 'z) world_scheme \<Rightarrow> bool" where
  "call_rel P s s' \<longleftrightarrow>
     (\<exists>cs. w_calls s' = w_calls s @ cs \<and> list_all P cs) \<and>
     w_events s' = w_events s \<and> w_metrics s' = w_metrics s \<and> world.more s' = world.more s"

definition new_calls :: "('e, 'z) world_scheme \<Rightarrow> ('e, 'y) world_scheme \<Rightarrow> call list" where
  "new_calls s s' = drop (length (w_calls s)) (w_calls s')"

lemma new_calls_append [simp]: "w_calls s' = w_calls s @ cs \<Longrightarrow> new_calls s s' = cs"
  by (simp add: new_calls_def)

lemma call_rel_new_calls: "call_rel P s s' \<Longrightarrow> list_all P (new_calls s s')"
  by (auto simp: call_rel_def)

lemma call_rel_more: "call_rel P s s' \<Longrightarrow> world.more s' = world.more s"
  by (simp add: call_rel_def)

lemma call_rel_mono: "call_rel P s s' \<Longrightarrow> (\<And>c. P c \<Longrightarrow> Q c) \<Longrightarrow> call_rel Q s s'"
  by (auto simp: call_rel_def list_all_iff)

lemma call_rel_split:
  assumes "call_rel P s s'"
  shows "w_calls s' = w_calls s @ new_calls s s'"
  using assms by (auto simp: call_rel_def)

interpretation call_frame: op_frame "call_rel P" for P
proof
  show "call_rel P s s" for s :: "('a, 'b) world_scheme" by (auto simp: call_rel_def)
next
  fix s t u :: "('a, 'b) world_scheme"
  assume "call_rel P s t" and "call_rel P t u"
  then show "call_rel P s u" by (auto simp: call_rel_def)
qed

lemma call_api_rel [frame_rules]: "P c \<Longrightarrow> keeps (call_rel P) (call_api c f)"
  by (rule keepsI) (auto simp: call_api_def call_rel_def split: prod.splits)

lemma metav1_Now_rel [frame_rules]: "keeps (call_rel P) (metav1_Now A)"
  by (rule keepsI) (auto simp: metav1_Now_def call_rel_def split: prod.splits)

lemma lift_sum_rel [frame_rules]: "keeps (call_rel P) (lift_sum r)"
  by (cases r) (simp_all add: lift_sum_def call_frame.frame_raise call_frame.frame_ret)

lemma call_api_cases:
  assumes "call_api c f s = (r, s')"
  obtains (ok) x where "r = Ok x" and "f (w_ext s) = (Inr x, w_ext s')" and "w_calls s' = w_calls s @ [c]"
    | (err) e where "r = Err e" and "f (w_ext s) = (Inl e, w_ext s')" and "w_calls s' = w_calls s @ [c]"
  using assms by (auto simp: call_api_def split: prod.splits sum.splits)

text \<open>
  The log alone: only calls satisfying \<open>P\<close> were made, whatever else changed.  This is the frame of
  the operations that also write the scope or record events.
\<close>

definition log_rel :: "(call \<Rightarrow> bool) \<Rightarrow> ('e, 'z) world_scheme \<Rightarrow> ('e, 'z) world_scheme \<Rightarrow> bool" where
  "log_rel P s s' \<longleftrightarrow> (\<exists>cs. w_calls s' = w_calls s @ cs \<and> list_all P cs)"

interpretation log_frame: op_frame "log_rel P" for P
proof
  show "log_rel P s s" for s :: "('a, 'b) world_scheme" by (auto simp: log_rel_def)
next
  fix s t u :: "('a, 'b) world_scheme"
  assume "log_rel P s t" and "log_rel P t u"
  then show "log_rel P s u" by (auto simp: log_rel_def)
qed

lemma call_rel_log: "call_rel P s s' \<Longrightarrow> log_rel P s s'"
  by (simp add: call_rel_def log_rel_def)

lemma log_rel_mono: "log_rel P s s' \<Longrightarrow> (\<And>c. P c \<Longrightarrow> Q c) \<Longrightarrow> log_rel Q s s'"
  by (auto simp: log_rel_def list_all_iff)

lemma log_rel_new_calls: "log_rel P s s' \<Longrightarrow> list_all P (new_calls s s')"
  by (auto simp: log_rel_def)

lemma keeps_log: "keeps (call_rel P) m \<Longrightarrow> keeps (log_rel P) m"
  by (erule keeps_mono) (rule call_rel_log)

lemma keeps_log_mono: "keeps (log_rel P) m \<Longrightarrow> (\<And>c. P c \<Longrightarrow> Q c) \<Longrightarrow> keeps (log_rel Q) m"
  by (erule keeps_mono) (erule log_rel_mono)

lemma call_api_log [frame_rules]: "P c \<Longrightarrow> keeps (log_rel P) (call_api c f)"
  by (rule keeps_log [OF call_api_rel])

lemma lift_sum_log [frame_rules]: "keeps (log_rel P) (lift_sum r)"
  by (rule keeps_log [OF lift_sum_rel])

lemma modify_log [frame_rules]: "(\<And>s. w_calls (f s) = w_calls s) \<Longrightarrow> keeps (log_rel P) (modify f)"
  by (simp add: keeps_def modify_def log_rel_def)

lemma record_log [frame_rules]: "keeps (log_rel P) (record_event ev)" "keeps (log_rel P) (record_metric m)"
  by (auto simp: record_event_def record_metric_def intro!: modify_log)

lemma world_extend_simps [simp]:
  "w_ext (world.extend w x) = w_ext w" "w_calls (world.extend w x) = w_calls w"
  "w_events (world.extend w x) = w_events w" "w_metrics (world.extend w x) = w_metrics w"
  "world.more (world.extend w x) = x"
  by (simp_all add: world.extend_def)

lemma world_truncate_simps [simp]:
  "w_ext (world.truncate s) = w_ext s" "w_calls (world.truncate s) = w_calls s"
  "w_events (world.truncate s) = w_events s" "w_metrics (world.truncate s) = w_metrics s"
  by (simp_all add: world.truncate_def)

lemma world_truncate_extend: "world.extend (world.truncate s) (world.more s) = s"
  by (cases s) (simp add: world.extend_def world.truncate_def)

end
