(* ===== verification/Go_Net.thy ===== *)
theory Go_Net
  imports Go_Std
begin

text \<open>
  The part of Go's \<^verbatim>\<open>net\<close> package the address extraction depends on: \<^verbatim>\<open>net.ParseIP\<close> with
  both address families (as \<^verbatim>\<open>net/netip\<close> parses them), \<^verbatim>\<open>IPNet.Contains\<close>, and
  \<^verbatim>\<open>net.JoinHostPort\<close>.  An address is its sixteen bytes; an IPv4 address is held in the
  IPv4-mapped form.
\<close>

section \<open>Parsing\<close>

text \<open>\<^verbatim>\<open>parseIPv4Fields\<close>: the characters left, the current octet, its digit count, the octets read.\<close>

fun v4_fields :: "string \<Rightarrow> nat \<Rightarrow> nat \<Rightarrow> nat list \<Rightarrow> nat list option" where
  "v4_fields [] v digLen fs = (if length fs < 3 then None else Some (fs @ [v]))"
| "v4_fields (c # s) v digLen fs =
     (if is_digit c then
        (if digLen = 1 \<and> v = 0 then None
         else let v' = v * 10 + (code c - 48) in
              if v' > 255 then None else v4_fields s v' (digLen + 1) fs)
      else if c = CHR ''.'' then
        (if digLen = 0 \<or> s = [] then None
         else if length fs = 3 then None
         else v4_fields s 0 0 (fs @ [v]))
      else None)"

definition parseIPv4Fields :: "string \<Rightarrow> nat list option" where
  "parseIPv4Fields s = v4_fields s 0 0 []"

definition v4_mapped :: "nat list \<Rightarrow> nat list" where
  "v4_mapped b = replicate 10 0 @ [255, 255] @ b"

definition hex_val :: "char \<Rightarrow> nat option" where
  "hex_val c =
     (if 48 \<le> code c \<and> code c \<le> 57 then Some (code c - 48)
      else if 97 \<le> code c \<and> code c \<le> 102 then Some (code c - 87)
      else if 65 \<le> code c \<and> code c \<le> 70 then Some (code c - 55) else None)"

definition hex_number :: "string \<Rightarrow> nat" where
  "hex_number s = foldl (\<lambda>n c. 16 * n + (case hex_val c of None \<Rightarrow> 0 | Some d \<Rightarrow> d)) 0 s"

lemma dropWhile_Cons_length: "x # xs = dropWhile P s \<Longrightarrow> length xs < length s"
  by (metis length_dropWhile_le length_Cons less_eq_Suc_le)

text \<open>
  The main loop of \<^verbatim>\<open>parseIPv6\<close>: the bytes read so far (their count is the loop's \<^verbatim>\<open>i\<close>), the
  position of the ellipsis, the characters left.
\<close>

function v6_loop :: "nat list \<Rightarrow> nat option \<Rightarrow> string \<Rightarrow> (nat list \<times> nat option \<times> string) option" where
  "v6_loop ip ell s =
     (if 16 \<le> length ip then Some (ip, ell, s)
      else
        let hs = takeWhile (\<lambda>c. hex_val c \<noteq> None) s;
            rest = dropWhile (\<lambda>c. hex_val c \<noteq> None) s;
            ip' = ip @ [hex_number hs div 256, hex_number hs mod 256]
        in if length hs > 4 then None
           else if hs = [] then None
           else case rest of
             [] \<Rightarrow> Some (ip', ell, [])
           | c # r \<Rightarrow>
               if c = CHR ''.'' then
                 (if ell = None \<and> length ip \<noteq> 12 then None
                  else if length ip + 4 > 16 then None
                  else (case parseIPv4Fields s of
                      None \<Rightarrow> None
                    | Some f \<Rightarrow> Some (ip @ f, ell, [])))
               else if c \<noteq> CHR '':'' then None
               else (case r of
                   [] \<Rightarrow> None
                 | d # r' \<Rightarrow>
                     if d = CHR '':'' then
                       (if ell \<noteq> None then None
                        else if r' = [] then Some (ip', Some (length ip'), [])
                        else v6_loop ip' (Some (length ip')) r')
                     else v6_loop ip' ell r))"
  by pat_completeness auto

termination
  by (relation "measure (\<lambda>(ip, ell, s). length s)")
    (auto dest: dropWhile_Cons_length)

declare v6_loop.simps [simp del]

definition expand_ellipsis :: "nat list \<Rightarrow> nat \<Rightarrow> nat list" where
  "expand_ellipsis ip e = take e ip @ replicate (16 - length ip) 0 @ drop e ip"

definition v6_finish :: "(nat list \<times> nat option \<times> string) option \<Rightarrow> nat list option" where
  "v6_finish r = (case r of
       None \<Rightarrow> None
     | Some (ip, ell, s) \<Rightarrow>
         if s \<noteq> [] then None
         else if length ip < 16 then
           (case ell of None \<Rightarrow> None | Some e \<Rightarrow> Some (expand_ellipsis ip e))
         else (case ell of None \<Rightarrow> Some ip | Some e \<Rightarrow> None))"

text \<open>\<^verbatim>\<open>parseIPv6\<close> without a zone (\<^verbatim>\<open>net.ParseIP\<close> refuses zones).\<close>

definition parseIPv6 :: "string \<Rightarrow> nat list option" where
  "parseIPv6 s =
     (case s of
        c # d # r \<Rightarrow>
          if c = CHR '':'' \<and> d = CHR '':'' then
            (if r = [] then Some (replicate 16 0) else v6_finish (v6_loop [] (Some 0) r))
          else v6_finish (v6_loop [] None s)
      | _ \<Rightarrow> v6_finish (v6_loop [] None s))"

fun addr_family :: "string \<Rightarrow> char option" where
  "addr_family [] = None"
| "addr_family (c # s) =
     (if c = CHR ''.'' \<or> c = CHR '':'' \<or> c = CHR ''%'' then Some c else addr_family s)"

definition net_ParseIP :: "string \<Rightarrow> nat list option" where
  "net_ParseIP s =
     (if CHR ''%'' \<in> set s then None
      else case addr_family s of
        None \<Rightarrow> None
      | Some c \<Rightarrow>
          if c = CHR ''.'' then map_option v4_mapped (parseIPv4Fields s) else parseIPv6 s)"

section \<open>Networks\<close>

text \<open>\<^verbatim>\<open>IP.To4\<close>: the last four bytes of an IPv4-mapped address.\<close>

definition ip_To4 :: "nat list \<Rightarrow> nat list option" where
  "ip_To4 ip = (if length ip = 16 \<and> take 12 ip = replicate 10 0 @ [255, 255] then Some (drop 12 ip) else None)"

text \<open>\<^verbatim>\<open>IPNet.Contains\<close> for an IPv4 network given by its number and mask bytes.\<close>

definition ipnet4_Contains :: "nat list \<Rightarrow> nat list \<Rightarrow> nat list \<Rightarrow> bool" where
  "ipnet4_Contains nn m ip = (case ip_To4 ip of
       None \<Rightarrow> False
     | Some x \<Rightarrow> list_all (\<lambda>((a, k), b). and a k = and b k) (zip (zip nn m) x))"

text \<open>\<^verbatim>\<open>net.JoinHostPort\<close>.\<close>

definition net_JoinHostPort :: "string \<Rightarrow> string \<Rightarrow> string" where
  "net_JoinHostPort host port =
     (if CHR '':'' \<in> set host \<or> CHR ''%'' \<in> set host
      then ''['' @ host @ '']:'' @ port else host @ '':'' @ port)"

section \<open>Dotted quads\<close>

definition dotted :: "nat \<Rightarrow> nat \<Rightarrow> nat \<Rightarrow> nat \<Rightarrow> string" where
  "dotted a b c d =
     nat_digits a @ ''.'' @ nat_digits b @ ''.'' @ nat_digits c @ ''.'' @ nat_digits d"

lemma nat_digits_1: "n < 10 \<Longrightarrow> nat_digits n = [digit_char n]"
  by (subst nat_digits.simps) simp

lemma nat_digits_2: "10 \<le> n \<Longrightarrow> n < 100 \<Longrightarrow> nat_digits n = [digit_char (n div 10), digit_char (n mod 10)]"
  by (subst nat_digits.simps) (simp add: nat_digits_1 less_mult_imp_div_less)

lemma nat_digits_3:
  "100 \<le> n \<Longrightarrow> n < 1000 \<Longrightarrow>
     nat_digits n = [digit_char (n div 100), digit_char (n div 10 mod 10), digit_char (n mod 10)]"
  by (subst nat_digits.simps)
    (simp add: nat_digits_2 less_mult_imp_div_less div_le_mono [of 100 n 10, simplified] div_mult2_eq [symmetric])

lemma is_digit_digit_char [simp]: "d < 10 \<Longrightarrow> is_digit (digit_char d)"
  by (simp add: is_digit_def)

lemma v4_fields_octet:
  assumes "n < 256"
  shows "\<exists>k > 0. v4_fields (nat_digits n @ r) 0 0 fs = v4_fields r n k fs"
proof -
  consider "n < 10" | "10 \<le> n" "n < 100" | "100 \<le> n" by linarith
  then show ?thesis
  proof cases
    case 1
    then show ?thesis by (intro exI [of _ 1]) (simp add: nat_digits_1)
  next
    case 2
    then have "n div 10 \<noteq> 0" "n div 10 < 10" by (auto simp: less_mult_imp_div_less)
    with 2 show ?thesis
      by (intro exI [of _ "Suc (Suc 0)"]) (simp add: nat_digits_2 Let_def)
  next
    case 3
    with assms have d: "n div 100 \<noteq> 0" "n div 100 < 10" by auto
    have e: "n div 100 * 10 + n div 10 mod 10 = n div 10"
      using div_mult2_eq [of n 10 10] div_mult_mod_eq [of "n div 10" 10] by simp
    have "n div 10 \<noteq> 0" "n div 10 \<le> 255" using 3 assms by auto
    with d e 3 assms show ?thesis
      by (intro exI [of _ "Suc (Suc (Suc 0))"]) (simp add: nat_digits_3 Let_def)
  qed
qed

lemma v4_fields_octet_dot:
  assumes "n < 256" "r \<noteq> []" "length fs \<noteq> 3"
  shows "v4_fields (nat_digits n @ CHR ''.'' # r) 0 0 fs = v4_fields r 0 0 (fs @ [n])"
proof -
  obtain k where "k > 0" "v4_fields (nat_digits n @ CHR ''.'' # r) 0 0 fs = v4_fields (CHR ''.'' # r) n k fs"
    using v4_fields_octet [OF assms(1)] by blast
  with assms(2,3) show ?thesis by (simp add: is_digit_def)
qed

lemma parseIPv4Fields_dotted:
  assumes "a < 256" "b < 256" "c < 256" "d < 256"
  shows "parseIPv4Fields (dotted a b c d) = Some [a, b, c, d]"
proof -
  obtain k where "v4_fields (nat_digits d @ []) 0 0 [a, b, c] = v4_fields [] d k [a, b, c]"
    using v4_fields_octet [OF assms(4)] by blast
  with assms show ?thesis
    by (simp add: parseIPv4Fields_def dotted_def v4_fields_octet_dot)
qed

lemma digits_not_special: "c \<in> set (nat_digits n) \<Longrightarrow> c \<noteq> CHR ''.'' \<and> c \<noteq> CHR '':'' \<and> c \<noteq> CHR ''%''"
  using nat_digits_are_digits [of n] by (auto simp: list_all_iff is_digit_def)

lemma addr_family_digits: "addr_family (nat_digits n @ s) = addr_family s"
proof -
  have "(\<forall>c\<in>set xs. c \<noteq> CHR ''.'' \<and> c \<noteq> CHR '':'' \<and> c \<noteq> CHR ''%'') \<Longrightarrow> addr_family (xs @ s) = addr_family s" for xs
    by (induction xs) auto
  then show ?thesis using digits_not_special by blast
qed

lemma net_ParseIP_dotted:
  assumes "a < 256" "b < 256" "c < 256" "d < 256"
  shows "net_ParseIP (dotted a b c d) = Some (v4_mapped [a, b, c, d])"
proof -
  have "CHR ''%'' \<notin> set (dotted a b c d)"
    using digits_not_special by (auto simp: dotted_def)
  moreover have "addr_family (dotted a b c d) = Some (CHR ''.'')"
    by (simp add: dotted_def addr_family_digits)
  ultimately show ?thesis
    using assms by (simp add: net_ParseIP_def parseIPv4Fields_dotted)
qed

lemma ip_To4_mapped [simp]: "length b = 4 \<Longrightarrow> ip_To4 (v4_mapped b) = Some b"
  by (simp add: ip_To4_def v4_mapped_def)

end
