(* ===== verification/PC_Client.thy ===== *)
theory PC_Client
  imports World Go_Net
begin

text \<open>
  \<^verbatim>\<open>pkg/client/client.go\<close>: the credentials of the Prism Central clients are completed from the
  environment, the URL is built from endpoint and port, and the two client constructors are
  called with them.
\<close>

section \<open>URLs (net/url)\<close>

definition is_alnum :: "char \<Rightarrow> bool" where
  "is_alnum c \<longleftrightarrow> is_digit c \<or> (65 \<le> code c \<and> code c \<le> 90) \<or> (97 \<le> code c \<and> code c \<le> 122)"

text \<open>The characters \<^verbatim>\<open>url.URL\<close> leaves alone in a host.\<close>

definition host_char :: "char \<Rightarrow> bool" where
  "host_char c \<longleftrightarrow> is_alnum c \<or> c \<in> set ''!$&()*+,;=:[]<>-_.~'' \<or> c = sq \<or> c = dq"

definition upper_hex :: "nat \<Rightarrow> char" where
  "upper_hex d = (if d < 10 then char_of (48 + d) else char_of (55 + d))"

definition escape_host :: "string \<Rightarrow> string" where
  "escape_host h = concat (map (\<lambda>c. if host_char c then [c]
      else [CHR ''%'', upper_hex (code c div 16), upper_hex (code c mod 16)]) h)"

definition https_url :: "string \<Rightarrow> string" where
  "https_url host = ''https://'' @ escape_host host"

lemma escape_host_id: "list_all host_char h \<Longrightarrow> escape_host h = h"
  by (induction h) (auto simp: escape_host_def)

section \<open>Client options\<close>

definition NutanixEndpointKey :: string where "NutanixEndpointKey = ''NUTANIX_PRISM_CENTRAL_ENDPOINT''"
definition NutanixPortKey :: string where "NutanixPortKey = ''NUTANIX_PRISM_CENTRAL_PORT''"
definition NutanixUserKey :: string where "NutanixUserKey = ''NUTANIX_PRISM_CENTRAL_USER''"
definition NutanixPasswordKey :: string where "NutanixPasswordKey = ''NUTANIX_PRISM_CENTRAL_PASSWORD''"

record ClientOptions =
  opt_Credentials :: "Credentials option"

definition getEnvVar :: "'e api \<Rightarrow> string \<Rightarrow> 'e \<Rightarrow> string" where
  "getEnvVar A key e = (case a_LookupEnv A key e of Some v \<Rightarrow> v | None \<Rightarrow> [])"

text \<open>\<^verbatim>\<open>resolveCredentials\<close> writes through the options pointer; the model returns the new options.\<close>

definition env_credentials :: "'e api \<Rightarrow> 'e \<Rightarrow> Credentials" where
  "env_credentials A e = empty_credentials\<lparr>cr_Username := getEnvVar A NutanixUserKey e,
     cr_Password := getEnvVar A NutanixPasswordKey e, cr_Port := getEnvVar A NutanixPortKey e,
     cr_Endpoint := getEnvVar A NutanixEndpointKey e\<rparr>"

definition resolveCredentials :: "'e api \<Rightarrow> 'e \<Rightarrow> ClientOptions \<Rightarrow> ClientOptions" where
  "resolveCredentials A e options =
     (let c = (case opt_Credentials options of None \<Rightarrow> env_credentials A e | Some c \<Rightarrow> c);
          c' = (if cr_URL c = [] then c\<lparr>cr_URL := https_url (net_JoinHostPort (cr_Endpoint c) (cr_Port c))\<rparr> else c)
      in options\<lparr>opt_Credentials := Some c'\<rparr>)"

definition resolved :: "ClientOptions \<Rightarrow> Credentials" where
  "resolved options = (case opt_Credentials options of None \<Rightarrow> empty_credentials | Some c \<Rightarrow> c)"

text \<open>
  Both constructors return the options they resolved: the caller's pointer sees that change,
  and a later client is built from the same resolved credentials.
\<close>

definition Client :: "'e api \<Rightarrow> ClientOptions \<Rightarrow> (('e, 'z) world_scheme, go_error, ClientOptions) op" where
  "Client A options =
     bnd (gets (\<lambda>s. resolveCredentials A (w_ext s) options)) (\<lambda>options'.
     bnd (call_api (C_NewClient (resolved options')) (a_NewClient A (resolved options'))) (\<lambda>_.
     ret options'))"

definition V3Client :: "'e api \<Rightarrow> ClientOptions \<Rightarrow> (('e, 'z) world_scheme, go_error, ClientOptions) op" where
  "V3Client A options =
     bnd (gets (\<lambda>s. resolveCredentials A (w_ext s) options)) (\<lambda>options'.
     bnd (call_api (C_NewV3Client (resolved options')) (a_NewV3Client A (resolved options'))) (\<lambda>_.
     ret options'))"

section \<open>Lemmas\<close>

lemma https_url_nonempty [simp]: "https_url h \<noteq> []"
  by (simp add: https_url_def)

lemma resolveCredentials_set:
  "\<exists>c. opt_Credentials (resolveCredentials A e options) = Some c \<and> cr_URL c \<noteq> []"
  by (auto simp: resolveCredentials_def Let_def)

text \<open>A second resolution, against any environment, changes nothing.\<close>

lemma resolveCredentials_idem:
  "resolveCredentials A e' (resolveCredentials A e options) = resolveCredentials A e options"
  by (cases options) (auto simp: resolveCredentials_def Let_def)

lemma resolveCredentials_keeps:
  "opt_Credentials options = Some c \<Longrightarrow>
     cr_Username (resolved (resolveCredentials A e options)) = cr_Username c \<and>
     cr_Password (resolved (resolveCredentials A e options)) = cr_Password c \<and>
     cr_Endpoint (resolved (resolveCredentials A e options)) = cr_Endpoint c \<and>
     cr_Port (resolved (resolveCredentials A e options)) = cr_Port c"
  by (simp add: resolveCredentials_def resolved_def Let_def)

lemma Client_rel [frame_rules]: "(\<And>c. P (C_NewClient c)) \<Longrightarrow> keeps (call_rel P) (Client A options)"
  unfolding Client_def by (intro frame_rules)

lemma V3Client_rel [frame_rules]: "(\<And>c. P (C_NewV3Client c)) \<Longrightarrow> keeps (call_rel P) (V3Client A options)"
  unfolding V3Client_def by (intro frame_rules)

end
