(* ===== verification/Utils.thy ===== *)
theory Utils
  imports World PC_Client
begin

text \<open>
  \<^verbatim>\<open>pkg/actuators/machine/utils.go\<close>: the raw extensions that hold the provider spec and status,
  the GPU matching, the classification of not-found errors, the credentials of the secret,
  the provider conditions, and small helpers.
\<close>

section \<open>Raw extensions\<close>

definition upstreamMachineClusterIDLabel :: string where
  "upstreamMachineClusterIDLabel = ''sigs.k8s.io/cluster-api-cluster''"

definition globalInfrastuctureName :: string where
  "globalInfrastuctureName = ''cluster''"

text \<open>A nil spec or status marshals to an empty raw extension.\<close>

definition RawExtensionFromNutanixMachineProviderSpec ::
  "'e api \<Rightarrow> NutanixMachineProviderConfig option \<Rightarrow> (go_error, bytes) outcome" where
  "RawExtensionFromNutanixMachineProviderSpec A spec = (case spec of
       None \<Rightarrow> Ok []
     | Some s \<Rightarrow> (case a_Marshal_Spec A s of
           Inl e \<Rightarrow> Err (fmt_Errorf_w ''error marshalling providerSpec: '' e)
         | Inr raw \<Rightarrow> Ok raw))"

definition RawExtensionFromNutanixMachineProviderStatus ::
  "'e api \<Rightarrow> NutanixMachineProviderStatus option \<Rightarrow> (go_error, bytes) outcome" where
  "RawExtensionFromNutanixMachineProviderStatus A status = (case status of
       None \<Rightarrow> Ok []
     | Some s \<Rightarrow> (case a_Marshal_Status A s of
           Inl e \<Rightarrow> Err (fmt_Errorf_w ''error marshalling providerStatus: '' e)
         | Inr raw \<Rightarrow> Ok raw))"

text \<open>
  The decoded spec is dereferenced for the log line after the call, so a spec that decodes to
  a nil pointer (the JSON text \<^verbatim>\<open>null\<close>) panics.
\<close>

definition NutanixMachineProviderSpecFromRawExtension ::
  "'e api \<Rightarrow> bytes option \<Rightarrow> (go_error, NutanixMachineProviderConfig) outcome" where
  "NutanixMachineProviderSpecFromRawExtension A rawExtension = (case rawExtension of
       None \<Rightarrow> Ok empty_spec
     | Some raw \<Rightarrow> (case a_Unmarshal_Spec A raw of
           Inl e \<Rightarrow> Err (fmt_Errorf_w ''error unmarshalling providerSpec: '' e)
         | Inr None \<Rightarrow> Panic
         | Inr (Some spec) \<Rightarrow> Ok spec))"

definition NutanixMachineProviderStatusFromRawExtension ::
  "'e api \<Rightarrow> bytes option \<Rightarrow> (go_error, NutanixMachineProviderStatus) outcome" where
  "NutanixMachineProviderStatusFromRawExtension A rawExtension = (case rawExtension of
       None \<Rightarrow> Ok empty_status
     | Some raw \<Rightarrow> (case a_Unmarshal_Status A raw of
           Inl e \<Rightarrow> Err (fmt_Errorf_w ''error unmarshalling providerStatus: '' e)
         | Inr st \<Rightarrow> Ok st))"

section \<open>GPUs\<close>

definition NutanixCategoryKeyPrefix :: string where "NutanixCategoryKeyPrefix = ''kubernetes-io-cluster-''"
definition NutanixCategoryValue :: string where "NutanixCategoryValue = ''owned''"

record gpuDeviceInfo =
  gd_Name :: string
  gd_DeviceID :: "int32 option"

text \<open>One profile: skipped without a configuration; the 64-bit device id is cut to 32 bits.\<close>

definition gpu_info :: "PhysicalGpuConfig \<Rightarrow> gpuDeviceInfo" where
  "gpu_info cfg = \<lparr>gd_Name = ptr_Deref (pg_DeviceName cfg) [],
     gd_DeviceID = map_option int32_of_int64 (pg_DeviceId cfg)\<rparr>"

fun gpu_infos :: "GpuProfile list \<Rightarrow> gpuDeviceInfo list" where
  "gpu_infos [] = []"
| "gpu_infos (p # ps) = (case gp_PhysicalGpuConfig p of
       None \<Rightarrow> gpu_infos ps
     | Some cfg \<Rightarrow> gpu_info cfg # gpu_infos ps)"

definition getGPUsForPEConverged ::
  "'e api \<Rightarrow> string \<Rightarrow> (('e, 'z) world_scheme, go_error, gpuDeviceInfo list) op" where
  "getGPUsForPEConverged A peUUID =
     bnd (call_api (C_ListClusterPhysicalGPUs peUUID) (a_ListClusterPhysicalGPUs A peUUID))
       (\<lambda>profiles. ret (gpu_infos profiles))"

definition gpu_matches :: "NutanixGPU \<Rightarrow> gpuDeviceInfo \<Rightarrow> bool" where
  "gpu_matches gpu d \<longleftrightarrow>
     (gpu_Type gpu = NutanixGPUIdentifierDeviceID \<and> gpu_DeviceID gpu \<noteq> None \<and> gd_DeviceID d \<noteq> None \<and>
        gpu_DeviceID gpu = gd_DeviceID d) \<or>
     (gpu_Type gpu = NutanixGPUIdentifierName \<and> gpu_Name gpu \<noteq> None \<and> gpu_Name gpu = Some (gd_Name d))"

fun getGPUFromListConverged :: "NutanixGPU \<Rightarrow> gpuDeviceInfo list \<Rightarrow> (go_error, gpuDeviceInfo) outcome" where
  "getGPUFromListConverged gpu [] = Err (NewError ''no available GPU found that matches required GPU inputs'')"
| "getGPUFromListConverged gpu (d # ds) =
     (if gpu_matches gpu d then Ok d else getGPUFromListConverged gpu ds)"

section \<open>Not-found errors\<close>

definition isNotFoundError :: "go_error option \<Rightarrow> bool" where
  "isNotFoundError err = (case err of
       None \<Rightarrow> False
     | Some e \<Rightarrow>
         let msg = strings_ToLower (err_Error e)
         in strings_Contains msg ''not_found'' \<or> strings_Contains msg ''not found'')"

section \<open>Credentials\<close>

definition BasicAuthCredentialType :: string where "BasicAuthCredentialType = ''basic_auth''"

text \<open>
  \<^verbatim>\<open>setClientCredentials\<close>: every branch of the loop body returns, so only the first entry is
  looked at.  An entry without data dereferences a nil raw extension.
\<close>

definition setClientCredentials ::
  "'e api \<Rightarrow> bytes \<Rightarrow> Credentials \<Rightarrow> (go_error, Credentials) outcome" where
  "setClientCredentials A credsData creds = (case a_Unmarshal_Credentials A credsData of
       Inl e \<Rightarrow> Err (fmt_Errorf_w ''Failed to unmarshal the credentials data. '' e)
     | Inr [] \<Rightarrow> Err (NewError ''The PrismCentral credentials data is not availaible.'')
     | Inr (cred # _) \<Rightarrow>
         if cred_Type cred = BasicAuthCredentialType then
           (case cred_Data cred of
              None \<Rightarrow> Panic
            | Some raw \<Rightarrow> (case a_Unmarshal_BasicAuth A raw of
                Inl e \<Rightarrow> Err (fmt_Errorf_w ''Failed to unmarshal the basic-auth data. '' e)
              | Inr ba \<Rightarrow>
                  if ba_Username ba = [] \<or> ba_Password ba = []
                  then Err (NewError ''The PrismCentral credentials data is not set.'')
                  else Ok (creds\<lparr>cr_Username := ba_Username ba, cr_Password := ba_Password ba\<rparr>)))
         else Err (NewError (''Unsupported credentials type: '' @ cred_Type cred)))"

section \<open>Provider conditions\<close>

definition machineCreation :: string where "machineCreation = ''MachineCreation''"
definition machineUpdate :: string where "machineUpdate = ''MachineUpdate''"
definition machineDeletion :: string where "machineDeletion = ''MachineDeletion''"
definition machineInstanceReady :: string where "machineInstanceReady = ''MachineInstanceReady''"

definition machineCreationSucceeded :: string where "machineCreationSucceeded = ''MachineCreationSucceeded''"
definition machineCreationFailed :: string where "machineCreationFailed = ''MachineCreationFailed''"
definition machineUpdateSucceeded :: string where "machineUpdateSucceeded = ''MachineUpdateSucceeded''"
definition machineUpdateFailed :: string where "machineUpdateFailed = ''MachineUpdateFailed''"
definition machineDeletionSucceeded :: string where "machineDeletionSucceeded = ''MachineDeletionSucceeded''"
definition machineDeletionFailed :: string where "machineDeletionFailed = ''MachineDeletionFailed''"
definition machineInstanceIsReady :: string where "machineInstanceIsReady = ''Machine instance is ready''"
definition machineInstanceNotReady :: string where "machineInstanceNotReady = ''Machine instance is not ready''"
definition machineInstanceReadyUnknown :: string where
  "machineInstanceReadyUnknown = ''Unknown machine instance ready or not''"

text \<open>\<^verbatim>\<open>findProviderCondition\<close> returns a pointer into the slice: the index of the first match.\<close>

fun findProviderCondition :: "Condition list \<Rightarrow> string \<Rightarrow> nat option" where
  "findProviderCondition [] conditionType = None"
| "findProviderCondition (c # cs) conditionType =
     (if co_Type c = conditionType then Some 0 else map_option Suc (findProviderCondition cs conditionType))"

definition shouldUpdateCondition :: "Condition \<Rightarrow> Condition \<Rightarrow> bool" where
  "shouldUpdateCondition new existing \<longleftrightarrow>
     co_Status new \<noteq> co_Status existing \<or> co_Reason new \<noteq> co_Reason existing \<or>
     co_Message new \<noteq> co_Message existing"

text \<open>\<^verbatim>\<open>updateExistingCondition\<close> writes through its second pointer: the model returns the new value.\<close>

definition updateExistingCondition ::
  "'e api \<Rightarrow> Condition \<Rightarrow> Condition \<Rightarrow> (('e, 'z) world_scheme, go_error, Condition) op" where
  "updateExistingCondition A new existing =
     (if \<not> shouldUpdateCondition new existing then ret existing
      else bnd (if co_Status existing \<noteq> co_Status new
                then bnd (metav1_Now A) (\<lambda>t. ret (existing\<lparr>co_LastTransitionTime := Some t\<rparr>))
                else ret existing)
        (\<lambda>c. ret (c\<lparr>co_Status := co_Status new, co_Reason := co_Reason new, co_Message := co_Message new\<rparr>)))"

text \<open>
  The loop of \<^verbatim>\<open>setNutanixProviderConditions\<close>, with the local variable \<^verbatim>\<open>currConditions\<close> it
  builds.  The loop variable is a copy, so the input slice is not written.
\<close>

fun providerConditions_loop ::
  "'e api \<Rightarrow> Condition list \<Rightarrow> Condition list \<Rightarrow> (('e, 'z) world_scheme, go_error, Condition list) op" where
  "providerConditions_loop A [] cur = ret cur"
| "providerConditions_loop A (cond # conds) cur =
     (case findProviderCondition cur (co_Type cond) of
        None \<Rightarrow> bnd (metav1_Now A) (\<lambda>t.
                 providerConditions_loop A conds (cur @ [cond\<lparr>co_LastTransitionTime := Some t\<rparr>]))
      | Some i \<Rightarrow> bnd (updateExistingCondition A cond (cur ! i)) (\<lambda>c.
                 providerConditions_loop A conds (cur[i := c])))"

definition setNutanixProviderConditions ::
  "'e api \<Rightarrow> Condition list \<Rightarrow> Condition list \<Rightarrow> (('e, 'z) world_scheme, go_error, Condition list) op" where
  "setNutanixProviderConditions A conditions currConditions =
     bnd (providerConditions_loop A conditions currConditions) (\<lambda>_. ret conditions)"

definition conditionSuccess :: "string \<Rightarrow> Condition" where
  "conditionSuccess condType =
     \<lparr>co_Type = condType, co_Status = ConditionTrue,
      co_Reason = (if condType = machineCreation then machineCreationSucceeded
                   else if condType = machineUpdate then machineUpdateSucceeded
                   else if condType = machineDeletion then machineDeletionSucceeded
                   else condType @ '' succeeded''),
      co_Message = condType @ '' succeeded'', co_LastTransitionTime = None\<rparr>"

definition conditionFailed :: "string \<Rightarrow> string \<Rightarrow> Condition" where
  "conditionFailed condType errMsg =
     \<lparr>co_Type = condType, co_Status = ConditionFalse,
      co_Reason = (if condType = machineCreation then machineCreationFailed
                   else if condType = machineUpdate then machineUpdateFailed
                   else if condType = machineDeletion then machineDeletionFailed
                   else condType @ '' failed''),
      co_Message = errMsg, co_LastTransitionTime = None\<rparr>"

definition conditionInstanceReady :: "ConditionStatus \<Rightarrow> Condition" where
  "conditionInstanceReady status =
     (let reason = (case status of ConditionTrue \<Rightarrow> machineInstanceIsReady
                     | ConditionFalse \<Rightarrow> machineInstanceNotReady
                     | ConditionUnknown \<Rightarrow> machineInstanceReadyUnknown)
      in \<lparr>co_Type = machineInstanceReady, co_Status = status, co_Reason = reason,
          co_Message = reason, co_LastTransitionTime = None\<rparr>)"

section \<open>Small helpers\<close>

definition MachineClusterIDLabel :: string where
  "MachineClusterIDLabel = ''machine.openshift.io/cluster-api-cluster''"

definition validateMachine :: "Machine \<Rightarrow> (go_error, unit) outcome" where
  "validateMachine machine =
     (if map_get (m_Labels machine) MachineClusterIDLabel = []
      then Err (InvalidMachineConfiguration
             (m_Name machine @ '': missing '' @ strconv_Quote MachineClusterIDLabel @ '' label''))
      else Ok ())"

text \<open>The label value and whether one of the two labels is present.\<close>

definition getClusterID :: "Machine \<Rightarrow> string \<times> bool" where
  "getClusterID machine = (case map_lookup (m_Labels machine) MachineClusterIDLabel of
       Some v \<Rightarrow> (v, True)
     | None \<Rightarrow> (case map_lookup (m_Labels machine) upstreamMachineClusterIDLabel of
           Some v \<Rightarrow> (v, True)
         | None \<Rightarrow> ([], False)))"

definition GetMibValueOfQuantity :: "Quantity \<Rightarrow> int" where
  "GetMibValueOfQuantity quantity = go_div (sint quantity) (1024 * 1024)"

text \<open>A failure domain's identifier as a machine's: an unknown type becomes the empty type.\<close>

definition getMachineResourceIdentifierFromFailureDomainConfig ::
  "NutanixResourceIdentifier \<Rightarrow> NutanixResourceIdentifier" where
  "getMachineResourceIdentifierFromFailureDomainConfig nri =
     \<lparr>ri_Type = (if ri_Type nri = config_IdentifierUUID then NutanixIdentifierUUID
                 else if ri_Type nri = config_IdentifierName then NutanixIdentifierName else []),
      ri_UUID = ri_UUID nri, ri_Name = ri_Name nri\<rparr>"

section \<open>Lemmas\<close>

lemmas condition_type_defs = machineCreation_def machineUpdate_def machineDeletion_def machineInstanceReady_def

lemma getGPUsForPEConverged_rel [frame_rules]:
  "P (C_ListClusterPhysicalGPUs peUUID) \<Longrightarrow> keeps (call_rel P) (getGPUsForPEConverged A peUUID)"
  unfolding getGPUsForPEConverged_def by (intro frame_rules)

text \<open>The matching loop is \<open>List.find\<close>, and it never panics.\<close>

lemma getGPUFromListConverged_find:
  "getGPUFromListConverged gpu ds = (case List.find (gpu_matches gpu) ds of
      Some d \<Rightarrow> Ok d
    | None \<Rightarrow> Err (NewError ''no available GPU found that matches required GPU inputs''))"
  by (induction ds) auto

lemma getGPUFromListConverged_split:
  "getGPUFromListConverged gpu ds = Ok d \<longleftrightarrow>
     (\<exists>pre post. ds = pre @ d # post \<and> gpu_matches gpu d \<and> list_all (\<lambda>x. \<not> gpu_matches gpu x) pre)"
proof
  show "getGPUFromListConverged gpu ds = Ok d \<Longrightarrow>
     \<exists>pre post. ds = pre @ d # post \<and> gpu_matches gpu d \<and> list_all (\<lambda>x. \<not> gpu_matches gpu x) pre"
  proof (induction ds)
    case (Cons x ds)
    show ?case
    proof (cases "gpu_matches gpu x")
      case True
      with Cons.prems show ?thesis by (intro exI [of _ "[]"] exI [of _ ds]) simp
    next
      case False
      with Cons obtain pre post where "ds = pre @ d # post" "gpu_matches gpu d" "list_all (\<lambda>x. \<not> gpu_matches gpu x) pre" by auto
      with False show ?thesis by (intro exI [of _ "x # pre"] exI [of _ post]) simp
    qed
  qed simp
next
  have "list_all (\<lambda>x. \<not> gpu_matches gpu x) pre \<Longrightarrow> gpu_matches gpu d \<Longrightarrow>
    getGPUFromListConverged gpu (pre @ d # post) = Ok d" for pre post
    by (induction pre) auto
  then show "\<exists>pre post. ds = pre @ d # post \<and> gpu_matches gpu d \<and> list_all (\<lambda>x. \<not> gpu_matches gpu x) pre \<Longrightarrow>
    getGPUFromListConverged gpu ds = Ok d" by blast
qed

lemma getGPUFromListConverged_no_panic [simp]: "getGPUFromListConverged gpu ds \<noteq> Panic"
  by (simp add: getGPUFromListConverged_find split: option.splits)

lemma isNotFoundError_lower:
  "strings_ToLower m = p @ ''not found'' @ q \<Longrightarrow> isNotFoundError (Some (NewError m))"
  using strings_Contains_mid [of p "''not found''" q] by (simp add: isNotFoundError_def Let_def)

text \<open>Wrapping with text before the error keeps a not-found error a not-found error.\<close>

lemma isNotFoundError_wrap:
  "isNotFoundError (Some e) \<Longrightarrow> isNotFoundError (Some (fmt_Errorf_w pre e))"
  using strings_Contains_append [of "strings_ToLower (err_Error e)" _ "strings_ToLower pre" "[]"]
  by (auto simp: isNotFoundError_def Let_def)

lemma findProviderCondition_Some:
  "findProviderCondition cs ty = Some i \<Longrightarrow> i < length cs \<and> co_Type (cs ! i) = ty"
  by (induction cs arbitrary: i) (auto split: if_splits)

lemma findProviderCondition_None:
  "findProviderCondition cs ty = None \<longleftrightarrow> ty \<notin> co_Type ` set cs"
  by (induction cs) auto

lemma updateExistingCondition_rel [frame_rules]:
  "keeps (call_rel P) (updateExistingCondition A new existing)"
  unfolding updateExistingCondition_def by (intro frame_rules)

lemma providerConditions_loop_rel [frame_rules]:
  "keeps (call_rel P) (providerConditions_loop A conds cur)"
proof (induction conds arbitrary: cur)
  case Nil
  then show ?case by (simp add: frame_rules)
next
  case (Cons c cs)
  show ?case by (simp only: providerConditions_loop.simps) (intro frame_rules Cons)
qed

lemma setNutanixProviderConditions_rel [frame_rules]:
  "keeps (call_rel P) (setNutanixProviderConditions A conds cur)"
  unfolding setNutanixProviderConditions_def by (intro frame_rules)

lemma metav1_Now_Ok: "\<exists>t s'. metav1_Now A s = (Ok t, s')"
  by (auto simp: metav1_Now_def split: prod.splits)

text \<open>The update of one condition always returns; what it writes.\<close>

lemma updateExistingCondition_Ok:
  "\<exists>c s' t. updateExistingCondition A new existing s = (Ok c, s') \<and>
     co_Type c = co_Type existing \<and> \<not> shouldUpdateCondition new c \<and>
     co_LastTransitionTime c = (if co_Status existing = co_Status new then co_LastTransitionTime existing else Some t)"
proof -
  obtain t s' where now: "metav1_Now A s = (Ok t, s')" using metav1_Now_Ok by blast
  then show ?thesis
    by (cases "shouldUpdateCondition new existing"; cases "co_Status existing = co_Status new")
      (simp_all add: updateExistingCondition_def shouldUpdateCondition_def op_defs)
qed

lemma providerConditions_loop_Ok: "\<exists>cur' s'. providerConditions_loop A conds cur s = (Ok cur', s')"
proof (induction conds arbitrary: cur s)
  case Nil
  then show ?case by (simp add: op_defs)
next
  case (Cons cond conds)
  show ?case
  proof (cases "findProviderCondition cur (co_Type cond)")
    case None
    obtain t s' where "metav1_Now A s = (Ok t, s')" using metav1_Now_Ok by blast
    with None Cons show ?thesis by (simp add: bnd_eq_Ok)
  next
    case (Some i)
    obtain c s' where "updateExistingCondition A cond (cur ! i) s = (Ok c, s')"
      using updateExistingCondition_Ok by blast
    with Some Cons show ?thesis by (simp add: bnd_eq_Ok)
  qed
qed

text \<open>The function as a whole: it returns its first argument, and only the clock was read.\<close>

lemma setNutanixProviderConditions_eq:
  obtains s' where "setNutanixProviderConditions A conds cur s = (Ok conds, s')"
    and "call_rel (\<lambda>_. False) s s'"
proof -
  obtain cur' s' where "providerConditions_loop A conds cur s = (Ok cur', s')"
    using providerConditions_loop_Ok by blast
  then have eq: "setNutanixProviderConditions A conds cur s = (Ok conds, s')"
    by (simp add: setNutanixProviderConditions_def bnd_eq_Ok ret_def)
  with setNutanixProviderConditions_rel have "call_rel (\<lambda>_. False) s s'" by (rule keepsD)
  with eq show thesis by (rule that)
qed

lemma condition_simps [simp]:
  "co_Type (conditionSuccess ty) = ty" "co_Type (conditionFailed ty m) = ty"
  "co_Type (conditionInstanceReady st) = machineInstanceReady"
  "co_Status (conditionSuccess ty) = ConditionTrue" "co_Status (conditionFailed ty m) = ConditionFalse"
  "co_Status (conditionInstanceReady st) = st" "co_Message (conditionFailed ty m) = m"
  "co_LastTransitionTime (conditionSuccess ty) = None"
  "co_LastTransitionTime (conditionFailed ty m) = None"
  "co_LastTransitionTime (conditionInstanceReady st) = None"
  by (simp_all add: conditionSuccess_def conditionFailed_def conditionInstanceReady_def Let_def)

lemma validateMachine_Ok_iff:
  "validateMachine m = Ok () \<longleftrightarrow> map_get (m_Labels m) MachineClusterIDLabel \<noteq> []"
  by (simp add: validateMachine_def)

lemma validateMachine_cases:
  obtains (ok) "validateMachine m = Ok ()"
    | (err) e where "validateMachine m = Err e" and "as_MachineError e = Some (InvalidConfigurationMachineError, err_Error e)"
  by (cases "map_get (m_Labels m) MachineClusterIDLabel = []")
    (auto simp: validateMachine_def InvalidMachineConfiguration_def)

lemma GetMib_ge_iff: "0 < k \<Longrightarrow> k \<le> GetMibValueOfQuantity q \<longleftrightarrow> k * (1024 * 1024) \<le> sint q"
  by (simp add: GetMibValueOfQuantity_def go_div_ge_iff)

lemma getClusterID_valid:
  "validateMachine m = Ok () \<Longrightarrow> getClusterID m = (map_get (m_Labels m) MachineClusterIDLabel, True)"
  by (cases "map_lookup (m_Labels m) MachineClusterIDLabel")
    (auto simp: validateMachine_Ok_iff getClusterID_def map_get_def)

end
