(* ===== verification/Lookup.thy ===== *)
theory Lookup
  imports Utils
begin

text \<open>
  The lookups of \<^verbatim>\<open>pkg/actuators/machine/vm.go\<close> against Prism Central: VMs by uuid and by name,
  the deletion of a VM, and the resolution of cluster, image, subnet, project and category
  names.
\<close>

section \<open>Definitions\<close>

definition name_filter :: "string \<Rightarrow> string" where
  "name_filter n = ''name eq '' @ [sq] @ n @ [sq]"

definition findVMByUUID :: "'e api \<Rightarrow> string \<Rightarrow> (('e, 'z) world_scheme, go_error, Vm) op" where
  "findVMByUUID A uuid = call_api (C_VMs_Get uuid) (a_VMs_Get A uuid)"

definition findVMByName :: "'e api \<Rightarrow> string \<Rightarrow> (('e, 'z) world_scheme, go_error, Vm) op" where
  "findVMByName A vmName =
     handle (call_api (C_VMs_List (name_filter vmName)) (a_VMs_List A (name_filter vmName)))
       (\<lambda>vms. case vms of
            [] \<Rightarrow> raise (NewError (''VM with name '' @ strconv_Quote vmName @ '' not found''))
          | [vm] \<Rightarrow> (case vm_ExtId vm of
                None \<Rightarrow> raise (NewError (''VM with name '' @ strconv_Quote vmName @ '' found but has nil ExtId''))
              | Some u \<Rightarrow> findVMByUUID A u)
          | _ \<Rightarrow> raise (NewError (''found more than one ('' @ strconv_Itoa (int (length vms)) @
                     '') VMs with name '' @ vmName)))
       (\<lambda>e. raise (fmt_Errorf_w (''finding VM by name '' @ vmName @ '': '') e))"

definition deleteVM :: "'e api \<Rightarrow> string \<Rightarrow> (('e, 'z) world_scheme, go_error, unit) op" where
  "deleteVM A vmUUID =
     handle (call_api (C_VMs_DeleteAsync vmUUID) (a_VMs_DeleteAsync A vmUUID))
       (\<lambda>task. handle (call_api (C_Wait task) (a_Wait A task))
          (\<lambda>_. ret ())
          (\<lambda>e. if isNotFoundError (Some e) then ret () else raise e))
       (\<lambda>e. if isNotFoundError (Some e) then ret () else raise e)"

text \<open>The loop over the listed clusters, with the pointer \<^verbatim>\<open>match\<close>.\<close>

fun cluster_match :: "string \<Rightarrow> string option \<Rightarrow> Cluster list \<Rightarrow> (go_error, string option) outcome" where
  "cluster_match clusterName m [] = Ok m"
| "cluster_match clusterName m (c # cs) =
     (if cl_Name c = Some clusterName then
        (if m \<noteq> None
         then Err (NewError (''found more than one cluster with name '' @ strconv_Quote clusterName))
         else cluster_match clusterName (cl_ExtId c) cs)
      else cluster_match clusterName m cs)"

definition findClusterUuidByName :: "'e api \<Rightarrow> string \<Rightarrow> (('e, 'z) world_scheme, go_error, string) op" where
  "findClusterUuidByName A clusterName =
     handle (call_api (C_Clusters_List (Some (name_filter clusterName)))
               (a_Clusters_List A (Some (name_filter clusterName))))
       (\<lambda>clusters. bnd (lift_out (cluster_match clusterName None clusters)) (\<lambda>m. case m of
            None \<Rightarrow> raise (NewError (''unable to find cluster by name '' @ strconv_Quote clusterName))
          | Some u \<Rightarrow> ret u))
       (\<lambda>e. raise (fmt_Errorf_w ''listing clusters: '' e))"

definition findImageUuidByName :: "'e api \<Rightarrow> string \<Rightarrow> (('e, 'z) world_scheme, go_error, string option) op" where
  "findImageUuidByName A imageName =
     handle (call_api (C_Images_List (name_filter imageName)) (a_Images_List A (name_filter imageName)))
       (\<lambda>images. case images of
            [] \<Rightarrow> raise (NewError (''failed to find image by name '' @ strconv_Quote imageName))
          | [i] \<Rightarrow> ret (en_ExtId i)
          | _ \<Rightarrow> raise (NewError (''found more than one ('' @ strconv_Itoa (int (length images)) @
                     '') images with name '' @ strconv_Quote imageName)))
       (\<lambda>e. raise (fmt_Errorf_w ''listing images: '' e))"

definition findSubnetUuidByName :: "'e api \<Rightarrow> string \<Rightarrow> (('e, 'z) world_scheme, go_error, string option) op" where
  "findSubnetUuidByName A subnetName =
     handle (call_api (C_Subnets_List (name_filter subnetName)) (a_Subnets_List A (name_filter subnetName)))
       (\<lambda>subnets. case subnets of
            [] \<Rightarrow> raise (NewError (''failed to find subnet by name '' @ strconv_Quote subnetName))
          | [i] \<Rightarrow> ret (en_ExtId i)
          | _ \<Rightarrow> raise (NewError (''found more than one ('' @ strconv_Itoa (int (length subnets)) @
                     '') subnets with name '' @ strconv_Quote subnetName)))
       (\<lambda>e. raise (fmt_Errorf_w ''listing subnets: '' e))"

text \<open>
  A failed listing and an empty one share their error text, so an empty listing wraps a nil
  error.  The uuid is read through the entity's metadata pointer.
\<close>

definition findProjectUuidByName :: "'e api \<Rightarrow> string \<Rightarrow> (('e, 'z) world_scheme, go_error, string option) op" where
  "findProjectUuidByName A projectName =
     (let flt = ''name=='' @ projectName;
          msg = ''failed to find project by name '' @ strconv_Quote projectName @ '': ''
      in handle (call_api (C_ListProject flt) (a_ListProject A flt))
           (\<lambda>entities. case entities of
                [] \<Rightarrow> raise (fmt_Errorf_w_nil msg)
              | [p] \<Rightarrow> deref (pj_Metadata p)
              | _ \<Rightarrow> raise (NewError (''found more than one ('' @ strconv_Itoa (int (length entities)) @
                         '') projects with name '' @ strconv_Quote projectName)))
           (\<lambda>e. raise (fmt_Errorf_w msg e)))"

definition getProjectByUUID :: "'e api \<Rightarrow> string \<Rightarrow> (('e, 'z) world_scheme, go_error, Project) op" where
  "getProjectByUUID A projectUUID = call_api (C_GetProject projectUUID) (a_GetProject A projectUUID)"

definition category_filter :: "string \<Rightarrow> string \<Rightarrow> string" where
  "category_filter key val = ''key eq '' @ [sq] @ key @ [sq] @ '' and value eq '' @ [sq] @ val @ [sq]"

definition getCategoryValue :: "'e api \<Rightarrow> string \<Rightarrow> string \<Rightarrow> (('e, 'z) world_scheme, go_error, Entity) op" where
  "getCategoryValue A key val =
     bnd (call_api (C_Categories_List (category_filter key val)) (a_Categories_List A (category_filter key val)))
       (\<lambda>cats. case cats of
            [] \<Rightarrow> raise (NewError (''category '' @ strconv_Quote key @ '' with value '' @ strconv_Quote val @ '' not found''))
          | [c] \<Rightarrow> ret c
          | _ \<Rightarrow> raise (NewError (''found more than one ('' @ strconv_Itoa (int (length cats)) @
                     '') categories with key '' @ strconv_Quote key @ '' and value '' @ strconv_Quote val)))"

definition listVMNics :: "'e api \<Rightarrow> string \<Rightarrow> (('e, 'z) world_scheme, go_error, Nic list) op" where
  "listVMNics A vmUUID = call_api (C_ListNicsByVmId vmUUID) (a_ListNicsByVmId A vmUUID)"

definition getClusterNameByUUID :: "'e api \<Rightarrow> string \<Rightarrow> (('e, 'z) world_scheme, go_error, string) op" where
  "getClusterNameByUUID A uuid =
     handle (call_api (C_Clusters_Get uuid) (a_Clusters_Get A uuid))
       (\<lambda>cluster. case cl_Name cluster of
            None \<Rightarrow> ret ''Unnamed''
          | Some n \<Rightarrow> if n \<noteq> [] then ret n else ret ''Unnamed'')
       (\<lambda>e. raise (fmt_Errorf_w (''fetching cluster '' @ uuid @ '': '') e))"

text \<open>
  The loop of \<^verbatim>\<open>getPrismCentralCluster\<close> over the clusters left, with \<^verbatim>\<open>len(clusters)\<close> and the
  pointer \<^verbatim>\<open>fallback\<close>; it returns \<^verbatim>\<open>found\<close> and \<^verbatim>\<open>fallback\<close>.
\<close>

fun pc_cluster_loop :: "nat \<Rightarrow> Cluster option \<Rightarrow> Cluster list \<Rightarrow> Cluster option \<times> Cluster option" where
  "pc_cluster_loop n fallback [] = (None, fallback)"
| "pc_cluster_loop n fallback (c # cs) =
     (let fallback' = (if n = 1 \<and> cl_ExtId c \<noteq> None then Some c else fallback)
      in case (cl_ExtId c, cl_Config c) of
           (Some u, Some fns) \<Rightarrow>
             if fns = [] then pc_cluster_loop n fallback' cs
             else if CLUSTERFUNCTIONREF_PRISM_CENTRAL \<in> set fns then (Some c, fallback')
             else pc_cluster_loop n fallback' cs
         | _ \<Rightarrow> pc_cluster_loop n fallback' cs)"

definition getPrismCentralCluster :: "'e api \<Rightarrow> (('e, 'z) world_scheme, go_error, Cluster) op" where
  "getPrismCentralCluster A =
     bnd (call_api (C_Clusters_List None) (a_Clusters_List A None))
       (\<lambda>clusters. case pc_cluster_loop (length clusters) None clusters of
            (Some c, _) \<Rightarrow> ret c
          | (None, Some c) \<Rightarrow> ret c
          | (None, None) \<Rightarrow> raise (NewError ''failed to retrieve Prism Central cluster''))"

section \<open>Frames\<close>

text \<open>Every lookup only reads; the deletion makes one mutating call.\<close>

lemma findVMByUUID_rel [frame_rules]: "keeps (call_rel is_read) (findVMByUUID A uuid)"
  unfolding findVMByUUID_def by (intro frame_rules) simp

lemma findVMByName_rel [frame_rules]: "keeps (call_rel is_read) (findVMByName A vmName)"
  unfolding findVMByName_def by (intro frame_rules) simp

lemma findClusterUuidByName_rel [frame_rules]: "keeps (call_rel is_read) (findClusterUuidByName A n)"
  unfolding findClusterUuidByName_def by (intro frame_rules) simp

lemma findImageUuidByName_rel [frame_rules]: "keeps (call_rel is_read) (findImageUuidByName A n)"
  unfolding findImageUuidByName_def by (intro frame_rules) simp

lemma findSubnetUuidByName_rel [frame_rules]: "keeps (call_rel is_read) (findSubnetUuidByName A n)"
  unfolding findSubnetUuidByName_def by (intro frame_rules) simp

lemma findProjectUuidByName_rel [frame_rules]: "keeps (call_rel is_read) (findProjectUuidByName A n)"
  unfolding findProjectUuidByName_def Let_def by (intro frame_rules) simp

lemma getProjectByUUID_rel [frame_rules]: "keeps (call_rel is_read) (getProjectByUUID A u)"
  unfolding getProjectByUUID_def by (intro frame_rules) simp

lemma getCategoryValue_rel [frame_rules]: "keeps (call_rel is_read) (getCategoryValue A k v)"
  unfolding getCategoryValue_def by (intro frame_rules) simp

lemma listVMNics_rel [frame_rules]: "keeps (call_rel is_read) (listVMNics A u)"
  unfolding listVMNics_def by (intro frame_rules) simp

lemma getClusterNameByUUID_rel [frame_rules]: "keeps (call_rel is_read) (getClusterNameByUUID A u)"
  unfolding getClusterNameByUUID_def by (intro frame_rules) simp

lemma getPrismCentralCluster_rel [frame_rules]: "keeps (call_rel is_read) (getPrismCentralCluster A)"
  unfolding getPrismCentralCluster_def by (intro frame_rules) simp

lemma call_api_not_Panic: "call_api c f s \<noteq> (Panic, s')"
  by (auto simp: call_api_def split: prod.splits sum.splits)

section \<open>Lookup by name as an interface\<close>

text \<open>
  The contract images and subnets share: a listing filtered by name, of which exactly one
  entry must remain, whose external id is the answer.  The validators of a provider spec rely
  on the derived equivalence.
\<close>

locale name_lookup =
  fixes find :: "string \<Rightarrow> (('e, 'z) world_scheme, go_error, string option) op"
    and list_op :: "string \<Rightarrow> (('e, 'z) world_scheme, go_error, Entity list) op"
  assumes one: "list_op n s = (Ok [x], s') \<Longrightarrow> find n s = (Ok (en_ExtId x), s')"
    and other: "list_op n s = (Ok xs, s') \<Longrightarrow> length xs \<noteq> 1 \<Longrightarrow> \<exists>m. find n s = (Err (NewError m), s')"
    and fails: "list_op n s = (Err e, s') \<Longrightarrow> \<exists>pre. find n s = (Err (fmt_Errorf_w pre e), s')"
    and returns: "\<exists>r s'. list_op n s = (r, s') \<and> r \<noteq> Panic"
begin

lemma find_Ok_iff:
  "find n s = (Ok u, s') \<longleftrightarrow> (\<exists>x. list_op n s = (Ok [x], s') \<and> u = en_ExtId x)"
proof -
  obtain r t where l: "list_op n s = (r, t)" and np: "r \<noteq> Panic" using returns by blast
  show ?thesis
  proof (cases r)
    case (Ok xs)
    show ?thesis
    proof (cases "length xs = 1")
      case True
      then obtain x where "xs = [x]" by (auto simp: length_Suc_conv)
      with l Ok one show ?thesis by auto
    next
      case False
      with l Ok other [of n s xs t] show ?thesis by auto
    qed
  next
    case (Err e)
    with l fails [of n s e t] show ?thesis by auto
  qed (use np in simp)
qed

lemma find_not_Panic: "find n s \<noteq> (Panic, s')"
proof -
  obtain r t where l: "list_op n s = (r, t)" and np: "r \<noteq> Panic" using returns by blast
  show ?thesis
  proof (cases r)
    case (Ok xs)
    with l one other [of n s xs t] show ?thesis
      by (cases "length xs = 1") (auto simp: length_Suc_conv)
  next
    case (Err e)
    with l fails [of n s e t] show ?thesis by auto
  qed (use np in simp)
qed

end

definition list_images :: "'e api \<Rightarrow> string \<Rightarrow> (('e, 'z) world_scheme, go_error, Entity list) op" where
  "list_images A n = call_api (C_Images_List (name_filter n)) (a_Images_List A (name_filter n))"

definition list_subnets :: "'e api \<Rightarrow> string \<Rightarrow> (('e, 'z) world_scheme, go_error, Entity list) op" where
  "list_subnets A n = call_api (C_Subnets_List (name_filter n)) (a_Subnets_List A (name_filter n))"

lemma call_api_returns: "\<exists>r s'. call_api c f s = (r, s') \<and> r \<noteq> Panic"
  by (metis call_api_not_Panic surj_pair)

interpretation image_lookup: name_lookup "findImageUuidByName A" "list_images A" for A
proof
  fix n s x s' assume "list_images A n s = (Ok [x], s')"
  then show "findImageUuidByName A n s = (Ok (en_ExtId x), s')"
    by (simp add: findImageUuidByName_def list_images_def handle_eq_Ok) (simp add: ret_def)
next
  fix n s xs s' assume "list_images A n s = (Ok xs, s')" and "length xs \<noteq> 1"
  then show "\<exists>m. findImageUuidByName A n s = (Err (NewError m), s')"
    by (simp add: findImageUuidByName_def list_images_def handle_eq_Ok)
      (auto simp: raise_def split: list.splits)
next
  fix n s e s' assume "list_images A n s = (Err e, s')"
  then show "\<exists>pre. findImageUuidByName A n s = (Err (fmt_Errorf_w pre e), s')"
    by (simp add: findImageUuidByName_def list_images_def handle_eq_Err) (auto simp: raise_def)
qed (unfold list_images_def, rule call_api_returns)

interpretation subnet_lookup: name_lookup "findSubnetUuidByName A" "list_subnets A" for A
proof
  fix n s x s' assume "list_subnets A n s = (Ok [x], s')"
  then show "findSubnetUuidByName A n s = (Ok (en_ExtId x), s')"
    by (simp add: findSubnetUuidByName_def list_subnets_def handle_eq_Ok) (simp add: ret_def)
next
  fix n s xs s' assume "list_subnets A n s = (Ok xs, s')" and "length xs \<noteq> 1"
  then show "\<exists>m. findSubnetUuidByName A n s = (Err (NewError m), s')"
    by (simp add: findSubnetUuidByName_def list_subnets_def handle_eq_Ok)
      (auto simp: raise_def split: list.splits)
next
  fix n s e s' assume "list_subnets A n s = (Err e, s')"
  then show "\<exists>pre. findSubnetUuidByName A n s = (Err (fmt_Errorf_w pre e), s')"
    by (simp add: findSubnetUuidByName_def list_subnets_def handle_eq_Err) (auto simp: raise_def)
qed (unfold list_subnets_def, rule call_api_returns)

section \<open>Lemmas\<close>

text \<open>The cluster loop: all matches before the last have no id, the last one's id is the answer.\<close>

lemma cluster_match_filter:
  "cluster_match n m cs = cluster_match n m (filter (\<lambda>c. cl_Name c = Some n) cs)"
  by (induction cs arbitrary: m) auto

lemma cluster_match_all:
  assumes "\<forall>c\<in>set cs. cl_Name c = Some n"
  shows "cluster_match n None cs = Ok (Some u) \<longleftrightarrow>
    cs \<noteq> [] \<and> cl_ExtId (last cs) = Some u \<and> (\<forall>d\<in>set (butlast cs). cl_ExtId d = None)"
  using assms
proof (induction cs)
  case Nil
  then show ?case by simp
next
  case (Cons c cs)
  then show ?case by (cases "cl_ExtId c"; cases cs) auto
qed

lemma cluster_match_Ok_iff:
  "cluster_match n None cs = Ok (Some u) \<longleftrightarrow>
    (let ms = filter (\<lambda>c. cl_Name c = Some n) cs
     in ms \<noteq> [] \<and> cl_ExtId (last ms) = Some u \<and> (\<forall>d\<in>set (butlast ms). cl_ExtId d = None))"
  using cluster_match_all [of "filter (\<lambda>c. cl_Name c = Some n) cs" n u]
  by (subst cluster_match_filter) (auto simp: Let_def)

lemma cluster_match_not_Panic [simp]: "cluster_match n m cs \<noteq> Panic"
  by (induction cs arbitrary: m) auto

lemma findClusterUuidByName_Ok_iff:
  "findClusterUuidByName A n s = (Ok u, s') \<longleftrightarrow>
     (\<exists>cs. call_api (C_Clusters_List (Some (name_filter n))) (a_Clusters_List A (Some (name_filter n))) s = (Ok cs, s') \<and>
        cluster_match n None cs = Ok (Some u))"
  by (auto simp: findClusterUuidByName_def op_defs split: prod.splits outcome.splits option.splits)

text \<open>The Prism Central cluster: the first with that function, else a sole cluster with an id.\<close>

definition is_prism_central :: "Cluster \<Rightarrow> bool" where
  "is_prism_central c \<longleftrightarrow> cl_ExtId c \<noteq> None \<and>
     (case cl_Config c of None \<Rightarrow> False | Some fns \<Rightarrow> CLUSTERFUNCTIONREF_PRISM_CENTRAL \<in> set fns)"

lemma pc_cluster_loop_found: "fst (pc_cluster_loop n fb cs) = List.find is_prism_central cs"
  by (induction cs arbitrary: fb)
    (auto simp: is_prism_central_def Let_def split: option.splits)

lemma pc_cluster_loop_fallback:
  "List.find is_prism_central cs = None \<Longrightarrow> n \<noteq> 1 \<Longrightarrow> snd (pc_cluster_loop n fb cs) = fb"
  by (induction cs arbitrary: fb)
    (auto simp: is_prism_central_def Let_def split: option.splits if_splits)

definition prism_central_of :: "Cluster list \<Rightarrow> Cluster option" where
  "prism_central_of cs = (case List.find is_prism_central cs of
      Some c \<Rightarrow> Some c
    | None \<Rightarrow> (case cs of [c] \<Rightarrow> if cl_ExtId c \<noteq> None then Some c else None | _ \<Rightarrow> None))"

lemma pc_cluster_loop_spec:
  "pc_cluster_loop (length cs) None cs = (f, fb) \<Longrightarrow>
     prism_central_of cs = (case f of Some c \<Rightarrow> Some c | None \<Rightarrow> fb)"
proof -
  assume run: "pc_cluster_loop (length cs) None cs = (f, fb)"
  then have f: "f = List.find is_prism_central cs" using pc_cluster_loop_found [of "length cs" None cs] by simp
  show ?thesis
  proof (cases "length cs = 1")
    case True
    then obtain c where "cs = [c]" by (auto simp: length_Suc_conv)
    with run f show ?thesis
      by (auto simp: prism_central_of_def is_prism_central_def Let_def split: option.splits if_splits)
  next
    case False
    with run f pc_cluster_loop_fallback [of cs "length cs" None] show ?thesis
      by (auto simp: prism_central_of_def split: option.splits list.splits)
  qed
qed

text \<open>Lookup of a VM by name.\<close>

lemma findVMByName_Ok_iff:
  "findVMByName A n s = (Ok vm, s') \<longleftrightarrow>
     (\<exists>v u s1. call_api (C_VMs_List (name_filter n)) (a_VMs_List A (name_filter n)) s = (Ok [v], s1) \<and>
        vm_ExtId v = Some u \<and> findVMByUUID A u s1 = (Ok vm, s'))"
  by (auto simp: findVMByName_def op_defs split: prod.splits outcome.splits option.splits list.splits)

lemma find_vm_not_Panic [simp]:
  "findVMByUUID A u s \<noteq> (Panic, s')" "findVMByName A n s \<noteq> (Panic, s')" "listVMNics A u s \<noteq> (Panic, s')"
  by (auto simp: findVMByUUID_def findVMByName_def listVMNics_def call_api_not_Panic op_defs
      split: prod.splits outcome.splits option.splits list.splits)

lemma findVMByName_none:
  assumes "call_api (C_VMs_List (name_filter n)) (a_VMs_List A (name_filter n)) s = (Ok [], s')"
  shows "\<exists>e. findVMByName A n s = (Err e, s') \<and> isNotFoundError (Some e)"
proof -
  let ?m = "''VM with name '' @ strconv_Quote n @ '' not found''"
  have "strings_ToLower ?m = (strings_ToLower (''VM with name '' @ strconv_Quote n) @ '' '') @ ''not found'' @ []"
    by (simp add: strings_ToLower_def lower_char_def)
  then have "isNotFoundError (Some (NewError ?m))" by (rule isNotFoundError_lower)
  with assms show ?thesis
    by (intro exI [of _ "NewError ?m"]) (simp add: findVMByName_def handle_eq_Ok raise_def)
qed

text \<open>
  The names the API server admits for a Machine (DNS-1123 subdomains): with such a name, the
  message about several VMs of that name is not taken for a not-found message.
\<close>

definition dns_name :: "string \<Rightarrow> bool" where
  "dns_name n \<longleftrightarrow> list_all (\<lambda>c. is_digit c \<or> (97 \<le> code c \<and> code c \<le> 122) \<or> c = CHR ''-'' \<or> c = CHR ''.'') n"

lemma lower_dns_name: "dns_name n \<Longrightarrow> strings_ToLower n = n"
  by (induction n) (auto simp: dns_name_def strings_ToLower_def lower_char_def is_digit_def)

lemma dns_name_chars: "dns_name n \<Longrightarrow> CHR '' '' \<notin> set n \<and> CHR ''_'' \<notin> set n"
  by (auto simp: dns_name_def list_all_iff is_digit_def)

lemma lower_digits: "list_all is_digit ds \<Longrightarrow> strings_ToLower ds = ds"
  by (induction ds) (auto simp: strings_ToLower_def lower_char_def is_digit_def)

lemma not_isNotFoundError:
  assumes "\<not> has_pair (CHR ''t'') (CHR '' '') (strings_ToLower (err_Error e))"
    and "CHR ''_'' \<notin> set (strings_ToLower (err_Error e))"
  shows "\<not> isNotFoundError (Some e)"
  using assms strings_Contains_has_pair [of "strings_ToLower (err_Error e)" "''no''" "CHR ''t''" "CHR '' ''" "''found''"]
    strings_Contains_mem [of "strings_ToLower (err_Error e)" "''not_found''" "CHR ''_''"]
  by (auto simp: isNotFoundError_def Let_def)

lemma several_vms_message:
  assumes "dns_name n"
  shows "\<not> isNotFoundError (Some (NewError (''found more than one ('' @ strconv_Itoa (int k) @ '') VMs with name '' @ n)))"
proof (rule not_isNotFoundError)
  have d: "list_all is_digit (strconv_Itoa (int k))"
    by (simp add: strconv_Itoa_def nat_digits_are_digits)
  then have nosp: "CHR '' '' \<notin> set (strconv_Itoa (int k))" "CHR ''_'' \<notin> set (strconv_Itoa (int k))"
    by (auto simp: list_all_iff is_digit_def)
  have low: "strings_ToLower (err_Error (NewError (''found more than one ('' @ strconv_Itoa (int k) @ '') VMs with name '' @ n)))
      = ''found more than one ('' @ strconv_Itoa (int k) @ '') vms with name '' @ n"
    using lower_dns_name [OF assms] lower_digits [OF d]
    by (simp add: strings_ToLower_def lower_char_def char_of_def bit_iff_odd)
  show "\<not> has_pair (CHR ''t'') (CHR '' '')
      (strings_ToLower (err_Error (NewError (''found more than one ('' @ strconv_Itoa (int k) @ '') VMs with name '' @ n))))"
    unfolding low using nosp dns_name_chars [OF assms] by (auto simp: has_pair_append has_pair_Cons dest: has_pair_mem)
  show "CHR ''_'' \<notin> set
      (strings_ToLower (err_Error (NewError (''found more than one ('' @ strconv_Itoa (int k) @ '') VMs with name '' @ n))))"
    unfolding low using nosp dns_name_chars [OF assms] by auto
qed

text \<open>The prefix \<open>findVMByName\<close> puts before a failed listing adds no not-found message.\<close>

lemma suffix_colon:
  assumes "q @ '': '' = z @ x" and "x \<noteq> []"
  shows "x = '' '' \<or> CHR '':'' \<in> set x"
  using assms by (cases x rule: rev_cases; cases "butlast x" rule: rev_cases) (auto simp: append_eq_append_conv2 Cons_eq_append_conv)

lemma isNotFoundError_unwrap:
  assumes "dns_name n" and "isNotFoundError (Some (fmt_Errorf_w (''finding VM by name '' @ n @ '': '') e))"
  shows "isNotFoundError (Some e)"
proof -
  define q where "q = ''finding vm by name '' @ n"
  define m where "m = strings_ToLower (err_Error e)"
  have low: "strings_ToLower (''finding VM by name '' @ n @ '': '' @ err_Error e) = (q @ '': '') @ m"
    using lower_dns_name [OF assms(1)] by (simp add: strings_ToLower_def lower_char_def char_of_def bit_iff_odd q_def m_def)
  have np: "\<not> has_pair (CHR ''t'') (CHR '' '') (q @ '': '')" "CHR ''_'' \<notin> set (q @ '': '')"
    using dns_name_chars [OF assms(1)] by (auto simp: has_pair_append has_pair_Cons q_def dest: has_pair_mem)
  have "strings_Contains m w" if w: "w \<in> {''not found'', ''not_found''}" and c: "strings_Contains ((q @ '': '') @ m) w" for w
  proof (rule ccontr)
    assume no: "\<not> strings_Contains m w"
    have "\<not> strings_Contains (q @ '': '') w"
      using w np strings_Contains_has_pair [of "q @ '': ''" "''no''" "CHR ''t''" "CHR '' ''" "''found''"]
        strings_Contains_mem [of "q @ '': ''" "''not_found''" "CHR ''_''"] by auto
    from strings_Contains_joint [OF c this no] obtain x y z where x: "w = x @ y" "x \<noteq> []" "q @ '': '' = z @ x" by blast
    from w have "CHR '':'' \<notin> set w" "hd w \<noteq> CHR '' ''" by auto
    with suffix_colon [OF x(3,2)] x(1) show False by auto
  qed
  note only = this
  from assms(2) have "strings_Contains ((q @ '': '') @ m) ''not_found'' \<or> strings_Contains ((q @ '': '') @ m) ''not found''"
    by (simp only: isNotFoundError_def Let_def option.case err_Error_Errorf_w append_assoc low [unfolded append_assoc])
  with only have "strings_Contains m ''not_found'' \<or> strings_Contains m ''not found''" by blast
  then show ?thesis by (simp only: isNotFoundError_def Let_def option.case m_def)
qed

lemma findVMByName_several:
  assumes "call_api (C_VMs_List (name_filter n)) (a_VMs_List A (name_filter n)) s = (Ok vms, s')"
    and "length vms \<ge> 2"
  shows "findVMByName A n s = (Err (NewError (''found more than one ('' @ strconv_Itoa (int (length vms)) @
           '') VMs with name '' @ n)), s')"
proof -
  obtain v w vs where "vms = v # w # vs" using assms(2) by (cases vms; cases "tl vms") auto
  with assms(1) show ?thesis by (simp add: findVMByName_def handle_eq_Ok raise_def)
qed

text \<open>The deletion: when it succeeds, and the calls it makes.\<close>

lemma deleteVM_calls:
  assumes "deleteVM A u s = (r, s')"
  shows "\<exists>cs. w_calls s' = w_calls s @ C_VMs_DeleteAsync u # cs \<and> list_all is_read cs"
    and "world.more s' = world.more s" and "w_events s' = w_events s" and "w_metrics s' = w_metrics s"
  using assms by (auto simp: deleteVM_def op_defs call_api_def split: prod.splits sum.splits if_splits)

lemma deleteVM_not_Panic [simp]: "deleteVM A u s \<noteq> (Panic, s')"
  by (auto simp: deleteVM_def op_defs call_api_def split: prod.splits sum.splits if_splits)

end
