(* ===== verification/Scope_State.thy ===== *)
theory Scope_State
  imports Lookup
begin

text \<open>
  The machine scope of \<^verbatim>\<open>pkg/actuators/machine/machine_scope.go\<close> as a state: the fields of the
  struct \<^verbatim>\<open>machineScope\<close> on top of the world the operations run in.  Also here, because the
  validation needs it: the lazily created v3 client, and the frame relation of operations
  that may only touch the validated copy of the provider spec.
\<close>

section \<open>The scope\<close>

text \<open>
  \<open>s_nutanixV3Client\<close> says whether the lazily initialised pointer is set; the v4 client is set
  in every scope that is handed out.  \<open>s_machineToBePatched\<close> is the deep copy a merge patch is
  computed against.
\<close>

record 'e machineScope = "'e world" +
  s_nutanixV3Client :: bool
  s_clientOptions :: ClientOptions
  s_machine :: Machine
  s_machineToBePatched :: Machine
  s_providerSpec :: NutanixMachineProviderConfig
  s_providerStatus :: NutanixMachineProviderStatus
  s_failureDomain :: "NutanixFailureDomain option"
  s_providerSpecValidated :: "NutanixMachineProviderConfig option"

type_synonym ('e, 'a) scope_op = "('e machineScope, go_error, 'a) op"

text \<open>\<^verbatim>\<open>getV3Client\<close>.\<close>

definition getV3Client :: "'e api \<Rightarrow> ('e, unit) scope_op" where
  "getV3Client A =
     bnd (gets s_nutanixV3Client) (\<lambda>present.
     if present then ret ()
     else bnd (gets s_clientOptions) (\<lambda>options.
       handle (V3Client A options)
         (\<lambda>options'. modify (\<lambda>s. s\<lparr>s_nutanixV3Client := True, s_clientOptions := options'\<rparr>))
         (\<lambda>e. raise (fmt_Errorf_w ''failed to create nutanix v3 client: '' e))))"

text \<open>The validated provider spec through its pointer, and a write through it.\<close>

definition validated :: "('e, NutanixMachineProviderConfig) scope_op" where
  "validated = bnd (gets s_providerSpecValidated) deref"

definition update_validated ::
  "(NutanixMachineProviderConfig \<Rightarrow> NutanixMachineProviderConfig) \<Rightarrow> ('e, unit) scope_op" where
  "update_validated f = bnd validated (\<lambda>spec.
     modify (\<lambda>s. s\<lparr>s_providerSpecValidated := Some (f spec)\<rparr>))"

section \<open>The scope frame\<close>

text \<open>
  \<open>scope_rel P s s'\<close>: only calls satisfying \<open>P\<close> were made, nothing was recorded, and of the
  scope only the validated spec and the v3 client may differ.
\<close>

definition scope_rel :: "(call \<Rightarrow> bool) \<Rightarrow> 'e machineScope \<Rightarrow> 'e machineScope \<Rightarrow> bool" where
  "scope_rel P s s' \<longleftrightarrow>
     (\<exists>cs. w_calls s' = w_calls s @ cs \<and> list_all P cs) \<and>
     w_events s' = w_events s \<and> w_metrics s' = w_metrics s \<and>
     s_machine s' = s_machine s \<and> s_machineToBePatched s' = s_machineToBePatched s \<and>
     s_providerSpec s' = s_providerSpec s \<and> s_providerStatus s' = s_providerStatus s \<and>
     s_failureDomain s' = s_failureDomain s"

interpretation scope_frame: op_frame "scope_rel P" for P
proof
  show "scope_rel P s s" for s :: "'a machineScope" by (auto simp: scope_rel_def)
next
  fix s t u :: "'a machineScope"
  assume "scope_rel P s t" and "scope_rel P t u"
  then show "scope_rel P s u" by (auto simp: scope_rel_def)
qed

text \<open>An operation of the world keeps every field of the scope.\<close>

lemma more_eq_scope:
  fixes s s' :: "'e machineScope"
  assumes "world.more s' = world.more s"
  shows "s_nutanixV3Client s' = s_nutanixV3Client s" "s_clientOptions s' = s_clientOptions s"
    "s_machine s' = s_machine s" "s_machineToBePatched s' = s_machineToBePatched s"
    "s_providerSpec s' = s_providerSpec s" "s_providerStatus s' = s_providerStatus s"
    "s_failureDomain s' = s_failureDomain s" "s_providerSpecValidated s' = s_providerSpecValidated s"
  using assms by (cases s; cases s'; simp)+

lemmas call_rel_fields = more_eq_scope [OF call_rel_more]

lemma call_rel_scope_rel:
  fixes s s' :: "'e machineScope"
  assumes "call_rel P s s'"
  shows "scope_rel P s s'"
  using assms call_rel_fields [OF assms] by (simp add: call_rel_def scope_rel_def)

lemma keeps_scope:
  fixes m :: "('e, 'a) scope_op"
  shows "keeps (call_rel P) m \<Longrightarrow> keeps (scope_rel P) m"
  by (erule keeps_mono) (rule call_rel_scope_rel)

lemma world_op_validated:
  fixes m :: "('e, 'a) scope_op"
  assumes "keeps (call_rel P) m" and "m s = (r, s')"
  shows "s_providerSpecValidated s' = s_providerSpecValidated s"
  by (rule call_rel_fields [OF keepsD [OF assms]])

lemma scope_rel_new_calls: "scope_rel P s s' \<Longrightarrow> list_all P (new_calls s s')"
  by (auto simp: scope_rel_def)

lemma scope_rel_mono: "scope_rel P s s' \<Longrightarrow> (\<And>c. P c \<Longrightarrow> Q c) \<Longrightarrow> scope_rel Q s s'"
  by (auto simp: scope_rel_def list_all_iff)

lemma update_validated_rel [frame_rules]: "keeps (scope_rel P) (update_validated f)"
  by (rule keepsI)
    (auto simp: update_validated_def validated_def op_defs scope_rel_def split: option.splits)

lemma validated_rel [frame_rules]: "keeps (scope_rel P) validated"
  unfolding validated_def by (intro frame_rules)

lemma getV3Client_rel [frame_rules]:
  "(\<And>c. P (C_NewV3Client c)) \<Longrightarrow> keeps (scope_rel P) (getV3Client A)"
proof -
  assume P: "\<And>c. P (C_NewV3Client c)"
  have set_rel: "keeps (scope_rel P) (modify (\<lambda>s. s\<lparr>s_nutanixV3Client := True, s_clientOptions := opts\<rparr>))" for opts
    by (auto simp: keeps_def modify_def scope_rel_def)
  have "keeps (scope_rel P) (V3Client A options)" for options
    by (rule keeps_scope [OF V3Client_rel]) (rule P)
  then show ?thesis
    unfolding getV3Client_def
    by (intro scope_frame.frame_bnd scope_frame.frame_gets keeps_if scope_frame.frame_ret
        scope_frame.frame_handle scope_frame.frame_raise set_rel)
qed

lemma validated_eq: "s_providerSpecValidated s = Some sp \<Longrightarrow> validated s = (Ok sp, s)"
  by (simp add: validated_def op_defs)

lemma update_validated_eq:
  "s_providerSpecValidated s = Some sp \<Longrightarrow>
     update_validated f s = (Ok (), s\<lparr>s_providerSpecValidated := Some (f sp)\<rparr>)"
  by (simp add: update_validated_def validated_def op_defs)

lemma getV3Client_validated:
  assumes "getV3Client A s = (r, s')"
  shows "s_providerSpecValidated s' = s_providerSpecValidated s" and "r \<noteq> Panic"
  using assms
  by (auto simp: getV3Client_def V3Client_def op_defs call_api_def split: if_splits prod.splits outcome.splits sum.splits)

text \<open>The world operations, as operations of a scope.\<close>

lemma call_api_scope_rel [frame_rules]: "P c \<Longrightarrow> keeps (scope_rel P) (call_api c f)"
  by (rule keeps_scope [OF call_api_rel])

lemmas scope_reads [frame_rules] =
  keeps_scope [OF findVMByUUID_rel] keeps_scope [OF findVMByName_rel]
  keeps_scope [OF findClusterUuidByName_rel] keeps_scope [OF findImageUuidByName_rel]
  keeps_scope [OF findSubnetUuidByName_rel] keeps_scope [OF findProjectUuidByName_rel]
  keeps_scope [OF getProjectByUUID_rel] keeps_scope [OF getCategoryValue_rel]
  keeps_scope [OF listVMNics_rel] keeps_scope [OF getClusterNameByUUID_rel]
  keeps_scope [OF getPrismCentralCluster_rel]

lemma getGPUsForPEConverged_scope_rel [frame_rules]:
  "keeps (scope_rel is_read) (getGPUsForPEConverged A peUUID)"
  by (rule keeps_scope [OF getGPUsForPEConverged_rel]) simp

end
