(* ===== verification/Validate.thy ===== *)
theory Validate
  imports Scope_State
begin

text \<open>
  The validation of a machine's provider spec, the first third of
  \<^verbatim>\<open>pkg/actuators/machine/vm.go\<close>.  It works on a deep copy of the provider spec
  (\<open>s_providerSpecValidated\<close>), resolves names to uuids in it, and collects field errors; a VM
  is only built from that copy.
\<close>

section \<open>Identifiers\<close>

text \<open>\<^verbatim>\<open>p == nil || *p == ""\<close> as a test on an optional string.\<close>

definition nonempty :: "string option \<Rightarrow> string option" where
  "nonempty p = (case p of None \<Rightarrow> None | Some s \<Rightarrow> if s = [] then None else Some s)"

definition opt_list :: "'a option \<Rightarrow> 'a list" where
  "opt_list p = (case p of None \<Rightarrow> [] | Some x \<Rightarrow> [x])"

definition validateClusterConfig :: "'e api \<Rightarrow> field_path \<Rightarrow> ('e, field_error option) scope_op" where
  "validateClusterConfig A fldPath = bnd validated (\<lambda>spec.
     let cluster = ps_Cluster spec in
     if ri_Type cluster = NutanixIdentifierName then
       (case nonempty (ri_Name cluster) of
          None \<Rightarrow> ret (Some (field_Required (path_Child fldPath [''cluster'', ''name'']) ''Missing cluster name''))
        | Some clusterName \<Rightarrow>
            handle (findClusterUuidByName A clusterName)
              (\<lambda>uuid. bnd (update_validated (\<lambda>sp. sp\<lparr>ps_Cluster := (ps_Cluster sp)\<lparr>ri_Type := NutanixIdentifierUUID, ri_UUID := Some uuid\<rparr>\<rparr>))
                 (\<lambda>_. ret None))
              (\<lambda>e. ret (Some (field_Invalid (path_Child fldPath [''cluster'', ''name'']) (BadString clusterName)
                 (''Failed to find cluster with name '' @ strconv_Quote clusterName @ ''. error: '' @ err_Error e)))))
     else if ri_Type cluster = NutanixIdentifierUUID then
       (case nonempty (ri_UUID cluster) of
          None \<Rightarrow> ret (Some (field_Required (path_Child fldPath [''cluster'', ''uuid'']) ''Missing cluster uuid''))
        | Some clusterUUID \<Rightarrow>
            handle (call_api (C_Clusters_Get clusterUUID) (a_Clusters_Get A clusterUUID))
              (\<lambda>_. ret None)
              (\<lambda>e. ret (Some (field_Invalid (path_Child fldPath [''cluster'', ''uuid'']) (BadString clusterUUID)
                 (''Failed to find cluster with uuid '' @ clusterUUID @ ''. error: '' @ err_Error e)))))
     else ret (Some (field_Invalid (path_Child fldPath [''cluster'', ''type'']) (BadNamedString (ri_Type cluster))
       (''Invalid cluster identifier type, valid types are: '' @ strconv_Quote config_IdentifierName @ '', '' @
        strconv_Quote config_IdentifierUUID @ ''.''))))"

definition validateImageConfig :: "'e api \<Rightarrow> field_path \<Rightarrow> ('e, field_error option) scope_op" where
  "validateImageConfig A fldPath = bnd validated (\<lambda>spec.
     let image = ps_Image spec in
     if ri_Type image = NutanixIdentifierName then
       (case nonempty (ri_Name image) of
          None \<Rightarrow> ret (Some (field_Required (path_Child fldPath [''image'', ''name'']) ''Missing image name''))
        | Some imageName \<Rightarrow>
            handle (findImageUuidByName A imageName)
              (\<lambda>uuid. bnd (update_validated (\<lambda>sp. sp\<lparr>ps_Image := (ps_Image sp)\<lparr>ri_Type := NutanixIdentifierUUID, ri_UUID := uuid\<rparr>\<rparr>))
                 (\<lambda>_. ret None))
              (\<lambda>e. ret (Some (field_Invalid (path_Child fldPath [''image'', ''name'']) (BadString imageName)
                 (''Failed to find image with name '' @ strconv_Quote imageName @ ''. error: '' @ err_Error e)))))
     else if ri_Type image = NutanixIdentifierUUID then
       (case nonempty (ri_UUID image) of
          None \<Rightarrow> ret (Some (field_Required (path_Child fldPath [''image'', ''uuid'']) ''Missing image uuid''))
        | Some imageUUID \<Rightarrow>
            handle (call_api (C_Images_Get imageUUID) (a_Images_Get A imageUUID))
              (\<lambda>_. ret None)
              (\<lambda>e. ret (Some (field_Invalid (path_Child fldPath [''image'', ''uuid'']) (BadString imageUUID)
                 (''Failed to find image with uuid '' @ imageUUID @ ''. error: '' @ err_Error e)))))
     else ret (Some (field_Invalid (path_Child fldPath [''image'', ''type'']) (BadNamedString (ri_Type image))
       (''Invalid image identifier type, valid types are: '' @ strconv_Quote config_IdentifierName @ '', '' @
        strconv_Quote config_IdentifierUUID @ ''.''))))"

text \<open>One iteration of the subnet loop; the resolved uuid is written at the loop's index.\<close>

definition validate_subnet ::
  "'e api \<Rightarrow> field_path \<Rightarrow> nat \<Rightarrow> NutanixResourceIdentifier \<Rightarrow> ('e, field_error list) scope_op" where
  "validate_subnet A fldPath i subnet =
     (if ri_Type subnet = NutanixIdentifierName then
        (case nonempty (ri_Name subnet) of
           None \<Rightarrow> ret [field_Required (path_Child fldPath [''subnet'', ''name'']) ''Missing subnet name'']
         | Some subnetName \<Rightarrow>
             handle (findSubnetUuidByName A subnetName)
               (\<lambda>uuid. bnd (update_validated (\<lambda>sp. sp\<lparr>ps_Subnets :=
                    (ps_Subnets sp)[i := (ps_Subnets sp ! i)\<lparr>ri_Type := NutanixIdentifierUUID, ri_UUID := uuid\<rparr>]\<rparr>))
                  (\<lambda>_. ret []))
               (\<lambda>e. ret [field_Invalid (path_Child fldPath [''subnet'', ''name'']) (BadString subnetName)
                  (''Failed to find subnet with name '' @ strconv_Quote subnetName @ ''. error: '' @ err_Error e)]))
      else if ri_Type subnet = NutanixIdentifierUUID then
        (case nonempty (ri_UUID subnet) of
           None \<Rightarrow> ret [field_Required (path_Child fldPath [''subnet'', ''uuid'']) ''Missing subnet uuid'']
         | Some uuid \<Rightarrow>
             handle (call_api (C_Subnets_Get uuid) (a_Subnets_Get A uuid))
               (\<lambda>_. ret [])
               (\<lambda>e. ret [field_Invalid (path_Child fldPath [''subnet'', ''uuid'']) (BadString uuid)
                  (''Failed to find subnet with uuid '' @ uuid @ ''. error: '' @ err_Error e)]))
      else ret [field_Invalid (path_Child fldPath [''subnet'', ''type'']) (BadNamedString (ri_Type subnet))
        (''Invalid subnet identifier type, valid types are: '' @ strconv_Quote config_IdentifierName @ '', '' @
         strconv_Quote config_IdentifierUUID @ ''.'')])"

fun subnets_loop ::
  "'e api \<Rightarrow> field_path \<Rightarrow> nat \<Rightarrow> NutanixResourceIdentifier list \<Rightarrow> ('e, field_error list) scope_op" where
  "subnets_loop A fldPath i [] = ret []"
| "subnets_loop A fldPath i (subnet # rest) =
     bnd (validate_subnet A fldPath i subnet) (\<lambda>errs.
     bnd (subnets_loop A fldPath (Suc i) rest) (\<lambda>errs'. ret (errs @ errs')))"

definition validateSubnetsConfig :: "'e api \<Rightarrow> field_path \<Rightarrow> ('e, field_error list) scope_op" where
  "validateSubnetsConfig A fldPath = bnd validated (\<lambda>spec. subnets_loop A fldPath 0 (ps_Subnets spec))"

definition validateProjectConfig :: "'e api \<Rightarrow> field_path \<Rightarrow> ('e, field_error option) scope_op" where
  "validateProjectConfig A fldPath = bnd validated (\<lambda>spec.
     let project = ps_Project spec;
         no_client = (\<lambda>e. ret (Some (field_InternalError (path_Child fldPath [''project''])
            (fmt_Errorf_w ''creating v3 client for project lookup: '' e)))) in
     if ri_Type project = [] then ret None
     else if ri_Type project = NutanixIdentifierName then
       (case nonempty (ri_Name project) of
          None \<Rightarrow> ret (Some (field_Required (path_Child fldPath [''project'', ''name'']) ''Missing projct name''))
        | Some projectName \<Rightarrow>
            handle (getV3Client A)
              (\<lambda>_. handle (findProjectUuidByName A projectName)
                (\<lambda>uuid. bnd (update_validated (\<lambda>sp. sp\<lparr>ps_Project := (ps_Project sp)\<lparr>ri_Type := NutanixIdentifierUUID, ri_UUID := uuid\<rparr>\<rparr>))
                   (\<lambda>_. ret None))
                (\<lambda>e. ret (Some (field_Invalid (path_Child fldPath [''project'', ''name'']) (BadString projectName)
                   (''Failed to find project with name '' @ strconv_Quote projectName @ ''. error: '' @ err_Error e)))))
              no_client)
     else if ri_Type project = NutanixIdentifierUUID then
       (case nonempty (ri_UUID project) of
          None \<Rightarrow> ret (Some (field_Required (path_Child fldPath [''project'', ''uuid'']) ''Missing project uuid''))
        | Some projectUUID \<Rightarrow>
            handle (getV3Client A)
              (\<lambda>_. handle (getProjectByUUID A projectUUID)
                (\<lambda>_. ret None)
                (\<lambda>e. ret (Some (field_Invalid (path_Child fldPath [''project'', ''uuid'']) (BadString projectUUID)
                   (''Failed to find project with uuid '' @ projectUUID @ ''. error: '' @ err_Error e)))))
              no_client)
     else ret (Some (field_Invalid (path_Child fldPath [''project'', ''type'']) (BadNamedString (ri_Type project))
       (''Invalid project identifier type, valid types are: '' @ strconv_Quote config_IdentifierName @ '', '' @
        strconv_Quote config_IdentifierUUID @ ''.''))))"

section \<open>Categories and GPUs\<close>

fun categories_loop :: "'e api \<Rightarrow> field_path \<Rightarrow> NutanixCategory list \<Rightarrow> ('e, field_error list) scope_op" where
  "categories_loop A fldPath [] = ret []"
| "categories_loop A fldPath (category # rest) =
     handle (getCategoryValue A (cat_Key category) (cat_Value category))
       (\<lambda>_. categories_loop A fldPath rest)
       (\<lambda>e. bnd (categories_loop A fldPath rest) (\<lambda>errs.
          ret (field_Invalid (path_Child fldPath [''categories'']) (BadCategory (cat_Key category) (cat_Value category))
            (''Failed to find the category with key '' @ strconv_Quote (cat_Key category) @ '' and value '' @
             strconv_Quote (cat_Value category) @ ''. error: '' @ err_Error e) # errs)))"

definition validateCategoriesConfig :: "'e api \<Rightarrow> field_path \<Rightarrow> ('e, field_error list) scope_op" where
  "validateCategoriesConfig A fldPath = bnd validated (\<lambda>spec. categories_loop A fldPath (ps_Categories spec))"

text \<open>The errors of one requested GPU against the GPUs of the cluster.\<close>

definition gpu_errors :: "field_path \<Rightarrow> gpuDeviceInfo list \<Rightarrow> NutanixGPU \<Rightarrow> field_error list" where
  "gpu_errors fldPath peGPUs gpu =
     (if gpu_Type gpu = NutanixGPUIdentifierDeviceID then
        (case gpu_DeviceID gpu of
           None \<Rightarrow> [field_Required (path_Child fldPath [''gpus'', ''deviceID'']) ''missing gpu deviceID'']
         | Some devid \<Rightarrow> (case getGPUFromListConverged gpu peGPUs of
               Err e \<Rightarrow> [field_Invalid (path_Child fldPath [''gpus'', ''deviceID'']) (BadInt (sint devid)) (err_Error e)]
             | _ \<Rightarrow> []))
      else if gpu_Type gpu = NutanixGPUIdentifierName then
        (case nonempty (gpu_Name gpu) of
           None \<Rightarrow> [field_Required (path_Child fldPath [''gpus'', ''name'']) ''missing gpu name'']
         | Some name \<Rightarrow> (case getGPUFromListConverged gpu peGPUs of
               Err e \<Rightarrow> [field_Invalid (path_Child fldPath [''gpus'', ''name'']) (BadString name) (err_Error e)]
             | _ \<Rightarrow> []))
      else [field_Invalid (path_Child fldPath [''gpus'', ''type'']) (BadNamedString (gpu_Type gpu))
        (''invalid gpu identifier type, the valid values: '' @ strconv_Quote NutanixGPUIdentifierDeviceID @ '', '' @
         strconv_Quote NutanixGPUIdentifierName @ ''.'')])"

definition validateGPUsConfig :: "'e api \<Rightarrow> field_path \<Rightarrow> ('e, field_error list) scope_op" where
  "validateGPUsConfig A fldPath = bnd validated (\<lambda>spec.
     if ps_GPUs spec = [] then ret []
     else case nonempty (ri_UUID (ps_Cluster spec)) of
        None \<Rightarrow> ret [field_Invalid (path_Child fldPath [''cluster'', ''uuid''])
                      (BadString (ptr_Deref (ri_UUID (ps_Cluster spec)) []))
                      ''cluster UUID must be resolved before validating GPUs'']
      | Some peUUID \<Rightarrow>
          (let msg = ''no available GPUs found in Prism Element cluster (uuid: '' @ peUUID @ ''): '' in
           handle (getGPUsForPEConverged A peUUID)
             (\<lambda>peGPUs. if peGPUs = []
                then ret [field_InternalError (path_Child fldPath [''gpus'']) (fmt_Errorf_w_nil msg)]
                else ret (concat (map (gpu_errors fldPath peGPUs) (ps_GPUs spec))))
             (\<lambda>e. ret [field_InternalError (path_Child fldPath [''gpus'']) (fmt_Errorf_w msg e)])))"

section \<open>Data disks\<close>

definition disk_adapter_types :: "string list" where
  "disk_adapter_types = [NutanixDiskAdapterTypeSCSI, NutanixDiskAdapterTypeIDE, NutanixDiskAdapterTypePCI,
     NutanixDiskAdapterTypeSATA, NutanixDiskAdapterTypeSPAPR]"

definition cdrom_adapter_types :: "string list" where
  "cdrom_adapter_types = [NutanixDiskAdapterTypeIDE, NutanixDiskAdapterTypeSATA]"

definition quoted_list :: "string list \<Rightarrow> string" where
  "quoted_list xs = strings_Join (map strconv_Quote xs) '', ''"

definition device_errors :: "field_path \<Rightarrow> NutanixVMDiskDeviceProperties \<Rightarrow> field_error list" where
  "device_errors fldPath dp =
     (if dp_DeviceType dp = NutanixDiskDeviceTypeDisk then
        (if dp_AdapterType dp \<in> set disk_adapter_types then []
         else [field_Invalid (path_Child fldPath [''deviceProperties'', ''adapterType'']) (BadNamedString (dp_AdapterType dp))
            (''invalid adapter type for the '' @ strconv_Quote NutanixDiskDeviceTypeDisk @
             '' device type, the valid values: '' @ quoted_list disk_adapter_types @ ''.'')])
      else if dp_DeviceType dp = NutanixDiskDeviceTypeCDROM then
        (if dp_AdapterType dp \<in> set cdrom_adapter_types then []
         else [field_Invalid (path_Child fldPath [''deviceProperties'', ''adapterType'']) (BadNamedString (dp_AdapterType dp))
            (''invalid adapter type for the '' @ strconv_Quote NutanixDiskDeviceTypeCDROM @
             '' device type, the valid values: '' @ quoted_list cdrom_adapter_types @ ''.'')])
      else [field_Invalid (path_Child fldPath [''deviceProperties'', ''deviceType'']) (BadNamedString (dp_DeviceType dp))
            (''invalid device type, the valid types are: '' @
             quoted_list [NutanixDiskDeviceTypeDisk, NutanixDiskDeviceTypeCDROM] @ ''.'')]) @
     (if sint (dp_DeviceIndex dp) < 0
      then [field_Invalid (path_Child fldPath [''deviceProperties'', ''deviceIndex'']) (BadInt (sint (dp_DeviceIndex dp)))
            ''invalid device index, the valid values are non-negative integers.'']
      else [])"

definition storage_errors :: "field_path \<Rightarrow> NutanixVMStorageConfig \<Rightarrow> field_error list" where
  "storage_errors fldPath sc =
     (if sc_DiskMode sc \<noteq> NutanixDiskModeStandard \<and> sc_DiskMode sc \<noteq> NutanixDiskModeFlash
      then [field_Invalid (path_Child fldPath [''storageConfig'', ''diskMode'']) (BadNamedString (sc_DiskMode sc))
            (''invalid disk mode, the valid values: '' @
             quoted_list [NutanixDiskModeStandard, NutanixDiskModeFlash] @ ''.'')]
      else []) @
     (case sc_StorageContainer sc of
        None \<Rightarrow> []
      | Some ref \<Rightarrow>
          if sri_Type ref = NutanixIdentifierUUID then
            (if nonempty (sri_UUID ref) = None
             then [field_Required (path_Child fldPath [''storageConfig'', ''storageContainer'', ''uuid''])
                     ''missing storageContainer uuid.'']
             else [])
          else [field_Invalid (path_Child fldPath [''storageConfig'', ''storageContainer'', ''type'']) (BadNamedString (sri_Type ref))
                 (''invalid storageContainer reference type, the valid values: '' @ strconv_Quote NutanixIdentifierUUID @ ''.'')])"

text \<open>The checks of a data disk that need no call.\<close>

definition disk_errors :: "field_path \<Rightarrow> NutanixVMDisk \<Rightarrow> field_error list" where
  "disk_errors fldPath disk =
     (let diskSizeMib = GetMibValueOfQuantity (dd_DiskSize disk) in
      if diskSizeMib < 1024
      then [field_Invalid (path_Child fldPath [''dataDisks'', ''diskSize'']) (BadString (strconv_Itoa diskSizeMib @ ''Mi bytes''))
             ''The minimum diskSize is 1Gi bytes.'']
      else []) @
     (case dd_DeviceProperties disk of None \<Rightarrow> [] | Some dp \<Rightarrow> device_errors fldPath dp) @
     (case dd_StorageConfig disk of None \<Rightarrow> [] | Some sc \<Rightarrow> storage_errors fldPath sc)"

text \<open>
  The data source: a name is resolved and the result written through the disk's pointer, that
  is, into the disk at the loop's index.
\<close>

definition set_data_source ::
  "nat \<Rightarrow> string option \<Rightarrow> NutanixMachineProviderConfig \<Rightarrow> NutanixMachineProviderConfig" where
  "set_data_source i uuid sp = sp\<lparr>ps_DataDisks := (ps_DataDisks sp)[i :=
     (ps_DataDisks sp ! i)\<lparr>dd_DataSource := map_option
        (\<lambda>ds. ds\<lparr>ri_Type := NutanixIdentifierUUID, ri_UUID := uuid\<rparr>) (dd_DataSource (ps_DataDisks sp ! i))\<rparr>]\<rparr>"

definition validate_data_source ::
  "'e api \<Rightarrow> field_path \<Rightarrow> nat \<Rightarrow> NutanixResourceIdentifier \<Rightarrow> ('e, field_error list) scope_op" where
  "validate_data_source A fldPath i ds =
     (if ri_Type ds = NutanixIdentifierUUID then
        (case nonempty (ri_UUID ds) of
           None \<Rightarrow> ret [field_Required (path_Child fldPath [''dataDisks'', ''dataSource'', ''uuid'']) ''missing disk dataSource uuid.'']
         | Some uuid \<Rightarrow>
             handle (call_api (C_Images_Get uuid) (a_Images_Get A uuid))
               (\<lambda>_. ret [])
               (\<lambda>e. ret [field_Invalid (path_Child fldPath [''dataDisks'', ''dataSource'', ''uuid'']) (BadString uuid)
                  (''failed to find the dataSource image with uuid '' @ uuid @ ''. error: '' @ err_Error e)]))
      else if ri_Type ds = NutanixIdentifierName then
        (case nonempty (ri_Name ds) of
           None \<Rightarrow> ret [field_Required (path_Child fldPath [''dataDisks'', ''dataSource'', ''name'']) ''missing disk dataSource name.'']
         | Some name \<Rightarrow>
             handle (findImageUuidByName A name)
               (\<lambda>dsUUID. bnd (update_validated (set_data_source i dsUUID)) (\<lambda>_. ret []))
               (\<lambda>e. ret [field_Invalid (path_Child fldPath [''dataDisks'', ''dataSource'', ''name'']) (BadString name)
                  (''failed to find the dataSource image with name '' @ strconv_Quote name @ ''. error: '' @ err_Error e)]))
      else ret [field_Invalid (path_Child fldPath [''dataDisks'', ''dataSource'', ''type'']) (BadNamedString (ri_Type ds))
        (''invalid disk dataSource reference type, the valid values: '' @
         quoted_list [NutanixIdentifierUUID, NutanixIdentifierName] @ ''.'')])"

fun disks_loop :: "'e api \<Rightarrow> field_path \<Rightarrow> nat \<Rightarrow> NutanixVMDisk list \<Rightarrow> ('e, field_error list) scope_op" where
  "disks_loop A fldPath i [] = ret []"
| "disks_loop A fldPath i (disk # rest) =
     bnd (case dd_DataSource disk of
            None \<Rightarrow> ret []
          | Some ds \<Rightarrow> validate_data_source A fldPath i ds) (\<lambda>ds_errs.
     bnd (disks_loop A fldPath (Suc i) rest) (\<lambda>errs.
     ret (disk_errors fldPath disk @ ds_errs @ errs)))"

definition validateDataDisksConfig :: "'e api \<Rightarrow> field_path \<Rightarrow> ('e, field_error list) scope_op" where
  "validateDataDisksConfig A fldPath = bnd validated (\<lambda>spec. disks_loop A fldPath 0 (ps_DataDisks spec))"

section \<open>The whole spec\<close>

text \<open>The failure domain's cluster and subnets replace those of the spec.\<close>

definition apply_failure_domain ::
  "NutanixFailureDomain option \<Rightarrow> NutanixMachineProviderConfig \<Rightarrow> NutanixMachineProviderConfig" where
  "apply_failure_domain fd spec = (case fd of
       None \<Rightarrow> spec
     | Some d \<Rightarrow> spec\<lparr>ps_Cluster := getMachineResourceIdentifierFromFailureDomainConfig (fd_Cluster d),
                    ps_Subnets := map getMachineResourceIdentifierFromFailureDomainConfig (fd_Subnets d)\<rparr>)"

text \<open>The checks on CPU, memory, system disk and boot type.\<close>

definition size_errors :: "field_path \<Rightarrow> NutanixMachineProviderConfig \<Rightarrow> field_error list" where
  "size_errors fldPath spec =
     (if sint (ps_VCPUsPerSocket spec) < 1
      then [field_Invalid (path_Child fldPath [''vcpusPerSocket'']) (BadInt (sint (ps_VCPUsPerSocket spec)))
              ''The minimum number of vCPUs per socket of the VM is 1.'']
      else []) @
     (if sint (ps_VCPUSockets spec) < 1
      then [field_Invalid (path_Child fldPath [''vcpuSockets'']) (BadInt (sint (ps_VCPUSockets spec)))
              ''The minimum vCPU sockets of the VM is 1.'']
      else []) @
     (let memSizeMib = GetMibValueOfQuantity (ps_MemorySize spec) in
      if memSizeMib < 2 * 1024
      then [field_Invalid (path_Child fldPath [''memorySize'']) (BadString (strconv_Itoa memSizeMib @ ''Mib''))
              ''The minimum memorySize is 2Gi bytes'']
      else []) @
     (let diskSizeMib = GetMibValueOfQuantity (ps_SystemDiskSize spec) in
      if diskSizeMib < 20 * 1024
      then [field_Invalid (path_Child fldPath [''systemDiskSize'']) (BadString (strconv_Itoa (go_div diskSizeMib 1024) @ ''Gib''))
              ''The minimum systemDiskSize is 20Gi bytes'']
      else []) @
     (if ps_BootType spec \<in> {[], NutanixLegacyBoot, NutanixUEFIBoot, NutanixSecureBoot} then []
      else [field_Invalid (path_Child fldPath [''bootType'']) (BadNamedString (ps_BootType spec))
              (''Invalid bootType, the valid bootType values are: '' @ [dq, dq] @ '', '' @
               quoted_list [NutanixLegacyBoot, NutanixUEFIBoot, NutanixSecureBoot] @ ''.'')])"

definition spec_path :: field_path where
  "spec_path = [''spec'', ''providerSpec'', ''value'']"

definition validateVMConfig :: "'e api \<Rightarrow> ('e, field_error list) scope_op" where
  "validateVMConfig A =
     bnd (modify (\<lambda>s. s\<lparr>s_providerSpecValidated := Some (apply_failure_domain (s_failureDomain s) (s_providerSpec s))\<rparr>)) (\<lambda>_.
     bnd (validateClusterConfig A spec_path) (\<lambda>clusterErr.
     bnd (validateImageConfig A spec_path) (\<lambda>imageErr.
     bnd validated (\<lambda>spec.
     bnd (let numOfSubnets = length (ps_Subnets spec) in
          if numOfSubnets = 0 then ret [field_Required (path_Child spec_path [''subnets'']) ''Missing subnets'']
          else if numOfSubnets > 32 then ret [field_TooMany (path_Child spec_path [''subnets'']) (int numOfSubnets) 32]
          else validateSubnetsConfig A spec_path) (\<lambda>subnetErrs.
     bnd validated (\<lambda>spec.
     bnd (validateProjectConfig A spec_path) (\<lambda>projectErr.
     bnd (if ps_Categories spec \<noteq> [] then validateCategoriesConfig A spec_path else ret []) (\<lambda>categoryErrs.
     bnd (if ps_GPUs spec \<noteq> [] then validateGPUsConfig A spec_path else ret []) (\<lambda>gpuErrs.
     bnd (if ps_DataDisks spec \<noteq> [] then validateDataDisksConfig A spec_path else ret []) (\<lambda>diskErrs.
     ret (opt_list clusterErr @ opt_list imageErr @ subnetErrs @ size_errors spec_path spec @
          opt_list projectErr @ categoryErrs @ gpuErrs @ diskErrs)))))))))))"

section \<open>Frames: validation only reads, and only writes the validated copy\<close>

lemma validateClusterConfig_rel [frame_rules]: "keeps (scope_rel is_read) (validateClusterConfig A p)"
  unfolding validateClusterConfig_def Let_def by (intro frame_rules) simp_all

lemma validateImageConfig_rel [frame_rules]: "keeps (scope_rel is_read) (validateImageConfig A p)"
  unfolding validateImageConfig_def Let_def by (intro frame_rules) simp_all

lemma validate_subnet_rel [frame_rules]: "keeps (scope_rel is_read) (validate_subnet A p i r)"
  unfolding validate_subnet_def by (intro frame_rules) simp_all

lemma subnets_loop_rel [frame_rules]: "keeps (scope_rel is_read) (subnets_loop A p i rs)"
proof (induction rs arbitrary: i)
  case (Cons r rs)
  show ?case by (simp only: subnets_loop.simps) (intro frame_rules Cons)
qed (simp add: frame_rules)

lemma validateSubnetsConfig_rel [frame_rules]: "keeps (scope_rel is_read) (validateSubnetsConfig A p)"
  unfolding validateSubnetsConfig_def by (intro frame_rules)

lemma validateProjectConfig_rel [frame_rules]: "keeps (scope_rel is_read) (validateProjectConfig A p)"
  unfolding validateProjectConfig_def Let_def by (intro frame_rules) simp_all

lemma categories_loop_rel [frame_rules]: "keeps (scope_rel is_read) (categories_loop A p cs)"
proof (induction cs)
  case (Cons c cs)
  show ?case by (simp only: categories_loop.simps) (intro frame_rules Cons)
qed (simp add: frame_rules)

lemma validateCategoriesConfig_rel [frame_rules]: "keeps (scope_rel is_read) (validateCategoriesConfig A p)"
  unfolding validateCategoriesConfig_def by (intro frame_rules)

lemma validateGPUsConfig_rel [frame_rules]: "keeps (scope_rel is_read) (validateGPUsConfig A p)"
  unfolding validateGPUsConfig_def Let_def by (intro frame_rules)

lemma validate_data_source_rel [frame_rules]: "keeps (scope_rel is_read) (validate_data_source A p i ds)"
  unfolding validate_data_source_def by (intro frame_rules) simp_all

lemma disks_loop_rel [frame_rules]: "keeps (scope_rel is_read) (disks_loop A p i ds)"
proof (induction ds arbitrary: i)
  case (Cons d ds)
  show ?case by (simp only: disks_loop.simps) (intro frame_rules Cons)
qed (simp add: frame_rules)

lemma validateDataDisksConfig_rel [frame_rules]: "keeps (scope_rel is_read) (validateDataDisksConfig A p)"
  unfolding validateDataDisksConfig_def by (intro frame_rules)

lemma start_validation_rel [frame_rules]:
  "keeps (scope_rel P) (modify (\<lambda>s. s\<lparr>s_providerSpecValidated := f s\<rparr>))"
  by (auto simp: keeps_def modify_def scope_rel_def)

lemma validateVMConfig_rel [frame_rules]: "keeps (scope_rel is_read) (validateVMConfig A)"
  unfolding validateVMConfig_def Let_def by (intro frame_rules)

section \<open>Checking a reference, as an interface\<close>

text \<open>
  Clusters, images, projects, subnets and the data sources of disks are checked the same way:
  a name is looked up and its uuid written into the validated spec, a uuid is fetched, any
  other type is an error.  The contract of one such check, over the reference \<open>ref\<close> it looks
  at, the error-free result \<open>fine\<close>, the write \<open>put\<close> and the two lookups.
\<close>

locale ref_check =
  fixes run :: "('e, 'r) scope_op"
    and fine :: 'r
    and optional :: bool
    and ref :: "NutanixMachineProviderConfig \<Rightarrow> NutanixResourceIdentifier"
    and put :: "string option \<Rightarrow> NutanixMachineProviderConfig \<Rightarrow> NutanixMachineProviderConfig"
    and find :: "string \<Rightarrow> ('e, string option) scope_op"
    and fetch :: "string \<Rightarrow> ('e, 'g) scope_op"
  assumes unset: "s_providerSpecValidated s = Some sp \<Longrightarrow> ri_Type (ref sp) = [] \<Longrightarrow> optional \<Longrightarrow> run s = (Ok fine, s)"
    and no_name: "s_providerSpecValidated s = Some sp \<Longrightarrow> ri_Type (ref sp) = NutanixIdentifierName \<Longrightarrow>
      nonempty (ri_Name (ref sp)) = None \<Longrightarrow> \<exists>e. e \<noteq> fine \<and> run s = (Ok e, s)"
    and name_found: "s_providerSpecValidated s = Some sp \<Longrightarrow> ri_Type (ref sp) = NutanixIdentifierName \<Longrightarrow>
      nonempty (ri_Name (ref sp)) = Some n \<Longrightarrow> find n s = (Ok v, t) \<Longrightarrow>
      run s = (Ok fine, t\<lparr>s_providerSpecValidated := Some (put v sp)\<rparr>)"
    and name_lost: "s_providerSpecValidated s = Some sp \<Longrightarrow> ri_Type (ref sp) = NutanixIdentifierName \<Longrightarrow>
      nonempty (ri_Name (ref sp)) = Some n \<Longrightarrow> find n s = (Err e, t) \<Longrightarrow> \<exists>x. x \<noteq> fine \<and> run s = (Ok x, t)"
    and name_panic: "s_providerSpecValidated s = Some sp \<Longrightarrow> ri_Type (ref sp) = NutanixIdentifierName \<Longrightarrow>
      nonempty (ri_Name (ref sp)) = Some n \<Longrightarrow> find n s = (Panic, t) \<Longrightarrow> run s = (Panic, t)"
    and no_uuid: "s_providerSpecValidated s = Some sp \<Longrightarrow> ri_Type (ref sp) = NutanixIdentifierUUID \<Longrightarrow>
      nonempty (ri_UUID (ref sp)) = None \<Longrightarrow> \<exists>e. e \<noteq> fine \<and> run s = (Ok e, s)"
    and uuid_found: "s_providerSpecValidated s = Some sp \<Longrightarrow> ri_Type (ref sp) = NutanixIdentifierUUID \<Longrightarrow>
      nonempty (ri_UUID (ref sp)) = Some u \<Longrightarrow> fetch u s = (Ok g, t) \<Longrightarrow> run s = (Ok fine, t)"
    and uuid_lost: "s_providerSpecValidated s = Some sp \<Longrightarrow> ri_Type (ref sp) = NutanixIdentifierUUID \<Longrightarrow>
      nonempty (ri_UUID (ref sp)) = Some u \<Longrightarrow> fetch u s = (Err e, t) \<Longrightarrow> \<exists>x. x \<noteq> fine \<and> run s = (Ok x, t)"
    and bad_type: "s_providerSpecValidated s = Some sp \<Longrightarrow>
      ri_Type (ref sp) \<notin> {NutanixIdentifierName, NutanixIdentifierUUID} \<Longrightarrow> \<not> (optional \<and> ri_Type (ref sp) = []) \<Longrightarrow>
      \<exists>e. e \<noteq> fine \<and> run s = (Ok e, s)"
    and find_keeps: "find n s = (r, t) \<Longrightarrow> s_providerSpecValidated t = s_providerSpecValidated s"
    and fetch_keeps: "fetch u s = (q, t) \<Longrightarrow> s_providerSpecValidated t = s_providerSpecValidated s"
    and fetch_returns: "fetch u s \<noteq> (Panic, t)"
begin

text \<open>All that a check can do, in one case rule.\<close>

lemma name_cases:
  assumes val: "s_providerSpecValidated s = Some sp" and run: "run s = (r, s')" and n: "ri_Type (ref sp) = NutanixIdentifierName"
  obtains (named) nm u t where "nonempty (ri_Name (ref sp)) = Some nm" "find nm s = (Ok u, t)" "r = Ok fine"
        "s_providerSpecValidated s' = Some (put u sp)"
    | (rejected) e where "r = Ok e" "e \<noteq> fine" "s_providerSpecValidated s' = Some sp"
    | (panic) nm where "find nm s = (Panic, s')" "r = Panic"
proof (cases "nonempty (ri_Name (ref sp))")
  case None
  with no_name [OF val n] run val rejected show thesis by auto
next
  case (Some nm)
  obtain q t where f: "find nm s = (q, t)" by fastforce
  show thesis
  proof (cases q)
    case (Ok u)
    with f name_found [OF val n Some] run named [OF Some] show thesis by simp
  next
    case (Err e)
    with f name_lost [OF val n Some] run find_keeps [OF f] val rejected show thesis by fastforce
  next
    case Panic
    with f name_panic [OF val n Some] run panic show thesis by simp
  qed
qed

lemma uuid_cases:
  assumes val: "s_providerSpecValidated s = Some sp" and run: "run s = (r, s')" and u: "ri_Type (ref sp) = NutanixIdentifierUUID"
  obtains (uuid) uu g where "nonempty (ri_UUID (ref sp)) = Some uu" "fetch uu s = (Ok g, s')" "r = Ok fine"
        "s_providerSpecValidated s' = Some sp"
    | (rejected) e where "r = Ok e" "e \<noteq> fine" "s_providerSpecValidated s' = Some sp"
proof (cases "nonempty (ri_UUID (ref sp))")
  case None
  with no_uuid [OF val u] run val rejected show thesis by auto
next
  case (Some uu)
  obtain q t where f: "fetch uu s = (q, t)" by fastforce
  show thesis
  proof (cases q)
    case (Ok g)
    with f uuid_found [OF val u Some] run fetch_keeps [OF f] val uuid [OF Some] show thesis by simp
  next
    case (Err e)
    with f uuid_lost [OF val u Some] run fetch_keeps [OF f] val rejected show thesis by fastforce
  next
    case Panic
    with f fetch_returns show thesis by simp
  qed
qed

lemma check_cases:
  assumes val: "s_providerSpecValidated s = Some sp" and run: "run s = (r, s')"
  obtains (absent) "optional" "ri_Type (ref sp) = []" "r = Ok fine" "s' = s"
    | (named) n u t where "ri_Type (ref sp) = NutanixIdentifierName" "nonempty (ri_Name (ref sp)) = Some n"
        "find n s = (Ok u, t)" "r = Ok fine" "s_providerSpecValidated s' = Some (put u sp)"
    | (uuid) u g where "ri_Type (ref sp) = NutanixIdentifierUUID" "nonempty (ri_UUID (ref sp)) = Some u"
        "fetch u s = (Ok g, s')" "r = Ok fine" "s_providerSpecValidated s' = Some sp"
    | (rejected) e where "r = Ok e" "e \<noteq> fine" "s_providerSpecValidated s' = Some sp"
    | (panic) n where "find n s = (Panic, s')" "r = Panic"
proof -
  consider (n) "ri_Type (ref sp) = NutanixIdentifierName" | (u) "ri_Type (ref sp) = NutanixIdentifierUUID"
    | (o) "optional" "ri_Type (ref sp) = []"
    | (b) "ri_Type (ref sp) \<notin> {NutanixIdentifierName, NutanixIdentifierUUID}" "\<not> (optional \<and> ri_Type (ref sp) = [])"
    by blast
  then show thesis
  proof cases
    case n
    from val run n show thesis by (rule name_cases) (rule named [OF n] rejected panic; assumption)+
  next
    case u
    from val run u show thesis by (rule uuid_cases) (rule uuid [OF u] rejected; assumption)+
  next
    case o
    with unset [OF val] run absent show thesis by simp
  next
    case b
    with bad_type [OF val] run val rejected show thesis by auto
  qed
qed

lemma never_Err: "s_providerSpecValidated s = Some sp \<Longrightarrow> run s \<noteq> (Err e, s')"
  by (rule notI) (erule (1) check_cases; simp)

lemma panics_only_from_find:
  "s_providerSpecValidated s = Some sp \<Longrightarrow> (\<And>n t. find n s \<noteq> (Panic, t)) \<Longrightarrow> run s \<noteq> (Panic, s')"
  by (rule notI) (erule (1) check_cases; simp)

end

text \<open>The writes of the five checks.\<close>

definition uuid_ref :: "string option \<Rightarrow> NutanixResourceIdentifier \<Rightarrow> NutanixResourceIdentifier" where
  "uuid_ref u r = r\<lparr>ri_Type := NutanixIdentifierUUID, ri_UUID := u\<rparr>"

lemma identifier_types [simp]:
  "NutanixIdentifierName \<noteq> NutanixIdentifierUUID" "NutanixIdentifierUUID \<noteq> NutanixIdentifierName"
  "NutanixIdentifierName \<noteq> []" "NutanixIdentifierUUID \<noteq> []"
  by (simp_all add: NutanixIdentifierName_def NutanixIdentifierUUID_def)

lemma uuid_ref_simps [simp]:
  "ri_Type (uuid_ref u r) = NutanixIdentifierUUID" "ri_UUID (uuid_ref u r) = u" "ri_Name (uuid_ref u r) = ri_Name r"
  by (simp_all add: uuid_ref_def)

lemma bnd_validated: "s_providerSpecValidated s = Some sp \<Longrightarrow> bnd validated f s = f sp s"
  by (simp add: bnd_eq_Ok validated_eq)

lemma bnd_update_validated:
  "s_providerSpecValidated s = Some sp \<Longrightarrow>
     bnd (update_validated g) f s = f () (s\<lparr>s_providerSpecValidated := Some (g sp)\<rparr>)"
  by (simp add: bnd_eq_Ok update_validated_eq)

lemma call_api_validated:
  fixes s :: "'e machineScope"
  shows "call_api c f s = (r, t) \<Longrightarrow> s_providerSpecValidated t = s_providerSpecValidated s"
  by (auto simp: call_api_def split: prod.splits)

lemmas check_simps = bnd_validated bnd_update_validated op_eqs uuid_ref_def ret_def

definition find_cluster :: "'e api \<Rightarrow> string \<Rightarrow> ('e, string option) scope_op" where
  "find_cluster A n = bnd (findClusterUuidByName A n) (\<lambda>u. ret (Some u))"

definition find_project :: "'e api \<Rightarrow> string \<Rightarrow> ('e, string option) scope_op" where
  "find_project A n = bnd (getV3Client A) (\<lambda>_. findProjectUuidByName A n)"

definition fetch_project :: "'e api \<Rightarrow> string \<Rightarrow> ('e, Project) scope_op" where
  "fetch_project A u = bnd (getV3Client A) (\<lambda>_. getProjectByUUID A u)"

lemma find_keeps_validated:
  fixes s t :: "'e machineScope"
  shows "findClusterUuidByName A n s = (q, t) \<Longrightarrow> s_providerSpecValidated t = s_providerSpecValidated s"
    and "findImageUuidByName A n s = (r, t) \<Longrightarrow> s_providerSpecValidated t = s_providerSpecValidated s"
    and "findSubnetUuidByName A n s = (r, t) \<Longrightarrow> s_providerSpecValidated t = s_providerSpecValidated s"
    and "findProjectUuidByName A n s = (r, t) \<Longrightarrow> s_providerSpecValidated t = s_providerSpecValidated s"
    and "getProjectByUUID A n s = (p, t) \<Longrightarrow> s_providerSpecValidated t = s_providerSpecValidated s"
  by (rule world_op_validated, rule frame_rules, assumption)+

lemma find_cluster_validated:
  "find_cluster A n s = (r, t) \<Longrightarrow> s_providerSpecValidated t = s_providerSpecValidated s"
  unfolding find_cluster_def by (erule world_op_validated [of is_read, rotated]) (intro frame_rules)

lemma find_project_validated:
  "find_project A n s = (r, t) \<Longrightarrow> s_providerSpecValidated t = s_providerSpecValidated s"
  "fetch_project A n s = (q, t) \<Longrightarrow> s_providerSpecValidated t = s_providerSpecValidated s"
  by (auto simp: find_project_def fetch_project_def bnd_def handle_def raise_def
      dest!: getV3Client_validated(1) find_keeps_validated split: prod.splits outcome.splits)

interpretation cluster_check: ref_check "validateClusterConfig A p" None False ps_Cluster
    "\<lambda>u sp. sp\<lparr>ps_Cluster := uuid_ref u (ps_Cluster sp)\<rparr>" "find_cluster A"
    "\<lambda>u. call_api (C_Clusters_Get u) (a_Clusters_Get A u)" for A p
proof (unfold_locales, goal_cases)
  case (3 s sp n u t)
  then obtain v where "u = Some v" and f: "findClusterUuidByName A n s = (Ok v, t)"
    by (auto simp: find_cluster_def ret_def elim: bnd_OkE)
  with 3 find_keeps_validated(1) [OF f] show ?case
    by (simp add: validateClusterConfig_def check_simps)
next
  case (4 s sp n e t)
  then have "findClusterUuidByName A n s = (Err e, t)"
    by (auto simp: find_cluster_def op_defs split: prod.splits outcome.splits)
  with 4 show ?case by (simp add: validateClusterConfig_def check_simps)
next
  case (5 s sp n t)
  then have "findClusterUuidByName A n s = (Panic, t)"
    by (auto simp: find_cluster_def op_defs split: prod.splits outcome.splits)
  with 5 show ?case by (simp add: validateClusterConfig_def bnd_validated handle_def)
qed (auto simp: validateClusterConfig_def check_simps call_api_not_Panic find_cluster_validated call_api_validated)

interpretation image_check: ref_check "validateImageConfig A p" None False ps_Image
    "\<lambda>u sp. sp\<lparr>ps_Image := uuid_ref u (ps_Image sp)\<rparr>" "findImageUuidByName A"
    "\<lambda>u. call_api (C_Images_Get u) (a_Images_Get A u)" for A p
proof (unfold_locales, goal_cases)
  case (3 s sp n u t)
  with find_keeps_validated(2) [OF 3(4)] show ?case by (simp add: validateImageConfig_def check_simps)
next
  case (5 s sp n t)
  then show ?case by (simp add: image_lookup.find_not_Panic)
qed (auto simp: validateImageConfig_def check_simps call_api_not_Panic find_keeps_validated call_api_validated)

interpretation subnet_check: ref_check "validate_subnet A p i r" "[]" False "\<lambda>_. r"
    "\<lambda>u sp. sp\<lparr>ps_Subnets := (ps_Subnets sp)[i := uuid_ref u (ps_Subnets sp ! i)]\<rparr>" "findSubnetUuidByName A"
    "\<lambda>u. call_api (C_Subnets_Get u) (a_Subnets_Get A u)" for A p i r
proof (unfold_locales, goal_cases)
  case (3 s sp n u t)
  with find_keeps_validated(3) [OF 3(4)] show ?case by (simp add: validate_subnet_def check_simps)
next
  case (5 s sp n t)
  then show ?case by (simp add: subnet_lookup.find_not_Panic)
qed (auto simp: validate_subnet_def check_simps call_api_not_Panic find_keeps_validated call_api_validated)

interpretation data_source_check: ref_check "validate_data_source A p i r" "[]" False "\<lambda>_. r"
    "set_data_source i" "findImageUuidByName A"
    "\<lambda>u. call_api (C_Images_Get u) (a_Images_Get A u)" for A p i r
proof (unfold_locales, goal_cases)
  case (3 s sp n u t)
  with find_keeps_validated(2) [OF 3(4)] show ?case by (simp add: validate_data_source_def check_simps)
next
  case (5 s sp n t)
  then show ?case by (simp add: image_lookup.find_not_Panic)
qed (auto simp: validate_data_source_def check_simps call_api_not_Panic find_keeps_validated call_api_validated)

lemma getProjectByUUID_not_Panic: "getProjectByUUID A u s \<noteq> (Panic, t)"
  by (simp add: getProjectByUUID_def call_api_not_Panic)

lemma client_then_cases:
  assumes "bnd (getV3Client A) (\<lambda>_. m) s = (r, t)"
  obtains (client) e where "getV3Client A s = (Err e, t)" "r = Err e"
    | (found) s1 where "getV3Client A s = (Ok (), s1)" "m s1 = (r, t)"
  using assms by (auto simp: op_defs dest: getV3Client_validated(2) split: prod.splits outcome.splits)

interpretation project_check: ref_check "validateProjectConfig A p" None True ps_Project
    "\<lambda>u sp. sp\<lparr>ps_Project := uuid_ref u (ps_Project sp)\<rparr>" "find_project A" "fetch_project A" for A p
proof (unfold_locales, goal_cases)
  case (3 s sp n u t)
  with find_project_validated(1) [OF 3(4)] show ?case unfolding find_project_def
    by (auto elim!: client_then_cases simp: validateProjectConfig_def check_simps)
next
  case (4 s sp n e t)
  then show ?case unfolding find_project_def
    by (auto elim!: client_then_cases simp: validateProjectConfig_def check_simps)
next
  case (5 s sp n t)
  then show ?case unfolding find_project_def
    by (auto elim!: client_then_cases simp: validateProjectConfig_def bnd_validated handle_def)
next
  case (7 s sp u g t)
  then show ?case unfolding fetch_project_def
    by (auto elim!: client_then_cases simp: validateProjectConfig_def check_simps)
next
  case (8 s sp u e t)
  then show ?case unfolding fetch_project_def
    by (auto elim!: client_then_cases simp: validateProjectConfig_def check_simps)
next
  case (12 u s t)
  then show ?case by (auto simp: fetch_project_def getProjectByUUID_not_Panic elim: client_then_cases)
qed (auto simp: validateProjectConfig_def check_simps find_project_validated)

section \<open>What validation guarantees\<close>

text \<open>
  \<open>resolves r r'\<close>: the accepted reference \<open>r\<close> names something, and \<open>r'\<close> is it with a uuid: a uuid
  reference is unchanged, a name reference keeps its name and carries the uuid found.
\<close>

definition resolves :: "NutanixResourceIdentifier \<Rightarrow> NutanixResourceIdentifier \<Rightarrow> bool" where
  "resolves r r' \<longleftrightarrow>
     (ri_Type r = NutanixIdentifierUUID \<and> nonempty (ri_UUID r) \<noteq> None \<and> r' = r) \<or>
     (ri_Type r = NutanixIdentifierName \<and> nonempty (ri_Name r) \<noteq> None \<and> r' = uuid_ref (ri_UUID r') r)"

lemma resolves_Type: "resolves r r' \<Longrightarrow> ri_Type r' = NutanixIdentifierUUID"
  by (auto simp: resolves_def) (metis uuid_ref_simps(1))

lemma resolves_name [intro]:
  "ri_Type r = NutanixIdentifierName \<Longrightarrow> nonempty (ri_Name r) = Some n \<Longrightarrow> resolves r (uuid_ref u r)"
  by (simp add: resolves_def)

lemma resolves_uuid [intro]:
  "ri_Type r = NutanixIdentifierUUID \<Longrightarrow> nonempty (ri_UUID r) = Some u \<Longrightarrow> resolves r r"
  by (simp add: resolves_def)

lemma nonempty_Some [simp]: "nonempty p = Some x \<longleftrightarrow> p = Some x \<and> x \<noteq> []"
  by (auto simp: nonempty_def split: option.splits if_splits)

lemma validateClusterConfig_effect:
  assumes "s_providerSpecValidated s = Some sp" and "validateClusterConfig A p s = (r, s')"
  obtains x c where "r = Ok x" "s_providerSpecValidated s' = Some (sp\<lparr>ps_Cluster := c\<rparr>)"
    "x = None \<longrightarrow> resolves (ps_Cluster sp) c \<and> ri_UUID c \<noteq> None"
  using assms
proof (cases rule: cluster_check.check_cases)
  case (named n u t)
  then have "u \<noteq> None" by (auto simp: find_cluster_def ret_def elim: bnd_OkE)
  with named show thesis by (intro that [of None "uuid_ref u (ps_Cluster sp)"]) auto
next
  case (uuid u g)
  then show thesis by (intro that [of None "ps_Cluster sp"]) auto
next
  case (rejected e)
  then show thesis by (intro that [of e "ps_Cluster sp"]) auto
next
  case (panic n)
  then show thesis
    by (auto simp: find_cluster_def findClusterUuidByName_def call_api_not_Panic op_defs
        split: prod.splits outcome.splits option.splits)
qed simp

lemma validateImageConfig_effect:
  assumes "s_providerSpecValidated s = Some sp" and "validateImageConfig A p s = (r, s')"
  obtains x c where "r = Ok x" "s_providerSpecValidated s' = Some (sp\<lparr>ps_Image := c\<rparr>)"
    "x = None \<longrightarrow> resolves (ps_Image sp) c"
  using assms
proof (cases rule: image_check.check_cases)
  case (named n u t)
  then show thesis by (intro that [of None "uuid_ref u (ps_Image sp)"]) auto
next
  case (uuid u g)
  then show thesis by (intro that [of None "ps_Image sp"]) auto
next
  case (rejected e)
  then show thesis by (intro that [of e "ps_Image sp"]) auto
next
  case (panic n)
  then show thesis by (simp add: image_lookup.find_not_Panic)
qed simp

text \<open>A project may be absent; a project entity without metadata is a nil dereference.\<close>

lemma validateProjectConfig_effect:
  assumes "s_providerSpecValidated s = Some sp" and "validateProjectConfig A p s = (r, s')"
  obtains "r = Panic"
    | x c where "r = Ok x" "s_providerSpecValidated s' = Some (sp\<lparr>ps_Project := c\<rparr>)"
      "x = None \<longrightarrow> (ri_Type (ps_Project sp) = [] \<and> c = ps_Project sp) \<or> resolves (ps_Project sp) c"
  using assms
proof (cases rule: project_check.check_cases)
  case absent
  then show thesis using assms(1) by (intro that(2) [of None "ps_Project sp"]) auto
next
  case (named n u t)
  then show thesis by (intro that(2) [of None "uuid_ref u (ps_Project sp)"]) auto
next
  case (uuid u g)
  then show thesis by (intro that(2) [of None "ps_Project sp"]) auto
next
  case (rejected e)
  then show thesis by (intro that(2) [of e "ps_Project sp"]) auto
next
  case (panic n)
  then show thesis by (intro that(1))
qed

text \<open>One subnet: the reference at the loop's index is replaced.\<close>

lemma validate_subnet_effect:
  assumes "s_providerSpecValidated s = Some sp" and "validate_subnet A p i (ps_Subnets sp ! i) s = (r, s')"
  obtains x c where "r = Ok x" "s_providerSpecValidated s' = Some (sp\<lparr>ps_Subnets := (ps_Subnets sp)[i := c]\<rparr>)"
    "x = [] \<longrightarrow> resolves (ps_Subnets sp ! i) c"
  using assms
proof (cases rule: subnet_check.check_cases)
  case (named n u t)
  then show thesis by (intro that [of "[]" "uuid_ref u (ps_Subnets sp ! i)"]) auto
next
  case (uuid u g)
  then show thesis by (intro that [of "[]" "ps_Subnets sp ! i"]) auto
next
  case (rejected e)
  then show thesis by (intro that [of e "ps_Subnets sp ! i"]) auto
next
  case (panic n)
  then show thesis by (simp add: subnet_lookup.find_not_Panic)
qed simp

lemma subnets_loop_effect:
  assumes "s_providerSpecValidated s = Some sp" and "ps_Subnets sp = pre @ rs"
    and "subnets_loop A p (length pre) rs s = (r, s')"
  shows "\<exists>errs rs'. r = Ok errs \<and> s_providerSpecValidated s' = Some (sp\<lparr>ps_Subnets := pre @ rs'\<rparr>) \<and>
    length rs' = length rs \<and> (errs = [] \<longrightarrow> list_all2 resolves rs rs')"
  using assms
proof (induction rs arbitrary: pre s sp r s')
  case Nil
  then show ?case by (auto simp: ret_def)
next
  case (Cons r0 rs)
  obtain q t where run: "validate_subnet A p (length pre) r0 s = (q, t)" by fastforce
  have r0: "ps_Subnets sp ! length pre = r0" using Cons.prems(2) by (simp add: nth_append)
  obtain x c where q: "q = Ok x" and v: "s_providerSpecValidated t = Some (sp\<lparr>ps_Subnets := (ps_Subnets sp)[length pre := c]\<rparr>)"
    and res: "x = [] \<longrightarrow> resolves r0 c"
    using validate_subnet_effect [OF Cons.prems(1), of A p "length pre" q t] run r0 by metis
  have upd: "(ps_Subnets sp)[length pre := c] = (pre @ [c]) @ rs" using Cons.prems(2) by simp
  obtain q' t' where rest: "subnets_loop A p (length (pre @ [c])) rs t = (q', t')" by fastforce
  obtain errs rs' where "q' = Ok errs" "s_providerSpecValidated t' = Some (sp\<lparr>ps_Subnets := (pre @ [c]) @ rs'\<rparr>)"
    "length rs' = length rs" "errs = [] \<longrightarrow> list_all2 resolves rs rs'"
    using Cons.IH [OF v _ rest] upd by auto
  moreover from this Cons.prems(3) run q rest have "r = Ok (x @ errs)" "s' = t'" by (auto simp: bnd_eq_Ok ret_def)
  ultimately show ?case using res by (intro exI [of _ "x @ errs"] exI [of _ "c # rs'"]) simp
qed

lemma nonempty_None [simp]: "nonempty p = None \<longleftrightarrow> p = None \<or> p = Some []"
  by (auto simp: nonempty_def split: option.splits)

text \<open>Data disks: the static checks as a predicate, and the effect on the data source.\<close>

definition device_ok :: "NutanixVMDiskDeviceProperties \<Rightarrow> bool" where
  "device_ok dp \<longleftrightarrow> 0 \<le> sint (dp_DeviceIndex dp) \<and>
     (dp_DeviceType dp = NutanixDiskDeviceTypeDisk \<and> dp_AdapterType dp \<in> set disk_adapter_types \<or>
      dp_DeviceType dp = NutanixDiskDeviceTypeCDROM \<and> dp_AdapterType dp \<in> set cdrom_adapter_types)"

definition storage_ok :: "NutanixVMStorageConfig \<Rightarrow> bool" where
  "storage_ok sc \<longleftrightarrow> sc_DiskMode sc \<in> {NutanixDiskModeStandard, NutanixDiskModeFlash} \<and>
     (case sc_StorageContainer sc of None \<Rightarrow> True
      | Some ref \<Rightarrow> sri_Type ref = NutanixIdentifierUUID \<and> nonempty (sri_UUID ref) \<noteq> None)"

definition disk_ok :: "NutanixVMDisk \<Rightarrow> bool" where
  "disk_ok d \<longleftrightarrow> 2 ^ 30 \<le> sint (dd_DiskSize d) \<and>
     pred_option device_ok (dd_DeviceProperties d) \<and> pred_option storage_ok (dd_StorageConfig d)"

lemma device_types [simp]:
  "NutanixDiskDeviceTypeDisk \<noteq> NutanixDiskDeviceTypeCDROM" "NutanixDiskDeviceTypeCDROM \<noteq> NutanixDiskDeviceTypeDisk"
  by (simp_all add: NutanixDiskDeviceTypeDisk_def NutanixDiskDeviceTypeCDROM_def)

lemma device_errors_Nil: "device_errors p dp = [] \<longleftrightarrow> device_ok dp"
  by (auto simp: device_errors_def device_ok_def)

lemma storage_errors_Nil: "storage_errors p sc = [] \<longleftrightarrow> storage_ok sc"
  by (auto simp: storage_errors_def storage_ok_def split: option.splits)

lemma disk_errors_Nil: "disk_errors p d = [] \<longleftrightarrow> disk_ok d"
  using GetMib_ge_iff [of 1024 "dd_DiskSize d"]
  by (auto simp: disk_errors_def disk_ok_def Let_def device_errors_Nil storage_errors_Nil split: option.splits)

definition disk_resolves :: "NutanixVMDisk \<Rightarrow> NutanixVMDisk \<Rightarrow> bool" where
  "disk_resolves d d' \<longleftrightarrow> d' = d\<lparr>dd_DataSource := dd_DataSource d'\<rparr> \<and>
     rel_option resolves (dd_DataSource d) (dd_DataSource d')"

lemma data_source_effect:
  assumes "s_providerSpecValidated s = Some sp" and "dd_DataSource (ps_DataDisks sp ! i) = Some ds"
    and "validate_data_source A p i ds s = (r, s')"
  obtains x d where "r = Ok x" "s_providerSpecValidated s' = Some (sp\<lparr>ps_DataDisks := (ps_DataDisks sp)[i := d]\<rparr>)"
    "x = [] \<longrightarrow> disk_resolves (ps_DataDisks sp ! i) d"
  using assms(1,3)
proof (cases rule: data_source_check.check_cases)
  case (named n u t)
  let ?d = "(ps_DataDisks sp ! i)\<lparr>dd_DataSource := Some (uuid_ref u ds)\<rparr>"
  from named assms(2) show thesis
    by (intro that [of "[]" ?d]) (auto simp: set_data_source_def disk_resolves_def uuid_ref_def [symmetric])
next
  case (uuid u g)
  then have "disk_resolves (ps_DataDisks sp ! i) (ps_DataDisks sp ! i)"
    using assms(2) by (auto simp: disk_resolves_def)
  with uuid show thesis by (intro that [of "[]" "ps_DataDisks sp ! i"]) auto
next
  case (rejected e)
  then show thesis by (intro that [of e "ps_DataDisks sp ! i"]) auto
next
  case (panic n)
  then show thesis by (simp add: image_lookup.find_not_Panic)
qed simp

lemma disk_step_effect:
  assumes "s_providerSpecValidated s = Some sp" and "ps_DataDisks sp ! i = d"
    and "(case dd_DataSource d of None \<Rightarrow> ret [] | Some ds \<Rightarrow> validate_data_source A p i ds) s = (r, s')"
  obtains x d' where "r = Ok x" "s_providerSpecValidated s' = Some (sp\<lparr>ps_DataDisks := (ps_DataDisks sp)[i := d']\<rparr>)"
    "x = [] \<longrightarrow> disk_resolves d d'"
proof (cases "dd_DataSource d")
  case None
  with assms show thesis by (intro that [of "[]" d]) (auto simp: ret_def disk_resolves_def)
next
  case (Some ds)
  with assms show thesis by (auto elim: data_source_effect intro: that)
qed

lemma disks_loop_effect:
  assumes "s_providerSpecValidated s = Some sp" and "ps_DataDisks sp = pre @ ds"
    and "disks_loop A p (length pre) ds s = (r, s')"
  shows "\<exists>errs ds'. r = Ok errs \<and> s_providerSpecValidated s' = Some (sp\<lparr>ps_DataDisks := pre @ ds'\<rparr>) \<and>
    (errs = [] \<longrightarrow> list_all2 disk_resolves ds ds' \<and> list_all disk_ok ds)"
  using assms
proof (induction ds arbitrary: pre s sp r s')
  case Nil
  then show ?case by (auto simp: ret_def)
next
  case (Cons d ds)
  let ?step = "case dd_DataSource d of None \<Rightarrow> ret [] | Some x \<Rightarrow> validate_data_source A p (length pre) x"
  obtain q t where run: "?step s = (q, t)" by fastforce
  have d: "ps_DataDisks sp ! length pre = d" using Cons.prems(2) by (simp add: nth_append)
  obtain x d' where q: "q = Ok x" and v: "s_providerSpecValidated t = Some (sp\<lparr>ps_DataDisks := (ps_DataDisks sp)[length pre := d']\<rparr>)"
    and res: "x = [] \<longrightarrow> disk_resolves d d'"
    using disk_step_effect [OF Cons.prems(1) d run] by metis
  have upd: "(ps_DataDisks sp)[length pre := d'] = (pre @ [d']) @ ds" using Cons.prems(2) by simp
  obtain q' t' where rest: "disks_loop A p (length (pre @ [d'])) ds t = (q', t')" by fastforce
  obtain errs ds' where "q' = Ok errs" "s_providerSpecValidated t' = Some (sp\<lparr>ps_DataDisks := (pre @ [d']) @ ds'\<rparr>)"
    "errs = [] \<longrightarrow> list_all2 disk_resolves ds ds' \<and> list_all disk_ok ds"
    using Cons.IH [OF v _ rest] upd by auto
  moreover from this Cons.prems(3) run q rest have "r = Ok (disk_errors p d @ x @ errs)" "s' = t'"
    by (auto simp: bnd_eq_Ok ret_def)
  ultimately show ?case using res
    by (intro exI [of _ "disk_errors p d @ x @ errs"] exI [of _ "d' # ds'"]) (simp add: disk_errors_Nil)
qed

text \<open>Categories and GPUs are only looked up.\<close>

lemma getCategoryValue_not_Panic [simp]: "getCategoryValue A k v s \<noteq> (Panic, t)"
  by (auto simp: getCategoryValue_def op_defs call_api_not_Panic split: prod.splits outcome.splits list.splits)

lemma getCategoryValue_validated:
  fixes s :: "'e machineScope"
  shows "getCategoryValue A k v s = (r, t) \<Longrightarrow> s_providerSpecValidated t = s_providerSpecValidated s"
  by (erule world_op_validated [rotated]) (rule frame_rules)

lemma getGPUsForPEConverged_validated:
  fixes s :: "'e machineScope"
  shows "getGPUsForPEConverged A u s = (r, t) \<Longrightarrow> s_providerSpecValidated t = s_providerSpecValidated s"
  by (erule world_op_validated [of is_read, rotated]) (rule frame_rules, simp)

lemma getGPUsForPEConverged_not_Panic [simp]: "getGPUsForPEConverged A u s \<noteq> (Panic, t)"
  by (auto simp: getGPUsForPEConverged_def op_defs call_api_not_Panic split: prod.splits outcome.splits)

lemma categories_loop_effect:
  assumes "categories_loop A p cs s = (r, s')"
  obtains errs where "r = Ok errs" "s_providerSpecValidated s' = s_providerSpecValidated s"
proof -
  have "\<exists>errs. r = Ok errs \<and> s_providerSpecValidated s' = s_providerSpecValidated s"
    using assms
  proof (induction cs arbitrary: s r s')
    case (Cons c cs)
    obtain q t where run: "getCategoryValue A (cat_Key c) (cat_Value c) s = (q, t)" by fastforce
    obtain q' t' where rest: "categories_loop A p cs t = (q', t')" by fastforce
    from Cons.IH [OF rest] getCategoryValue_validated [OF run] Cons.prems run rest show ?case
      by (cases q) (auto simp: op_eqs ret_def)
  qed (auto simp: ret_def)
  then show thesis using that by blast
qed

lemma gpu_identifiers [simp]:
  "NutanixGPUIdentifierDeviceID \<noteq> NutanixGPUIdentifierName" "NutanixGPUIdentifierName \<noteq> NutanixGPUIdentifierDeviceID"
  by (simp_all add: NutanixGPUIdentifierName_def NutanixGPUIdentifierDeviceID_def)

text \<open>A requested GPU raises no error exactly when it is well formed and the cluster has a match.\<close>

lemma gpu_errors_Nil:
  "gpu_errors p ds g = [] \<longleftrightarrow> (gpu_Type g = NutanixGPUIdentifierName \<longrightarrow> gpu_Name g \<noteq> Some []) \<and> (\<exists>d\<in>set ds. gpu_matches g d)"
proof -
  have *: "List.find (gpu_matches g) ds = None \<longleftrightarrow> \<not> (\<exists>d\<in>set ds. gpu_matches g d)"
    by (auto simp: find_None_iff)
  have "gpu_matches g d \<Longrightarrow> gpu_Type g = NutanixGPUIdentifierDeviceID \<and> gpu_DeviceID g \<noteq> None \<or>
      gpu_Type g = NutanixGPUIdentifierName \<and> gpu_Name g \<noteq> None" for d
    by (auto simp: gpu_matches_def)
  then show ?thesis using *
    by (cases "gpu_Type g = NutanixGPUIdentifierDeviceID"; cases "gpu_Type g = NutanixGPUIdentifierName";
        cases "gpu_DeviceID g"; cases "gpu_Name g"; cases "List.find (gpu_matches g) ds")
      (auto simp: gpu_errors_def getGPUFromListConverged_find nonempty_def)
qed

definition gpus_available :: "NutanixMachineProviderConfig \<Rightarrow> gpuDeviceInfo list \<Rightarrow> bool" where
  "gpus_available sp ds \<longleftrightarrow> list_all (\<lambda>g. \<exists>d\<in>set ds. gpu_matches g d) (ps_GPUs sp)"

lemma gpus_available_Nil: "concat (map (gpu_errors p ds) (ps_GPUs sp)) = [] \<Longrightarrow> gpus_available sp ds"
  by (simp add: gpus_available_def list_all_iff gpu_errors_Nil)

lemma gpus_available_empty: "ps_GPUs sp = [] \<Longrightarrow> Ex (gpus_available sp)"
  by (rule exI [of _ "[]"]) (simp add: gpus_available_def)

lemma validateGPUsConfig_effect:
  assumes "s_providerSpecValidated s = Some sp" and "validateGPUsConfig A p s = (r, s')"
  obtains errs where "r = Ok errs" "s_providerSpecValidated s' = Some sp"
    "errs = [] \<longrightarrow> (\<exists>ds. gpus_available sp ds)"
proof -
  have "(\<exists>errs. r = Ok errs \<and> (errs = [] \<longrightarrow> (\<exists>ds. gpus_available sp ds))) \<and> s_providerSpecValidated s' = Some sp"
    using assms
    by (auto simp: validateGPUsConfig_def bnd_validated handle_def ret_def Let_def simp del: concat_eq_Nil_conv
        dest: getGPUsForPEConverged_validated gpus_available_Nil intro: gpus_available_empty
        split: if_splits option.splits prod.splits outcome.splits)
  then show thesis using that by blast
qed

text \<open>CPU, memory, disk and boot type.\<close>

definition sizes_ok :: "NutanixMachineProviderConfig \<Rightarrow> bool" where
  "sizes_ok sp \<longleftrightarrow> 1 \<le> sint (ps_VCPUsPerSocket sp) \<and> 1 \<le> sint (ps_VCPUSockets sp) \<and>
     2 * 2 ^ 30 \<le> sint (ps_MemorySize sp) \<and> 20 * 2 ^ 30 \<le> sint (ps_SystemDiskSize sp) \<and>
     ps_BootType sp \<in> {[], NutanixLegacyBoot, NutanixUEFIBoot, NutanixSecureBoot}"

lemma size_errors_Nil: "size_errors p sp = [] \<longleftrightarrow> sizes_ok sp"
  using GetMib_ge_iff [of "2 * 1024" "ps_MemorySize sp"] GetMib_ge_iff [of "20 * 1024" "ps_SystemDiskSize sp"]
  by (auto simp: size_errors_def sizes_ok_def Let_def)

text \<open>
  The spec a VM may be built from: \<open>spec_resolves sp sp'\<close> says that \<open>sp'\<close> is \<open>sp\<close> with its references
  resolved to uuids and that everything else of it is in range.
\<close>

definition spec_resolves :: "NutanixMachineProviderConfig \<Rightarrow> NutanixMachineProviderConfig \<Rightarrow> bool" where
  "spec_resolves sp sp' \<longleftrightarrow>
     sp' = sp\<lparr>ps_Cluster := ps_Cluster sp', ps_Image := ps_Image sp', ps_Subnets := ps_Subnets sp',
              ps_Project := ps_Project sp', ps_DataDisks := ps_DataDisks sp'\<rparr> \<and>
     resolves (ps_Cluster sp) (ps_Cluster sp') \<and> ri_UUID (ps_Cluster sp') \<noteq> None \<and>
     resolves (ps_Image sp) (ps_Image sp') \<and>
     ps_Subnets sp \<noteq> [] \<and> length (ps_Subnets sp) \<le> 32 \<and> list_all2 resolves (ps_Subnets sp) (ps_Subnets sp') \<and>
     (ri_Type (ps_Project sp) = [] \<and> ps_Project sp' = ps_Project sp \<or> resolves (ps_Project sp) (ps_Project sp')) \<and>
     list_all2 disk_resolves (ps_DataDisks sp) (ps_DataDisks sp') \<and> list_all disk_ok (ps_DataDisks sp) \<and>
     sizes_ok sp \<and> (\<exists>ds. gpus_available sp ds)"

lemma subnets_stage_effect:
  assumes "s_providerSpecValidated s = Some sp"
    and "(let n = length (ps_Subnets sp) in
          if n = 0 then ret [field_Required (path_Child p [''subnets'']) ''Missing subnets'']
          else if n > 32 then ret [field_TooMany (path_Child p [''subnets'']) (int n) 32]
          else validateSubnetsConfig A p) s = (r, s')"
  obtains errs rs where "r = Ok errs" "s_providerSpecValidated s' = Some (sp\<lparr>ps_Subnets := rs\<rparr>)"
    "errs = [] \<longrightarrow> ps_Subnets sp \<noteq> [] \<and> length (ps_Subnets sp) \<le> 32 \<and> list_all2 resolves (ps_Subnets sp) rs"
proof (cases "ps_Subnets sp \<noteq> [] \<and> length (ps_Subnets sp) \<le> 32")
  case True
  with assms have "subnets_loop A p (length []) (ps_Subnets sp) s = (r, s')"
    by (simp add: validateSubnetsConfig_def bnd_validated)
  from subnets_loop_effect [OF assms(1) _ this] True show thesis by (auto intro: that)
next
  case False
  with assms(2) obtain e where "r = Ok [e]" and "s' = s" by (auto simp: Let_def ret_def split: if_splits)
  with assms(1) show thesis by (intro that [of "[e]" "ps_Subnets sp"]) auto
qed

lemma disks_stage_effect:
  assumes "s_providerSpecValidated s = Some sp"
    and "(if ps_DataDisks sp \<noteq> [] then validateDataDisksConfig A p else ret []) s = (r, s')"
  obtains errs ds where "r = Ok errs" "s_providerSpecValidated s' = Some (sp\<lparr>ps_DataDisks := ds\<rparr>)"
    "errs = [] \<longrightarrow> list_all2 disk_resolves (ps_DataDisks sp) ds \<and> list_all disk_ok (ps_DataDisks sp)"
proof -
  have "disks_loop A p (length []) (ps_DataDisks sp) s = (r, s')"
    using assms by (cases "ps_DataDisks sp") (simp_all add: validateDataDisksConfig_def bnd_validated)
  from disks_loop_effect [OF assms(1) _ this] show thesis by (auto intro: that)
qed

text \<open>The stages in order.\<close>

lemma validated_OkD: "validated s = (Ok sp, t) \<Longrightarrow> t = s \<and> s_providerSpecValidated s = Some sp"
  by (auto simp: validated_def op_defs split: option.splits)

lemma lookup_stages_effect:
  assumes v: "s_providerSpecValidated s = Some sp"
    and cat: "(if ps_Categories sp \<noteq> [] then validateCategoriesConfig A p else ret []) s = (Ok ce, t)"
    and gpu: "(if ps_GPUs sp \<noteq> [] then validateGPUsConfig A p else ret []) t = (Ok ge, u)"
  shows "s_providerSpecValidated u = Some sp" and "ge = [] \<longrightarrow> (\<exists>ds. gpus_available sp ds)"
proof -
  have t: "s_providerSpecValidated t = Some sp"
    using cat v by (auto simp: validateCategoriesConfig_def bnd_validated ret_def
        elim: categories_loop_effect split: if_splits)
  show "s_providerSpecValidated u = Some sp"
    using gpu t by (auto simp: ret_def elim: validateGPUsConfig_effect [OF t] split: if_splits)
  show "ge = [] \<longrightarrow> (\<exists>ds. gpus_available sp ds)"
    using gpu by (auto elim: validateGPUsConfig_effect [OF t] intro: gpus_available_empty split: if_splits)
qed

lemma opt_list_Nil [simp]: "opt_list x = [] \<longleftrightarrow> x = None"
  by (cases x) (simp_all add: opt_list_def)

lemma sizes_ok_refs [simp]:
  "sizes_ok (sp\<lparr>ps_Cluster := c\<rparr>) = sizes_ok sp" "sizes_ok (sp\<lparr>ps_Image := i\<rparr>) = sizes_ok sp"
  "sizes_ok (sp\<lparr>ps_Subnets := n\<rparr>) = sizes_ok sp" "sizes_ok (sp\<lparr>ps_Project := j\<rparr>) = sizes_ok sp"
  by (simp_all add: sizes_ok_def)

lemma gpus_available_refs [simp]:
  "gpus_available (sp\<lparr>ps_Cluster := c\<rparr>) = gpus_available sp" "gpus_available (sp\<lparr>ps_Image := i\<rparr>) = gpus_available sp"
  "gpus_available (sp\<lparr>ps_Subnets := n\<rparr>) = gpus_available sp" "gpus_available (sp\<lparr>ps_Project := j\<rparr>) = gpus_available sp"
  by (simp_all add: gpus_available_def fun_eq_iff)

lemma validateVMConfig_effect:
  assumes "validateVMConfig A s = (Ok errs, s')"
  defines "sp \<equiv> apply_failure_domain (s_failureDomain s) (s_providerSpec s)"
  obtains sp' where "s_providerSpecValidated s' = Some sp'" "errs = [] \<longrightarrow> spec_resolves sp sp'"
  using assms(1) unfolding validateVMConfig_def
proof (elim bnd_OkE, goal_cases)
  case (1 x s0 ce s1 ie s2 spc t2 ne s3 spec t3 pe s4 cae s5 ge s6 de s7)
  have v0: "s_providerSpecValidated s0 = Some sp" using 1(2) by (auto simp: modify_def sp_def)
  obtain c where v1: "s_providerSpecValidated s1 = Some (sp\<lparr>ps_Cluster := c\<rparr>)"
    and c: "ce = None \<longrightarrow> resolves (ps_Cluster sp) c \<and> ri_UUID c \<noteq> None"
    by (rule validateClusterConfig_effect [OF v0 1(3)]) (simp add: that)
  obtain i where v2: "s_providerSpecValidated s2 = Some (sp\<lparr>ps_Cluster := c, ps_Image := i\<rparr>)"
    and i: "ie = None \<longrightarrow> resolves (ps_Image sp) i"
    by (rule validateImageConfig_effect [OF v1 1(4)]) (simp add: that)
  have spc: "t2 = s2" "spc = sp\<lparr>ps_Cluster := c, ps_Image := i\<rparr>" using validated_OkD [OF 1(5)] v2 by auto
  obtain n where v3: "s_providerSpecValidated s3 = Some (sp\<lparr>ps_Cluster := c, ps_Image := i, ps_Subnets := n\<rparr>)"
    and n: "ne = [] \<longrightarrow> ps_Subnets sp \<noteq> [] \<and> length (ps_Subnets sp) \<le> 32 \<and> list_all2 resolves (ps_Subnets sp) n"
    by (rule subnets_stage_effect [OF v2 1(6) [unfolded spc]]) (simp add: that)
  have spec: "t3 = s3" "spec = sp\<lparr>ps_Cluster := c, ps_Image := i, ps_Subnets := n\<rparr>"
    using validated_OkD [OF 1(7)] v3 by auto
  let ?sp4 = "\<lambda>j. sp\<lparr>ps_Cluster := c, ps_Image := i, ps_Subnets := n, ps_Project := j\<rparr>"
  obtain j where v4: "s_providerSpecValidated s4 = Some (?sp4 j)"
    and j: "pe = None \<longrightarrow> ri_Type (ps_Project sp) = [] \<and> j = ps_Project sp \<or> resolves (ps_Project sp) j"
    by (rule validateProjectConfig_effect [OF v3 1(8) [unfolded spec]]) (simp_all add: that)
  have v6: "s_providerSpecValidated s6 = Some (?sp4 j)" and g: "ge = [] \<longrightarrow> (\<exists>ds. gpus_available sp ds)"
    using lookup_stages_effect [OF v4, of A spec_path cae s5 ge s6] 1(9,10) by (simp_all add: spec)
  obtain d where v7: "s_providerSpecValidated s7 = Some (?sp4 j\<lparr>ps_DataDisks := d\<rparr>)"
    and d: "de = [] \<longrightarrow> list_all2 disk_resolves (ps_DataDisks sp) d \<and> list_all disk_ok (ps_DataDisks sp)"
    by (rule disks_stage_effect [OF v6, of A spec_path "Ok de" s7]) (use 1(11) in \<open>simp_all add: spec that\<close>)
  from 1(12) have "s' = s7" and errs: "errs = opt_list ce @ opt_list ie @ ne @ size_errors spec_path spec @ opt_list pe @ cae @ ge @ de"
    by (simp_all add: ret_def)
  with v7 have "s_providerSpecValidated s' = Some (?sp4 j\<lparr>ps_DataDisks := d\<rparr>)" by simp
  then show thesis
  proof (rule 1(1))
    show "errs = [] \<longrightarrow> spec_resolves sp (?sp4 j\<lparr>ps_DataDisks := d\<rparr>)"
      using c i n j g d by (auto simp: errs spec size_errors_Nil spec_resolves_def)
  qed
qed

text \<open>
  Validation never ends in a Go error: started on a validated copy, every stage returns a list
  of field errors (or panics) and leaves a validated copy behind.
\<close>

definition collects :: "('e, 'a) scope_op \<Rightarrow> bool" where
  "collects m \<longleftrightarrow> (\<forall>s sp r s'. s_providerSpecValidated s = Some sp \<longrightarrow> m s = (r, s') \<longrightarrow>
     (\<forall>e. r \<noteq> Err e) \<and> (\<exists>sp'. r \<noteq> Panic \<longrightarrow> s_providerSpecValidated s' = Some sp'))"

lemma collectsI:
  "(\<And>s sp r s'. s_providerSpecValidated s = Some sp \<Longrightarrow> m s = (r, s') \<Longrightarrow>
     (\<forall>e. r \<noteq> Err e) \<and> (\<exists>sp'. r \<noteq> Panic \<longrightarrow> s_providerSpecValidated s' = Some sp')) \<Longrightarrow> collects m"
  by (simp add: collects_def)

lemma collects_ret: "collects (ret x)"
  by (auto simp: collects_def ret_def)

lemma collects_validated: "collects validated"
  by (auto simp: collects_def validated_eq)

lemma collectsD:
  "collects m \<Longrightarrow> s_providerSpecValidated s = Some sp \<Longrightarrow> m s = (r, s') \<Longrightarrow>
     r = Panic \<or> (\<exists>x sp'. r = Ok x \<and> s_providerSpecValidated s' = Some sp')"
  by (cases r) (auto simp: collects_def)

lemma collects_bnd:
  assumes "collects m" and "\<And>x. collects (f x)"
  shows "collects (bnd m f)"
proof (rule collectsI)
  fix s sp r s' assume v: "s_providerSpecValidated s = Some sp" and run: "bnd m f s = (r, s')"
  obtain q t where m: "m s = (q, t)" by fastforce
  from collectsD [OF assms(1) v m] show "(\<forall>e. r \<noteq> Err e) \<and> (\<exists>sp'. r \<noteq> Panic \<longrightarrow> s_providerSpecValidated s' = Some sp')"
  proof (elim disjE exE conjE)
    assume "q = Panic"
    with m run show ?thesis by (simp add: op_defs)
  next
    fix x sp' assume "q = Ok x" and v': "s_providerSpecValidated t = Some sp'"
    with m run have "f x t = (r, s')" by (simp add: bnd_eq_Ok)
    from collectsD [OF assms(2) v' this] show ?thesis by auto
  qed
qed

lemma collects_start:
  "collects m \<Longrightarrow> bnd (modify (\<lambda>s. s\<lparr>s_providerSpecValidated := Some (g s)\<rparr>)) (\<lambda>_. m) s \<noteq> (Err e, s')"
  by (auto simp: modify_def bnd_eq_Ok dest: collectsD [rotated 2])

lemma collects_if: "collects f \<Longrightarrow> collects g \<Longrightarrow> collects (if b then f else g)"
  by simp

lemma collects_stages:
  "collects (validateClusterConfig A p)" "collects (validateImageConfig A p)" "collects (validateProjectConfig A p)"
  "collects (validateSubnetsConfig A p)" "collects (validateCategoriesConfig A p)"
  "collects (validateGPUsConfig A p)" "collects (validateDataDisksConfig A p)"
proof -
  show "collects (validateClusterConfig A p)"
    by (rule collectsI, erule (1) validateClusterConfig_effect) simp
  show "collects (validateImageConfig A p)"
    by (rule collectsI, erule (1) validateImageConfig_effect) simp
  show "collects (validateProjectConfig A p)"
    by (rule collectsI, erule (1) validateProjectConfig_effect) simp_all
  show "collects (validateSubnetsConfig A p)"
    by (rule collectsI) (use subnets_loop_effect [where pre = "[]"] in
        \<open>fastforce simp: validateSubnetsConfig_def bnd_validated\<close>)
  show "collects (validateCategoriesConfig A p)"
    by (rule collectsI) (auto simp: validateCategoriesConfig_def bnd_validated elim: categories_loop_effect)
  show "collects (validateGPUsConfig A p)"
    by (rule collectsI, erule (1) validateGPUsConfig_effect) simp
  show "collects (validateDataDisksConfig A p)"
    by (rule collectsI) (use disks_loop_effect [where pre = "[]"] in
        \<open>fastforce simp: validateDataDisksConfig_def bnd_validated\<close>)
qed

lemma validateVMConfig_no_Err: "validateVMConfig A s \<noteq> (Err e, s')"
  unfolding validateVMConfig_def Let_def
  by (intro collects_start collects_bnd collects_if collects_ret collects_validated collects_stages)

end
