(* ===== verification/Build_VM.thy ===== *)
theory Build_VM
  imports Validate
begin

text \<open>
  The creation of a VM, the middle third of \<^verbatim>\<open>pkg/actuators/machine/vm.go\<close>: the VM entity built
  from the validated provider spec, and \<open>createVM\<close>, which first looks for a VM that is already
  there, creates one otherwise, powers it on and reads it back.
\<close>

section \<open>Disks and devices\<close>

definition nutanixAdapterTypeToDiskBusType :: "string \<Rightarrow> DiskBusType" where
  "nutanixAdapterTypeToDiskBusType adapterType =
     (if adapterType = NutanixDiskAdapterTypeSCSI then DISKBUSTYPE_SCSI
      else if adapterType = NutanixDiskAdapterTypeIDE then DISKBUSTYPE_IDE
      else if adapterType = NutanixDiskAdapterTypePCI then DISKBUSTYPE_PCI
      else if adapterType = NutanixDiskAdapterTypeSATA then DISKBUSTYPE_SATA
      else if adapterType = NutanixDiskAdapterTypeSPAPR then DISKBUSTYPE_SPAPR
      else DISKBUSTYPE_SCSI)"

definition nutanixAdapterTypeToCdRomBusType :: "string \<Rightarrow> CdRomBusType" where
  "nutanixAdapterTypeToCdRomBusType adapterType =
     (if adapterType = NutanixDiskAdapterTypeIDE then CDROMBUSTYPE_IDE
      else if adapterType = NutanixDiskAdapterTypeSATA then CDROMBUSTYPE_SATA
      else CDROMBUSTYPE_IDE)"

text \<open>
  A size that is not positive is left unset.  The setters of the v4 models (\<^verbatim>\<open>SetBackingInfo\<close>,
  \<^verbatim>\<open>SetBootConfig\<close>, ...) fail only for a value that is none of the alternatives of their union; here and
  below the code passes one of them, so these error branches cannot be taken and are left out, as is
  that of \<^verbatim>\<open>json.Marshal\<close> on a map of strings.
\<close>

definition newV4SystemDisk :: "string option \<Rightarrow> int64 \<Rightarrow> Disk" where
  "newV4SystemDisk imageUUID diskSizeBytes =
     (let vmDisk = (if sint diskSizeBytes > 0 then NewVmDisk\<lparr>vd_DiskSizeBytes := Some diskSizeBytes\<rparr> else NewVmDisk);
          vmDisk = (case imageUUID of None \<Rightarrow> vmDisk | Some u \<Rightarrow> vmDisk\<lparr>vd_ImageExtId := Some u\<rparr>)
      in \<lparr>dk_BackingInfo = vmDisk, dk_Address = None\<rparr>)"

definition data_vm_disk :: "NutanixVMDisk \<Rightarrow> VmDisk" where
  "data_vm_disk dataDisk =
     (let vmDisk = (if sint (dd_DiskSize dataDisk) > 0 then NewVmDisk\<lparr>vd_DiskSizeBytes := Some (dd_DiskSize dataDisk)\<rparr> else NewVmDisk);
          vmDisk = (case dd_DataSource dataDisk of
              None \<Rightarrow> vmDisk
            | Some ds \<Rightarrow> (case ri_UUID ds of None \<Rightarrow> vmDisk | Some u \<Rightarrow> vmDisk\<lparr>vd_ImageExtId := Some u\<rparr>))
      in case dd_StorageConfig dataDisk of
           None \<Rightarrow> vmDisk
         | Some sc \<Rightarrow>
             (let vmDisk = (if sc_DiskMode sc = NutanixDiskModeFlash then vmDisk\<lparr>vd_IsFlashModeEnabled := Some True\<rparr> else vmDisk)
              in case sc_StorageContainer sc of
                   None \<Rightarrow> vmDisk
                 | Some ref \<Rightarrow> (case sri_UUID ref of None \<Rightarrow> vmDisk | Some u \<Rightarrow> vmDisk\<lparr>vd_StorageContainer := Some u\<rparr>)))"

text \<open>The loop over the data disks: a CD-ROM device is appended to one list, a disk to the other.\<close>

fun data_disks_loop :: "NutanixVMDisk list \<Rightarrow> Vm \<Rightarrow> Vm" where
  "data_disks_loop [] vm = vm"
| "data_disks_loop (dataDisk # rest) vm =
     (case dd_DeviceProperties dataDisk of
        Some dp \<Rightarrow>
          if dp_DeviceType dp = NutanixDiskDeviceTypeCDROM then
            data_disks_loop rest (vm\<lparr>vm_CdRoms := vm_CdRoms vm @
              [\<lparr>cd_BackingInfo = data_vm_disk dataDisk,
                cd_Address = Some (nutanixAdapterTypeToCdRomBusType (dp_AdapterType dp), int64_of_int32 (dp_DeviceIndex dp))\<rparr>]\<rparr>)
          else
            data_disks_loop rest (vm\<lparr>vm_Disks := vm_Disks vm @
              [\<lparr>dk_BackingInfo = data_vm_disk dataDisk,
                dk_Address = Some (nutanixAdapterTypeToDiskBusType (dp_AdapterType dp), int64_of_int32 (dp_DeviceIndex dp))\<rparr>]\<rparr>)
      | None \<Rightarrow>
          data_disks_loop rest (vm\<lparr>vm_Disks := vm_Disks vm @
            [\<lparr>dk_BackingInfo = data_vm_disk dataDisk, dk_Address = None\<rparr>]\<rparr>))"

text \<open>The loop over the subnets: an entry without a uuid is skipped.\<close>

definition subnet_nic :: "string \<Rightarrow> Nic" where
  "subnet_nic u = \<lparr>nic_NicNetworkInfo = None,
     nic_NetworkInfo = Some \<lparr>ni_Subnet = Some (Some u), ni_Ipv4Config = None, ni_Ipv4Info = None\<rparr>\<rparr>"

fun nics_loop :: "NutanixResourceIdentifier list \<Rightarrow> Nic list \<Rightarrow> Nic list" where
  "nics_loop [] nics = nics"
| "nics_loop (sub # rest) nics = (case ri_UUID sub of
       None \<Rightarrow> nics_loop rest nics
     | Some u \<Rightarrow> nics_loop rest (nics @ [subnet_nic u]))"

definition set_boot_type :: "string \<Rightarrow> Vm \<Rightarrow> Vm" where
  "set_boot_type bootType vm =
     (if bootType = NutanixUEFIBoot then vm\<lparr>vm_BootConfig := Some (UefiBoot False)\<rparr>
      else if bootType = NutanixSecureBoot then vm\<lparr>vm_BootConfig := Some (UefiBoot True)\<rparr>
      else if bootType = NutanixLegacyBoot
      then vm\<lparr>vm_BootConfig := Some (LegacyBoot [BOOTDEVICETYPE_CDROM, BOOTDEVICETYPE_DISK, BOOTDEVICETYPE_NETWORK])\<rparr>
      else vm)"

section \<open>GPUs and categories\<close>

definition v4_gpu :: "gpuDeviceInfo \<Rightarrow> VmGpu" where
  "v4_gpu m = \<lparr>vg_DeviceId = map_option int64_of_int32 (gd_DeviceID m), vg_Name = Some (gd_Name m)\<rparr>"

fun gpu_list_loop :: "gpuDeviceInfo list \<Rightarrow> NutanixGPU list \<Rightarrow> VmGpu list \<Rightarrow> (go_error, VmGpu list) outcome" where
  "gpu_list_loop peGPUs [] gpus = Ok gpus"
| "gpu_list_loop peGPUs (gpu # rest) gpus = (case getGPUFromListConverged gpu peGPUs of
       Err e \<Rightarrow> Err (fmt_Errorf_w ''GPU not found matching required inputs: '' e)
     | Panic \<Rightarrow> Panic
     | Ok m \<Rightarrow> gpu_list_loop peGPUs rest (gpus @ [v4_gpu m]))"

definition buildV4GPUList :: "'e api \<Rightarrow> ('e, VmGpu list) scope_op" where
  "buildV4GPUList A =
     bnd validated (\<lambda>spec.
     bnd (deref (ri_UUID (ps_Cluster spec))) (\<lambda>peUUID.
     handle (getGPUsForPEConverged A peUUID)
       (\<lambda>peGPUs. if peGPUs = [] then raise (NewError (''no available GPUs found in PE cluster '' @ peUUID))
                 else lift_out (gpu_list_loop peGPUs (ps_GPUs spec) []))
       (\<lambda>e. raise (fmt_Errorf_w (''failed to retrieve GPUs from PE cluster '' @ peUUID @ '': '') e))))"

definition add_ref :: "Entity \<Rightarrow> string list \<Rightarrow> string list" where
  "add_ref cat refs = (case en_ExtId cat of None \<Rightarrow> refs | Some u \<Rightarrow> refs @ [u])"

fun category_refs_loop :: "'e api \<Rightarrow> NutanixCategory list \<Rightarrow> string list \<Rightarrow> ('e, string list) scope_op" where
  "category_refs_loop A [] refs = ret refs"
| "category_refs_loop A (category # rest) refs =
     handle (getCategoryValue A (cat_Key category) (cat_Value category))
       (\<lambda>cat. category_refs_loop A rest (add_ref cat refs))
       (\<lambda>e. raise (fmt_Errorf_w (''category key='' @ strconv_Quote (cat_Key category) @ '' value='' @
          strconv_Quote (cat_Value category) @ '': '') e))"

text \<open>The second half: the category that marks the VM as owned by its cluster.\<close>

definition owner_category_ref :: "'e api \<Rightarrow> Machine \<Rightarrow> string list \<Rightarrow> ('e, string list) scope_op" where
  "owner_category_ref A machine refs = (case getClusterID machine of (clusterID, present) \<Rightarrow>
     if \<not> present \<or> clusterID = [] then ret refs
     else (let categoryKey = NutanixCategoryKeyPrefix @ clusterID in
       handle (getCategoryValue A categoryKey NutanixCategoryValue)
         (\<lambda>cat. ret (add_ref cat refs))
         (\<lambda>e. raise (fmt_Errorf_w (''failed to find cluster ownership category '' @ strconv_Quote categoryKey @
            ''='' @ strconv_Quote NutanixCategoryValue @ '': '') e))))"

definition buildV4CategoryRefs :: "'e api \<Rightarrow> ('e, string list) scope_op" where
  "buildV4CategoryRefs A =
     bnd validated (\<lambda>spec.
     bnd (category_refs_loop A (ps_Categories spec) []) (\<lambda>refs.
     bnd (gets s_machine) (\<lambda>machine. owner_category_ref A machine refs)))"

section \<open>The VM entity\<close>

text \<open>\<^verbatim>\<open>json.Marshal(map[string]string{"hostname": vmName})\<close>.\<close>

definition metadata_json :: "string \<Rightarrow> string" where
  "metadata_json vmName = ''{'' @ json_string ''hostname'' @ '':'' @ json_string vmName @ ''}''"

definition cloud_init :: "string \<Rightarrow> string \<Rightarrow> CloudInit" where
  "cloud_init vmName userdataEncoded =
     \<lparr>ci_Metadata = base64_EncodeToString (metadata_json vmName), ci_ConfigDriveV2 = True, ci_Userdata = userdataEncoded\<rparr>"

text \<open>
  Name, sizes, cluster, NICs, disks and boot type; the setters of the generated one-of fields
  cannot fail on the types used here.
\<close>

definition base_vm :: "string \<Rightarrow> NutanixMachineProviderConfig \<Rightarrow> string \<Rightarrow> string \<Rightarrow> Vm" where
  "base_vm vmName spec clusterUUID imageUUID =
     (let vm = NewVm\<lparr>vm_Name := Some vmName, vm_MemorySizeBytes := Some (ps_MemorySize spec),
                     vm_NumCoresPerSocket := Some (int64_of_int32 (ps_VCPUsPerSocket spec)),
                     vm_NumSockets := Some (int64_of_int32 (ps_VCPUSockets spec)),
                     vm_HardwareClockTimezone := Some ''UTC''\<rparr>;
          vm = vm\<lparr>vm_Cluster := Some (Some clusterUUID), vm_Nics := nics_loop (ps_Subnets spec) []\<rparr>;
          vm = vm\<lparr>vm_Disks := [newV4SystemDisk (Some imageUUID) (ps_SystemDiskSize spec)]\<rparr>;
          vm = data_disks_loop (ps_DataDisks spec) vm
      in set_boot_type (ps_BootType spec) vm)"

definition add_gpus :: "'e api \<Rightarrow> NutanixMachineProviderConfig \<Rightarrow> Vm \<Rightarrow> ('e, Vm) scope_op" where
  "add_gpus A spec vm =
     (if ps_GPUs spec \<noteq> []
      then handle (buildV4GPUList A) (\<lambda>gpus. ret (vm\<lparr>vm_Gpus := gpus\<rparr>))
             (\<lambda>e. raise (fmt_Errorf_w ''building GPU list: '' e))
      else ret vm)"

text \<open>Categories, project and guest customization.\<close>

definition finish_vm :: "string \<Rightarrow> NutanixMachineProviderConfig \<Rightarrow> string \<Rightarrow> string list \<Rightarrow> Vm \<Rightarrow> Vm" where
  "finish_vm vmName spec userdataEncoded categoryRefs vm =
     (let vm = (if categoryRefs \<noteq> [] then vm\<lparr>vm_Categories := categoryRefs\<rparr> else vm);
          vm = (if ri_Type (ps_Project spec) = NutanixIdentifierUUID \<and> ri_UUID (ps_Project spec) \<noteq> None \<and>
                   ri_UUID (ps_Project spec) \<noteq> Some []
                then vm\<lparr>vm_Project := ri_UUID (ps_Project spec)\<rparr> else vm)
      in vm\<lparr>vm_GuestCustomization := Some (cloud_init vmName userdataEncoded)\<rparr>)"

definition buildV4VMFromScope :: "'e api \<Rightarrow> string \<Rightarrow> ('e, Vm) scope_op" where
  "buildV4VMFromScope A userdataEncoded =
     bnd (gets (\<lambda>s. m_Name (s_machine s))) (\<lambda>vmName.
     bnd validated (\<lambda>spec.
     case ri_UUID (ps_Cluster spec) of
       None \<Rightarrow> raise (NewError ''cluster UUID is required'')
     | Some clusterUUID \<Rightarrow>
        (case ri_UUID (ps_Image spec) of
           None \<Rightarrow> raise (NewError ''image UUID is required'')
         | Some imageUUID \<Rightarrow>
             bnd (add_gpus A spec (base_vm vmName spec clusterUUID imageUUID)) (\<lambda>vm.
             handle (buildV4CategoryRefs A)
               (\<lambda>categoryRefs. ret (finish_vm vmName spec userdataEncoded categoryRefs vm))
               (\<lambda>e. raise (fmt_Errorf_w (''building category references for VM '' @ strconv_Quote vmName @ '': '') e))))))"

section \<open>createVM\<close>

text \<open>Create the entity, power the VM on, wait for the task, read the VM back.\<close>

definition create_and_power_on :: "'e api \<Rightarrow> string \<Rightarrow> Vm \<Rightarrow> ('e, Vm) scope_op" where
  "create_and_power_on A vmName v4vm =
     bnd (call_api (C_VMs_Create v4vm) (a_VMs_Create A v4vm)) (\<lambda>created.
     case vm_ExtId created of
       None \<Rightarrow> raise (NewError (''VM '' @ strconv_Quote vmName @ '' was created but the API returned a nil ExtId''))
     | Some vmUuid \<Rightarrow>
         handle (call_api (C_VMs_PowerOnVM vmUuid) (a_VMs_PowerOnVM A vmUuid))
           (\<lambda>powerOnOp. handle (call_api (C_Wait powerOnOp) (a_Wait A powerOnOp))
              (\<lambda>_. findVMByUUID A vmUuid)
              (\<lambda>e. raise (fmt_Errorf_w ''wait for power on: '' e)))
           (\<lambda>e. raise (fmt_Errorf_w ''power on VM: '' e)))"

text \<open>What follows once no VM was found.\<close>

definition create_new_vm :: "'e api \<Rightarrow> bytes \<Rightarrow> string \<Rightarrow> ('e, Vm) scope_op" where
  "create_new_vm A userData vmName =
     handle (buildV4VMFromScope A (base64_EncodeToString userData))
       (create_and_power_on A vmName)
       (\<lambda>e. raise (fmt_Errorf_w ''building v4 VM spec: '' e))"

definition create_by_name :: "'e api \<Rightarrow> bytes \<Rightarrow> string \<Rightarrow> ('e, Vm) scope_op" where
  "create_by_name A userData vmName =
     handle (findVMByName A vmName)
       ret
       (\<lambda>e. if isNotFoundError (Some e) then create_new_vm A userData vmName
            else raise (fmt_Errorf_w (''checking existing VM by name '' @ strconv_Quote vmName @ '': '') e))"

definition createVM :: "'e api \<Rightarrow> bytes \<Rightarrow> ('e, Vm) scope_op" where
  "createVM A userData =
     bnd (gets (\<lambda>s. (m_Name (s_machine s), st_VmUUID (s_providerStatus s)))) (\<lambda>(vmName, vmUUID).
     case vmUUID of
       None \<Rightarrow> create_by_name A userData vmName
     | Some u \<Rightarrow>
         handle (findVMByUUID A u)
           ret
           (\<lambda>e. if isNotFoundError (Some e) then create_by_name A userData vmName
                else raise (fmt_Errorf_w (''checking existing VM by UUID '' @ u @ '': '') e)))"

section \<open>The loops as list functions\<close>

lemma nics_loop_eq: "nics_loop subs nics = nics @ map subnet_nic (List.map_filter ri_UUID subs)"
  by (induction subs arbitrary: nics) (auto simp: List.map_filter_simps split: option.splits)

definition is_cdrom :: "NutanixVMDisk \<Rightarrow> bool" where
  "is_cdrom d \<longleftrightarrow> (\<exists>dp. dd_DeviceProperties d = Some dp \<and> dp_DeviceType dp = NutanixDiskDeviceTypeCDROM)"

definition disk_of :: "NutanixVMDisk \<Rightarrow> Disk" where
  "disk_of d = \<lparr>dk_BackingInfo = data_vm_disk d, dk_Address = map_option
     (\<lambda>dp. (nutanixAdapterTypeToDiskBusType (dp_AdapterType dp), int64_of_int32 (dp_DeviceIndex dp))) (dd_DeviceProperties d)\<rparr>"

definition cdrom_of :: "NutanixVMDisk \<Rightarrow> CdRom" where
  "cdrom_of d = \<lparr>cd_BackingInfo = data_vm_disk d, cd_Address = map_option
     (\<lambda>dp. (nutanixAdapterTypeToCdRomBusType (dp_AdapterType dp), int64_of_int32 (dp_DeviceIndex dp))) (dd_DeviceProperties d)\<rparr>"

lemma data_disks_loop_eq:
  "data_disks_loop ds vm = vm\<lparr>vm_Disks := vm_Disks vm @ map disk_of (filter (\<lambda>d. \<not> is_cdrom d) ds),
     vm_CdRoms := vm_CdRoms vm @ map cdrom_of (filter is_cdrom ds)\<rparr>"
  by (induction ds arbitrary: vm) (auto simp: is_cdrom_def disk_of_def cdrom_of_def split: option.splits)

text \<open>The boot configuration of a boot type; other boot types leave the default.\<close>

definition boot_of :: "string \<Rightarrow> BootConfig option" where
  "boot_of b =
     (if b = NutanixUEFIBoot then Some (UefiBoot False)
      else if b = NutanixSecureBoot then Some (UefiBoot True)
      else if b = NutanixLegacyBoot then Some (LegacyBoot [BOOTDEVICETYPE_CDROM, BOOTDEVICETYPE_DISK, BOOTDEVICETYPE_NETWORK])
      else None)"

lemma set_boot_type_eq: "vm_BootConfig vm = None \<Longrightarrow> set_boot_type b vm = vm\<lparr>vm_BootConfig := boot_of b\<rparr>"
  by (cases vm) (simp add: set_boot_type_def boot_of_def)

lemma gpu_list_loop_Ok:
  "gpu_list_loop ds gs acc = Ok out \<Longrightarrow>
     \<exists>ms. out = acc @ map v4_gpu ms \<and> list_all2 (\<lambda>g m. m \<in> set ds \<and> gpu_matches g m) gs ms"
proof (induction gs arbitrary: acc)
  case (Cons g gs)
  then obtain m where m: "List.find (gpu_matches g) ds = Some m" and rest: "gpu_list_loop ds gs (acc @ [v4_gpu m]) = Ok out"
    by (auto simp: getGPUFromListConverged_find split: outcome.splits option.splits)
  from m have "m \<in> set ds \<and> gpu_matches g m" by (auto simp: find_Some_iff)
  moreover from Cons.IH [OF rest] obtain ms where "out = (acc @ [v4_gpu m]) @ map v4_gpu ms"
    and "list_all2 (\<lambda>g m. m \<in> set ds \<and> gpu_matches g m) gs ms" by blast
  ultimately show ?case by (intro exI [of _ "m # ms"]) simp
qed simp

section \<open>Frames\<close>

lemma validated_world [frame_rules]: "keeps (call_rel P) validated"
  unfolding validated_def by (intro frame_rules)

lemma buildV4GPUList_rel [frame_rules]: "keeps (call_rel is_read) (buildV4GPUList A)"
  unfolding buildV4GPUList_def by (intro frame_rules) simp

lemma category_refs_loop_rel [frame_rules]: "keeps (call_rel is_read) (category_refs_loop A cs refs)"
proof (induction cs arbitrary: refs)
  case (Cons c cs)
  show ?case by (simp only: category_refs_loop.simps) (intro frame_rules Cons)
qed (simp add: frame_rules)

lemma buildV4CategoryRefs_rel [frame_rules]: "keeps (call_rel is_read) (buildV4CategoryRefs A)"
  unfolding buildV4CategoryRefs_def owner_category_ref_def Let_def by (intro frame_rules)

lemma add_gpus_rel [frame_rules]: "keeps (call_rel is_read) (add_gpus A sp vm)"
  unfolding add_gpus_def by (intro frame_rules)

lemma buildV4VMFromScope_rel [frame_rules]: "keeps (call_rel is_read) (buildV4VMFromScope A ud)"
  unfolding buildV4VMFromScope_def by (intro frame_rules)

section \<open>The VM that is built\<close>

text \<open>The VM of a validated spec, with the GPUs and category references found for it.\<close>

definition vm_of_spec ::
  "string \<Rightarrow> NutanixMachineProviderConfig \<Rightarrow> string \<Rightarrow> VmGpu list \<Rightarrow> string list \<Rightarrow> Vm" where
  "vm_of_spec name sp ud gpus refs =
     \<lparr>vm_ExtId = None, vm_Name = Some name, vm_PowerState = None,
      vm_MemorySizeBytes = Some (ps_MemorySize sp),
      vm_NumCoresPerSocket = Some (int64_of_int32 (ps_VCPUsPerSocket sp)),
      vm_NumSockets = Some (int64_of_int32 (ps_VCPUSockets sp)),
      vm_HardwareClockTimezone = Some ''UTC'',
      vm_Cluster = Some (ri_UUID (ps_Cluster sp)),
      vm_Nics = map subnet_nic (List.map_filter ri_UUID (ps_Subnets sp)),
      vm_Disks = newV4SystemDisk (ri_UUID (ps_Image sp)) (ps_SystemDiskSize sp) #
                 map disk_of (filter (\<lambda>d. \<not> is_cdrom d) (ps_DataDisks sp)),
      vm_CdRoms = map cdrom_of (filter is_cdrom (ps_DataDisks sp)),
      vm_BootConfig = boot_of (ps_BootType sp),
      vm_Gpus = gpus, vm_Categories = refs,
      vm_Project = (if ri_Type (ps_Project sp) = NutanixIdentifierUUID then nonempty (ri_UUID (ps_Project sp)) else None),
      vm_GuestCustomization = Some (cloud_init name ud)\<rparr>"

text \<open>Each GPU of the VM is a device of the cluster that matches the request.\<close>

definition gpus_match :: "NutanixGPU list \<Rightarrow> VmGpu list \<Rightarrow> bool" where
  "gpus_match gs out \<longleftrightarrow> (\<exists>ds ms. out = map v4_gpu ms \<and> list_all2 (\<lambda>g m. m \<in> set ds \<and> gpu_matches g m) gs ms)"

lemma gpus_match_Nil [simp]: "gpus_match [] out \<longleftrightarrow> out = []"
  by (auto simp: gpus_match_def)

lemma buildV4GPUList_Ok:
  assumes "buildV4GPUList A s = (Ok gpus, s')" and "s_providerSpecValidated s = Some sp"
  shows "gpus_match (ps_GPUs sp) gpus"
  using assms
  by (auto simp: buildV4GPUList_def validated_eq gpus_match_def op_defs dest!: gpu_list_loop_Ok
      split: option.splits prod.splits outcome.splits if_splits)

text \<open>
  \<open>category_found A (k, v) e\<close>: at some point of the run the lookup of the category returned \<open>e\<close>.
\<close>

definition category_found :: "'e api \<Rightarrow> string \<times> string \<Rightarrow> Entity \<Rightarrow> bool" where
  "category_found A kv e \<longleftrightarrow> (\<exists>s s' :: 'e machineScope. getCategoryValue A (fst kv) (snd kv) s = (Ok e, s'))"

lemma add_ref_eq: "add_ref e refs = refs @ List.map_filter en_ExtId [e]"
  by (simp add: add_ref_def List.map_filter_simps split: option.splits)

lemma map_filter_append: "List.map_filter f (xs @ ys) = List.map_filter f xs @ List.map_filter f ys"
  by (simp add: List.map_filter_def)

lemma category_refs_loop_Ok:
  "category_refs_loop A cs acc s = (Ok refs, s') \<Longrightarrow>
     \<exists>es. refs = acc @ List.map_filter en_ExtId es \<and>
       list_all2 (category_found A) (map (\<lambda>c. (cat_Key c, cat_Value c)) cs) es"
proof (induction cs arbitrary: acc s)
  case (Cons c cs)
  then obtain e t where e: "getCategoryValue A (cat_Key c) (cat_Value c) s = (Ok e, t)"
    and rest: "category_refs_loop A cs (add_ref e acc) t = (Ok refs, s')"
    by (auto simp: raise_def elim: handle_OkE)
  from e have "category_found A (cat_Key c, cat_Value c) e" by (auto simp: category_found_def)
  moreover from Cons.IH [OF rest] obtain es where "refs = add_ref e acc @ List.map_filter en_ExtId es"
    and "list_all2 (category_found A) (map (\<lambda>c. (cat_Key c, cat_Value c)) cs) es" by blast
  ultimately show ?case
    by (intro exI [of _ "e # es"]) (simp add: add_ref_eq map_filter_append [of _ "[e]" es, simplified])
qed (auto simp: ret_def List.map_filter_simps)

text \<open>The categories a VM gets: the configured ones and the one that marks its cluster.\<close>

definition wanted_categories :: "Machine \<Rightarrow> NutanixMachineProviderConfig \<Rightarrow> (string \<times> string) list" where
  "wanted_categories m sp = map (\<lambda>c. (cat_Key c, cat_Value c)) (ps_Categories sp) @
     (case getClusterID m of (i, present) \<Rightarrow>
        if present \<and> i \<noteq> [] then [(NutanixCategoryKeyPrefix @ i, NutanixCategoryValue)] else [])"

lemma buildV4CategoryRefs_Ok:
  assumes run: "buildV4CategoryRefs A s = (Ok refs, s')" and val: "s_providerSpecValidated s = Some sp"
  shows "\<exists>es. refs = List.map_filter en_ExtId es \<and> list_all2 (category_found A) (wanted_categories (s_machine s) sp) es"
proof -
  from run val obtain refs0 t where loop: "category_refs_loop A (ps_Categories sp) [] s = (Ok refs0, t)"
    and last: "owner_category_ref A (s_machine t) refs0 t = (Ok refs, s')"
    by (auto simp: buildV4CategoryRefs_def bnd_validated gets_def elim!: bnd_OkE)
  have m: "s_machine t = s_machine s"
    by (rule call_rel_fields(3) [OF keepsD [OF category_refs_loop_rel loop]])
  obtain es where es: "refs0 = List.map_filter en_ExtId es"
    "list_all2 (category_found A) (map (\<lambda>c. (cat_Key c, cat_Value c)) (ps_Categories sp)) es"
    using category_refs_loop_Ok [OF loop] by auto
  obtain i present where id: "getClusterID (s_machine s) = (i, present)" by fastforce
  show ?thesis
  proof (cases "present \<and> i \<noteq> []")
    case True
    with last id m obtain e t' where "getCategoryValue A (NutanixCategoryKeyPrefix @ i) NutanixCategoryValue t = (Ok e, t')"
      and "refs = add_ref e refs0" by (auto simp: owner_category_ref_def Let_def ret_def raise_def elim: handle_OkE)
    moreover from this(1) have "list_all2 (category_found A) [(NutanixCategoryKeyPrefix @ i, NutanixCategoryValue)] [e]"
      by (auto simp: category_found_def)
    ultimately show ?thesis using es True id list_all2_appendI [OF es(2)]
      by (intro exI [of _ "es @ [e]"]) (simp add: add_ref_eq map_filter_append wanted_categories_def)
  next
    case False
    with last id m es show ?thesis by (auto simp: owner_category_ref_def ret_def wanted_categories_def)
  qed
qed

lemma base_vm_gpus: "base_vm n sp c i = (base_vm n sp c i)\<lparr>vm_Gpus := []\<rparr>"
  by (simp add: base_vm_def Let_def data_disks_loop_eq set_boot_type_eq NewVm_def)

lemma finish_base_vm:
  assumes "ri_UUID (ps_Cluster sp) = Some c" and "ri_UUID (ps_Image sp) = Some i"
  shows "finish_vm n sp ud refs ((base_vm n sp c i)\<lparr>vm_Gpus := gpus\<rparr>) = vm_of_spec n sp ud gpus refs"
  using assms
  by (simp add: base_vm_def finish_vm_def vm_of_spec_def Let_def nics_loop_eq data_disks_loop_eq set_boot_type_eq NewVm_def
      nonempty_def split: option.splits)

text \<open>A built VM is the VM of the spec, and both required uuids were there.\<close>

lemma buildV4VMFromScope_Ok:
  assumes run: "buildV4VMFromScope A ud s = (Ok vm, s')" and val: "s_providerSpecValidated s = Some sp"
  obtains gpus es where "vm = vm_of_spec (m_Name (s_machine s)) sp ud gpus (List.map_filter en_ExtId es)"
    "gpus_match (ps_GPUs sp) gpus" "list_all2 (category_found A) (wanted_categories (s_machine s) sp) es"
    "ri_UUID (ps_Cluster sp) \<noteq> None" "ri_UUID (ps_Image sp) \<noteq> None"
proof -
  from run val obtain c i vm1 s1 refs where c: "ri_UUID (ps_Cluster sp) = Some c" and i: "ri_UUID (ps_Image sp) = Some i"
    and gpu: "add_gpus A sp (base_vm (m_Name (s_machine s)) sp c i) s = (Ok vm1, s1)"
    and cat: "buildV4CategoryRefs A s1 = (Ok refs, s')"
    and vm: "vm = finish_vm (m_Name (s_machine s)) sp ud refs vm1"
    unfolding buildV4VMFromScope_def
    by (auto simp: bnd_validated gets_def bnd_eq_Ok raise_def ret_def split: option.splits elim!: bnd_OkE elim: handle_OkE)
  have s1: "s_machine s1 = s_machine s" "s_providerSpecValidated s1 = Some sp"
    using call_rel_fields [OF keepsD [OF add_gpus_rel gpu]] val by simp_all
  from buildV4CategoryRefs_Ok [OF cat s1(2)] obtain es where es: "refs = List.map_filter en_ExtId es"
    "list_all2 (category_found A) (wanted_categories (s_machine s) sp) es" by (auto simp: s1)
  from gpu obtain gpus where g: "vm1 = (base_vm (m_Name (s_machine s)) sp c i)\<lparr>vm_Gpus := gpus\<rparr>" "gpus_match (ps_GPUs sp) gpus"
    using buildV4GPUList_Ok [OF _ val] base_vm_gpus
    by (auto simp: add_gpus_def ret_def raise_def elim!: handle_OkE split: if_splits)
  show thesis
    by (rule that [of gpus es]) (use c i vm es g finish_base_vm [of sp c i] in simp_all)
qed

section \<open>The calls of a creation\<close>

text \<open>
  The mutating tail of \<open>createVM\<close>: create the VM, power it on, wait for the task, read it back.
  A run makes reads and then a prefix of this tail.
\<close>

definition create_trace :: "Vm \<Rightarrow> string \<Rightarrow> string \<Rightarrow> call list" where
  "create_trace v u task = [C_VMs_Create v, C_VMs_PowerOnVM u, C_Wait task, C_VMs_Get u]"

lemma call_api_calls: "call_api c f s = (r, t) \<Longrightarrow> w_calls t = w_calls s @ [c]"
  by (auto simp: call_api_def split: prod.splits)

lemma findVMByUUID_calls: "findVMByUUID A u s = (r, t) \<Longrightarrow> w_calls t = w_calls s @ [C_VMs_Get u]"
  by (auto simp: findVMByUUID_def dest: call_api_calls)

text \<open>After the VM entity is built: how far along the tail each outcome gets.\<close>

abbreviation power_on_and_read :: "'e api \<Rightarrow> string \<Rightarrow> ('e, Vm) scope_op" where
  "power_on_and_read A u \<equiv> handle (call_api (C_VMs_PowerOnVM u) (a_VMs_PowerOnVM A u))
     (\<lambda>powerOnOp. handle (call_api (C_Wait powerOnOp) (a_Wait A powerOnOp))
        (\<lambda>_. findVMByUUID A u)
        (\<lambda>e. raise (fmt_Errorf_w ''wait for power on: '' e)))
     (\<lambda>e. raise (fmt_Errorf_w ''power on VM: '' e))"

lemma power_on_tail:
  assumes run: "power_on_and_read A u t = (r, s')"
  shows "\<exists>task k. w_calls s' = w_calls t @ take (Suc k) [C_VMs_PowerOnVM u, C_Wait task, C_VMs_Get u] \<and> (\<forall>vm. r = Ok vm \<longrightarrow> k = 2)"
  using run
proof (cases rule: handle_cases)
  case (ok task t2)
  from ok(2) show ?thesis
  proof (cases rule: handle_cases)
    case (ok x t3)
    with call_api_calls [OF \<open>call_api (C_VMs_PowerOnVM u) _ t = _\<close>] call_api_calls [OF ok(1)] show ?thesis
      by (intro exI [of _ task] exI [of _ "2::nat"]) (auto dest: findVMByUUID_calls)
  next
    case (error e t3)
    with call_api_calls [OF \<open>call_api (C_VMs_PowerOnVM u) _ t = _\<close>] call_api_calls [OF error(1)] show ?thesis
      by (intro exI [of _ task] exI [of _ "1::nat"]) (auto simp: raise_def)
  qed (simp add: call_api_not_Panic)
next
  case (error e t2)
  with call_api_calls [OF error(1)] show ?thesis by (intro exI [of _ "[]"] exI [of _ "0::nat"]) (auto simp: raise_def)
qed (simp add: call_api_not_Panic)

lemma create_tail:
  assumes run: "create_and_power_on A n v s = (r, s')"
  shows "\<exists>u task k. w_calls s' = w_calls s @ take (Suc k) (create_trace v u task) \<and> (\<forall>vm. r = Ok vm \<longrightarrow> k = 3)"
proof -
  obtain q t where c: "call_api (C_VMs_Create v) (a_VMs_Create A v) s = (q, t)" by fastforce
  note ct = call_api_calls [OF c]
  show ?thesis
  proof (cases "\<exists>x u. q = Ok x \<and> vm_ExtId x = Some u")
    case False
    with run c have "s' = t" "\<forall>vm. r \<noteq> Ok vm"
      by (cases q; auto simp: create_and_power_on_def bnd_eq_Ok bnd_eq_Err raise_def call_api_not_Panic)+
    with ct show ?thesis by (intro exI [of _ "[]"] exI [of _ "0::nat"]) (simp add: create_trace_def)
  next
    case True
    then obtain x u where "q = Ok x" "vm_ExtId x = Some u" by blast
    with run c have "power_on_and_read A u t = (r, s')" by (simp add: create_and_power_on_def bnd_eq_Ok)
    from power_on_tail [OF this] obtain task k where
      "w_calls s' = w_calls t @ take (Suc k) [C_VMs_PowerOnVM u, C_Wait task, C_VMs_Get u]" "\<forall>vm. r = Ok vm \<longrightarrow> k = 2" by blast
    with ct show ?thesis by (intro exI [of _ u] exI [of _ task] exI [of _ "Suc k"]) (simp add: create_trace_def)
  qed
qed

lemma create_new_vm_trace:
  assumes "create_new_vm A ud n s = (r, s')"
  obtains (unbuilt) "call_rel is_read s s'" "\<forall>vm. r \<noteq> Ok vm"
    | (built) v t u task k where "buildV4VMFromScope A (base64_EncodeToString ud) s = (Ok v, t)" "call_rel is_read s t"
        "w_calls s' = w_calls t @ take (Suc k) (create_trace v u task)" "\<forall>vm. r = Ok vm \<longrightarrow> k = 3"
proof -
  obtain q t where b: "buildV4VMFromScope A (base64_EncodeToString ud) s = (q, t)" by fastforce
  have st: "call_rel is_read s t" by (rule keepsD [OF buildV4VMFromScope_rel b])
  show thesis
  proof (cases q)
    case (Ok v)
    with assms b have "create_and_power_on A n v t = (r, s')" by (simp add: create_new_vm_def handle_eq_Ok)
    with create_tail built [OF b [unfolded Ok] st] show thesis by blast
  next
    case (Err e)
    with assms b st unbuilt show thesis by (auto simp: create_new_vm_def handle_eq_Err raise_def)
  next
    case Panic
    with assms b st unbuilt show thesis by (auto simp: create_new_vm_def handle_def)
  qed
qed

text \<open>The answers of the two lookups that precede a creation.\<close>

definition name_is_free :: "'e api \<Rightarrow> string \<Rightarrow> 'e machineScope \<Rightarrow> 'e machineScope \<Rightarrow> bool" where
  "name_is_free A n t t' \<longleftrightarrow> (\<exists>e. findVMByName A n t = (Err e, t') \<and> isNotFoundError (Some e))"

definition uuid_is_free :: "'e api \<Rightarrow> 'e machineScope \<Rightarrow> 'e machineScope \<Rightarrow> bool" where
  "uuid_is_free A s t \<longleftrightarrow> (case st_VmUUID (s_providerStatus s) of
      None \<Rightarrow> t = s
    | Some u \<Rightarrow> \<exists>e. findVMByUUID A u s = (Err e, t) \<and> isNotFoundError (Some e))"

lemma uuid_is_free_rel: "uuid_is_free A s t \<Longrightarrow> call_rel is_read s t"
  by (auto simp: uuid_is_free_def call_frame.refl dest: keepsD [OF findVMByUUID_rel] split: option.splits)

lemma name_is_free_rel: "name_is_free A n s t \<Longrightarrow> call_rel is_read s t"
  by (auto simp: name_is_free_def dest: keepsD [OF findVMByName_rel])

text \<open>A VM that was there already.\<close>

definition found_vm :: "'e api \<Rightarrow> 'e machineScope \<Rightarrow> Vm \<Rightarrow> 'e machineScope \<Rightarrow> bool" where
  "found_vm A s vm s' \<longleftrightarrow>
     (\<exists>u. st_VmUUID (s_providerStatus s) = Some u \<and> findVMByUUID A u s = (Ok vm, s')) \<or>
     (\<exists>t. uuid_is_free A s t \<and> findVMByName A (m_Name (s_machine s)) t = (Ok vm, s'))"

lemma create_by_name_cases:
  assumes "create_by_name A ud n t = (r, s')"
  obtains (existing) vm where "findVMByName A n t = (Ok vm, s')" "r = Ok vm"
    | (refused) e where "call_rel is_read t s'" "r = Err e"
    | (new) t' where "name_is_free A n t t'" "create_new_vm A ud n t' = (r, s')"
proof -
  obtain q t' where f: "findVMByName A n t = (q, t')" by fastforce
  have rel: "call_rel is_read t t'" by (rule keepsD [OF findVMByName_rel f])
  show thesis
  proof (cases q)
    case (Ok vm)
    with assms f existing show thesis by (auto simp: create_by_name_def handle_eq_Ok ret_def)
  next
    case (Err e)
    with assms f rel refused new show thesis
      by (auto simp: create_by_name_def handle_eq_Err raise_def name_is_free_def split: if_splits)
  qed (use f in simp)
qed

lemma createVM_cases:
  assumes "createVM A ud s = (r, s')"
  obtains (existing) vm where "found_vm A s vm s'" "r = Ok vm"
    | (refused) e where "call_rel is_read s s'" "r = Err e"
    | (new) t t' where "uuid_is_free A s t" "name_is_free A (m_Name (s_machine s)) t t'"
        "create_new_vm A ud (m_Name (s_machine s)) t' = (r, s')"
proof -
  note ex = that(1) and rej = that(2) and fresh = that(3)
  have by_name: thesis if free: "uuid_is_free A s t" and run: "create_by_name A ud (m_Name (s_machine s)) t = (r, s')" for t
    using run
  proof (cases rule: create_by_name_cases)
    case (existing vm)
    with free ex show thesis by (auto simp: found_vm_def)
  next
    case (refused e)
    with rej call_frame.trans [OF uuid_is_free_rel [OF free]] show thesis by blast
  next
    case (new t')
    with free fresh show thesis by blast
  qed
  show thesis
  proof (cases "st_VmUUID (s_providerStatus s)")
    case None
    with assms by_name [of s] show thesis by (simp add: createVM_def gets_def bnd_eq_Ok uuid_is_free_def)
  next
    case (Some u)
    obtain q t where f: "findVMByUUID A u s = (q, t)" by fastforce
    show thesis
    proof (cases q)
      case (Ok vm)
      with assms f Some ex show thesis
        by (auto simp: createVM_def gets_def bnd_eq_Ok handle_eq_Ok ret_def found_vm_def)
    next
      case (Err e)
      with assms f Some by_name [of t] rej keepsD [OF findVMByUUID_rel f] show thesis
        by (auto simp: createVM_def gets_def bnd_eq_Ok handle_eq_Err raise_def uuid_is_free_def split: if_splits)
    qed (use f in simp)
  qed
qed

text \<open>The frame of \<open>createVM\<close>: reads, creations and power-ons; the scope is left alone.\<close>

abbreviation creation_call :: "call \<Rightarrow> bool" where
  "creation_call c \<equiv> is_read c \<or> is_create c \<or> is_power_on c"

lemma keeps_reads: "keeps (call_rel is_read) m \<Longrightarrow> keeps (call_rel creation_call) m"
  by (erule keeps_mono) (erule call_rel_mono, simp)

lemma create_and_power_on_rel: "keeps (call_rel creation_call) (create_and_power_on A n v)"
  unfolding create_and_power_on_def by (intro frame_rules keeps_reads [OF findVMByUUID_rel]) simp_all

lemma create_new_vm_rel: "keeps (call_rel creation_call) (create_new_vm A ud n)"
  unfolding create_new_vm_def
  by (intro frame_rules keeps_reads [OF buildV4VMFromScope_rel] create_and_power_on_rel)

lemma create_by_name_rel: "keeps (call_rel creation_call) (create_by_name A ud n)"
  unfolding create_by_name_def by (intro frame_rules keeps_reads [OF findVMByName_rel] create_new_vm_rel)

lemma createVM_rel: "keeps (call_rel creation_call) (createVM A ud)"
  unfolding createVM_def
  by (intro frame_rules keeps_reads [OF findVMByUUID_rel] create_by_name_rel)

text \<open>
  The calls of a whole run: reads, then a prefix of the creating tail; the tail is entered only
  after both lookups answered that there is no VM, and a success that entered it went to its end.
\<close>

lemma createVM_trace:
  assumes run: "createVM A ud s = (r, s')"
  obtains (kept) "call_rel is_read s s'" "\<forall>vm. r = Ok vm \<longrightarrow> found_vm A s vm s'"
    | (made) t t' rs v u task k where
        "uuid_is_free A s t" "name_is_free A (m_Name (s_machine s)) t t'"
        "fst (buildV4VMFromScope A (base64_EncodeToString ud) t') = Ok v"
        "w_calls s' = w_calls s @ rs @ take (Suc k) (create_trace v u task)" "list_all is_read rs"
        "\<forall>vm. r = Ok vm \<longrightarrow> k = 3"
  using run
proof (cases rule: createVM_cases)
  case (existing vm)
  then have "call_rel is_read s s'"
    by (auto simp: found_vm_def dest!: keepsD [OF findVMByUUID_rel] keepsD [OF findVMByName_rel] uuid_is_free_rel
        intro: call_frame.trans)
  with existing kept show thesis by auto
next
  case (refused e)
  with kept show thesis by auto
next
  case (new t t')
  have st': "call_rel is_read s t'"
    by (rule call_frame.trans [OF uuid_is_free_rel [OF new(1)] name_is_free_rel [OF new(2)]])
  from new(3) show thesis
  proof (cases rule: create_new_vm_trace)
    case unbuilt
    with st' show thesis by (intro kept) (auto intro: call_frame.trans)
  next
    case (built v t2 u task k)
    from call_frame.trans [OF st' built(2)] obtain rs where "w_calls t2 = w_calls s @ rs" "list_all is_read rs"
      by (auto simp: call_rel_def)
    with built new show thesis by (intro made [of t t' v rs k u task]) auto
  qed
qed

end
