(* ===== verification/Addresses.thy ===== *)
theory Addresses
  imports Lookup
begin

text \<open>
  The node addresses of a VM, from \<^verbatim>\<open>pkg/actuators/machine/machine_scope.go\<close>: the IPv4 addresses
  in its NICs, without link-local ones, sorted, and its name as DNS and host name.
\<close>

section \<open>Definitions\<close>

text \<open>The network \<^verbatim>\<open>169.254.0.0/16\<close>.\<close>

definition isLinkLocal :: "string \<Rightarrow> bool" where
  "isLinkLocal ip = (case net_ParseIP ip of
       None \<Rightarrow> False
     | Some parsedIP \<Rightarrow> ipnet4_Contains [169, 254, 0, 0] [255, 255, 0, 0] parsedIP)"

fun learned_ips :: "string option list \<Rightarrow> string list \<Rightarrow> string list" where
  "learned_ips [] ips = ips"
| "learned_ips (v # vs) ips = (case v of
       None \<Rightarrow> learned_ips vs ips
     | Some ip \<Rightarrow> if ip = [] \<or> isLinkLocal ip then learned_ips vs ips else learned_ips vs (ips @ [ip]))"

definition getIPsFromIpv4Info :: "Ipv4Info option \<Rightarrow> string list" where
  "getIPsFromIpv4Info info = (case info of
       None \<Rightarrow> []
     | Some i \<Rightarrow> learned_ips (ii_LearnedIpAddresses i) [])"

text \<open>The deprecated field, read when the one-of field is nil or that of an SR-IOV NIC.\<close>

definition deprecated_info :: "Nic \<Rightarrow> Ipv4Config option \<times> Ipv4Info option" where
  "deprecated_info nic = (case nic_NetworkInfo nic of
       None \<Rightarrow> (None, None)
     | Some i \<Rightarrow> (ni_Ipv4Config i, ni_Ipv4Info i))"

definition nic_ipv4 :: "Nic \<Rightarrow> Ipv4Config option \<times> Ipv4Info option" where
  "nic_ipv4 nic = (case nic_NicNetworkInfo nic of
       Some (VirtualEthernetNicNetworkInfo cfg info) \<Rightarrow> (cfg, info)
     | Some (DpOffloadNicNetworkInfo cfg info) \<Rightarrow> (cfg, info)
     | Some SriovNicNetworkInfo \<Rightarrow> deprecated_info nic
     | None \<Rightarrow> deprecated_info nic)"

definition static_ip :: "Ipv4Config option \<Rightarrow> string option" where
  "static_ip cfg = (case cfg of
       None \<Rightarrow> None
     | Some c \<Rightarrow> (case ic_IpAddress c of
           Some (Some ip) \<Rightarrow> if ip \<noteq> [] \<and> \<not> isLinkLocal ip then Some ip else None
         | _ \<Rightarrow> None))"

definition getIPsFromNic :: "Nic \<Rightarrow> string list" where
  "getIPsFromNic nic = (case nic_ipv4 nic of (ipv4Config, ipv4Info) \<Rightarrow>
     (case static_ip ipv4Config of
        Some ip \<Rightarrow> [ip]
      | None \<Rightarrow> getIPsFromIpv4Info ipv4Info))"

fun getIPsFromNics :: "Nic list \<Rightarrow> string list" where
  "getIPsFromNics [] = []"
| "getIPsFromNics (nic # nics) = getIPsFromNic nic @ getIPsFromNics nics"

definition getIPsFromV4Vm :: "Vm option \<Rightarrow> string list" where
  "getIPsFromV4Vm vm = (case vm of None \<Rightarrow> [] | Some v \<Rightarrow> getIPsFromNics (vm_Nics v))"

text \<open>The addresses of a list of IPs and a VM name, after the sort.\<close>

definition node_addresses :: "string list \<Rightarrow> string option \<Rightarrow> NodeAddress list" where
  "node_addresses ips name =
     map (\<lambda>ip. \<lparr>na_Type = NodeInternalIP, na_Address = ip\<rparr>) (sort ips) @
     (case name of
        None \<Rightarrow> []
      | Some n \<Rightarrow> if n = [] then []
          else [\<lparr>na_Type = NodeInternalDNS, na_Address = n\<rparr>, \<lparr>na_Type = NodeHostName, na_Address = n\<rparr>])"

text \<open>When the embedded NICs give nothing, the NICs are listed; a failed listing is only logged.\<close>

definition buildNodeAddresses :: "'e api \<Rightarrow> Vm \<Rightarrow> (('e, 'z) world_scheme, go_error, NodeAddress list) op" where
  "buildNodeAddresses A vm =
     (let ips = getIPsFromV4Vm (Some vm) in
      bnd (case vm_ExtId vm of
             Some u \<Rightarrow> if ips = []
               then handle (listVMNics A u) (\<lambda>nics. ret (getIPsFromNics nics)) (\<lambda>e. ret ips)
               else ret ips
           | None \<Rightarrow> ret ips)
        (\<lambda>ips. ret (node_addresses ips (vm_Name vm))))"

section \<open>Lemmas\<close>

lemma buildNodeAddresses_rel [frame_rules]: "keeps (call_rel is_read) (buildNodeAddresses A vm)"
  unfolding buildNodeAddresses_def Let_def by (intro frame_rules)

lemma listVMNics_cases:
  obtains (ok) nics t where "listVMNics A u s = (Ok nics, t)" | (err) e t where "listVMNics A u s = (Err e, t)"
proof -
  obtain r t where run: "listVMNics A u s = (r, t)" by fastforce
  with ok err show thesis by (cases r) auto
qed

text \<open>It always returns, and the addresses are those of some list of NICs.\<close>

lemma buildNodeAddresses_Ok:
  obtains nics t where "buildNodeAddresses A vm s = (Ok (node_addresses (getIPsFromNics nics) (vm_Name vm)), t)"
    "call_rel is_read s t" "getIPsFromNics (vm_Nics vm) \<noteq> [] \<Longrightarrow> nics = vm_Nics vm \<and> t = s"
proof -
  have "\<exists>nics t. buildNodeAddresses A vm s = (Ok (node_addresses (getIPsFromNics nics) (vm_Name vm)), t) \<and>
     (getIPsFromNics (vm_Nics vm) \<noteq> [] \<longrightarrow> nics = vm_Nics vm \<and> t = s)"
  proof (cases "vm_ExtId vm = None \<or> getIPsFromNics (vm_Nics vm) \<noteq> []")
    case True
    then show ?thesis
      by (intro exI [of _ "vm_Nics vm"] exI [of _ s])
        (auto simp: buildNodeAddresses_def getIPsFromV4Vm_def ret_def bnd_eq_Ok Let_def split: option.splits)
  next
    case False
    then obtain u where u: "vm_ExtId vm = Some u" "getIPsFromNics (vm_Nics vm) = []" by auto
    show ?thesis
    proof (cases A u s rule: listVMNics_cases)
      case (ok nics t)
      with u show ?thesis
        by (intro exI [of _ nics] exI [of _ t])
          (simp add: buildNodeAddresses_def getIPsFromV4Vm_def Let_def bnd_def handle_def ret_def)
    next
      case (err e t)
      with u show ?thesis
        by (intro exI [of _ "vm_Nics vm"] exI [of _ t])
          (simp add: buildNodeAddresses_def getIPsFromV4Vm_def Let_def bnd_def handle_def ret_def)
    qed
  qed
  with buildNodeAddresses_rel that show thesis by (blast dest: keepsD)
qed

text \<open>On a dotted quad the test is the network's first two bytes.\<close>

lemma byte_and_mask: "x < 256 \<Longrightarrow> and x (255::nat) = x"
  using take_bit_eq_mask [of 8 x] by (simp add: take_bit_eq_mod mask_eq_exp_minus_1)

lemma isLinkLocal_dotted:
  assumes "a < 256" "b < 256" "c < 256" "d < 256"
  shows "isLinkLocal (dotted a b c d) \<longleftrightarrow> a = 169 \<and> b = 254"
  using assms byte_and_mask [of a] byte_and_mask [of b]
  by (auto simp: isLinkLocal_def net_ParseIP_dotted ipnet4_Contains_def)

text \<open>The loops as list functions: only usable addresses come out, and none is lost.\<close>

definition usable_ip :: "string \<Rightarrow> bool" where
  "usable_ip ip \<longleftrightarrow> ip \<noteq> [] \<and> \<not> isLinkLocal ip"

lemma learned_ips_eq: "learned_ips vs ips = ips @ filter usable_ip (List.map_filter id vs)"
  by (induction vs arbitrary: ips) (auto simp: List.map_filter_simps usable_ip_def split: option.splits)

lemma static_ip_Some: "static_ip cfg = Some ip \<Longrightarrow> usable_ip ip"
  by (auto simp: static_ip_def usable_ip_def split: option.splits if_splits)

lemma getIPsFromNic_usable: "ip \<in> set (getIPsFromNic nic) \<Longrightarrow> usable_ip ip"
  by (auto simp: getIPsFromNic_def getIPsFromIpv4Info_def learned_ips_eq dest: static_ip_Some
      split: prod.splits option.splits)

lemma getIPsFromNics_usable: "ip \<in> set (getIPsFromNics nics) \<Longrightarrow> usable_ip ip"
  by (induction nics) (auto dest: getIPsFromNic_usable)

text \<open>The IP addresses among node addresses.\<close>

definition ip_addresses :: "NodeAddress list \<Rightarrow> string list" where
  "ip_addresses as = map na_Address (filter (\<lambda>a. na_Type a = NodeInternalIP) as)"

lemma node_addresses_ips: "ip_addresses (node_addresses ips name) = sort ips"
  by (auto simp: ip_addresses_def node_addresses_def filter_map o_def split: option.splits)

end
