(* ===== verification/Scope.thy ===== *)
theory Scope
  imports Scope_State Addresses
begin

text \<open>
  The machine scope operations of \<^verbatim>\<open>pkg/actuators/machine/machine_scope.go\<close>: how a scope is made
  (provider spec and status decoded, failure domain and credentials resolved, client created),
  how the machine is patched back, the user data, the provider status, the node of the machine.
\<close>

section \<open>Client options\<close>

definition userDataSecretKey :: string where "userDataSecretKey = ''userData''"

text \<open>The first half of \<open>getNutanixClientOptions\<close>: the failure domain the spec refers to.\<close>

definition set_failure_domain :: "Infrastructure \<Rightarrow> ('e, unit) scope_op" where
  "set_failure_domain infra =
     bnd (gets (\<lambda>s. ps_FailureDomain (s_providerSpec s))) (\<lambda>ref. case ref of
       None \<Rightarrow> ret ()
     | Some fdName \<Rightarrow>
         if fdName = [] then ret ()
         else bnd (deref (in_Nutanix infra)) (\<lambda>nutanix.
           case List.find (\<lambda>fd. fd_Name fd = fdName) (np_FailureDomains nutanix) of
             Some fd \<Rightarrow> modify (\<lambda>s. s\<lparr>s_failureDomain := Some fd\<rparr>)
           | None \<Rightarrow> raise (NewError (''Could not find the failureDomain with name '' @ strconv_Quote fdName @
               '' configured in the Infrastructure resource.''))))"

text \<open>The second half: endpoint, port and the credentials of the secret.\<close>

definition pc_credentials :: "'e api \<Rightarrow> NutanixPlatformSpec \<Rightarrow> ('e, ClientOptions) scope_op" where
  "pc_credentials A nutanix =
     bnd (gets (\<lambda>s. (ps_CredentialsSecret (s_providerSpec s), m_Namespace (s_machine s)))) (\<lambda>(ref, ns).
     case ref of
       None \<Rightarrow> raise (NewError ''The nutanix providerSpec credentialsSecret reference is not set.'')
     | Some credsSecretName \<Rightarrow>
         if credsSecretName = []
         then raise (NewError ''The nutanix providerSpec credentialsSecret reference is not set.'')
         else if np_Address nutanix = []
         then raise (NewError ''The PC endpoint address is not set correctly (empty) in the Infrastreucture CR'')
         else if sint (np_Port nutanix) < 1 \<or> sint (np_Port nutanix) > 65535
         then raise (NewError (''The pcPort field is not set right in the Infrastreucture CR: '' @ strconv_Itoa (sint (np_Port nutanix))))
         else
           handle (call_api (C_Get_Secret ns credsSecretName) (a_Get_Secret A ns credsSecretName))
             (\<lambda>credsSecret. case credsSecret ''credentials'' of
                None \<Rightarrow> raise (NewError (''No credentials data found in the local secret '' @ strconv_Quote credsSecretName))
              | Some credentialsData \<Rightarrow>
                  handle (lift_out (setClientCredentials A credentialsData
                      (empty_credentials\<lparr>cr_Endpoint := np_Address nutanix, cr_Port := strconv_Itoa (sint (np_Port nutanix))\<rparr>)))
                    (\<lambda>creds. ret \<lparr>opt_Credentials = Some creds\<rparr>)
                    (\<lambda>e. raise (fmt_Errorf_w ''Failed to get the credentials data to create the PC client. '' e)))
             (\<lambda>e. raise (fmt_Errorf_w (''Could not find the local credentials secret '' @ strconv_Quote credsSecretName @ '': '') e)))"

definition getNutanixClientOptions :: "'e api \<Rightarrow> ('e, ClientOptions) scope_op" where
  "getNutanixClientOptions A =
     handle (call_api (C_Get_Infrastructure globalInfrastuctureName) (a_Get_Infrastructure A globalInfrastuctureName))
       (\<lambda>infra. bnd (set_failure_domain infra) (\<lambda>_.
          bnd (deref (in_Nutanix infra)) (pc_credentials A)))
       (\<lambda>e. raise (fmt_Errorf_w (''Could not find the Infrastruture object '' @ strconv_Quote globalInfrastuctureName @ '': '') e))"

section \<open>A new scope\<close>

text \<open>
  A scope is made in a bare world; the result is the part a scope adds to it.  The parameters
  are the (nil-able) context and machine.
\<close>

record machineScopeParams =
  p_Context :: bool
  p_machine :: "Machine option"

type_synonym scope_fields = "unit machineScope_ext"

definition initial_scope ::
  "Machine \<Rightarrow> NutanixMachineProviderConfig \<Rightarrow> NutanixMachineProviderStatus \<Rightarrow> scope_fields" where
  "initial_scope machine spec status =
     machineScope.fields False \<lparr>opt_Credentials = None\<rparr> machine machine spec status None None"

text \<open>Run an operation of a scope in a bare world, and hand back the scope it leaves.\<close>

definition in_scope :: "scope_fields \<Rightarrow> ('e, 'a) scope_op \<Rightarrow> ('e world, go_error, 'a \<times> scope_fields) op" where
  "in_scope x m = (\<lambda>w. case m (world.extend w x) of
      (Ok a, s) \<Rightarrow> (Ok (a, world.more s), world.truncate s)
    | (Err e, s) \<Rightarrow> (Err e, world.truncate s)
    | (Panic, s) \<Rightarrow> (Panic, world.truncate s))"

definition connect_scope :: "'e api \<Rightarrow> ('e, unit) scope_op" where
  "connect_scope A =
     handle (getNutanixClientOptions A)
       (\<lambda>clientOptions. handle (Client A clientOptions)
          (\<lambda>options'. modify (\<lambda>s. s\<lparr>s_clientOptions := options'\<rparr>))
          (\<lambda>e. raise (fmt_Errorf_w ''failed to create nutanix client: '' e)))
       (\<lambda>e. raise (fmt_Errorf_w ''failed to get endpoint and/or credentials to access the Nutanix PC: '' e))"

definition newMachineScope :: "'e api \<Rightarrow> machineScopeParams \<Rightarrow> ('e world, go_error, scope_fields) op" where
  "newMachineScope A params =
     (case p_machine params of
        None \<Rightarrow> raise (NewError ''context and machine should not be nil'')
      | Some machine \<Rightarrow>
          if \<not> p_Context params then raise (NewError ''context and machine should not be nil'')
          else
            handle (lift_out (NutanixMachineProviderSpecFromRawExtension A (m_ProviderSpec machine)))
              (\<lambda>providerSpec.
                handle (lift_out (NutanixMachineProviderStatusFromRawExtension A (m_ProviderStatus machine)))
                  (\<lambda>providerStatus.
                     bnd (in_scope (initial_scope machine providerSpec providerStatus) (connect_scope A))
                       (\<lambda>(_, x). ret x))
                  (\<lambda>e. raise (InvalidMachineConfiguration (''failed to get machine provider status: '' @ err_Error e))))
              (\<lambda>e. raise (InvalidMachineConfiguration (''failed to get machine provider config: '' @ err_Error e))))"

section \<open>Patching the machine\<close>

text \<open>The status of a machine, as the copy that survives the first patch.\<close>

definition copy_status :: "Machine \<Rightarrow> Machine \<Rightarrow> Machine" where
  "copy_status src m = m\<lparr>m_ProviderStatus := m_ProviderStatus src, m_Addresses := m_Addresses src, m_NodeRef := m_NodeRef src\<rparr>"

definition set_machine :: "Machine \<Rightarrow> ('e, unit) scope_op" where
  "set_machine m = modify (\<lambda>s. s\<lparr>s_machine := m\<rparr>)"

definition patchMachine :: "'e api \<Rightarrow> ('e, unit) scope_op" where
  "patchMachine A =
     bnd (gets s_providerStatus) (\<lambda>status.
     handle (lift_out (RawExtensionFromNutanixMachineProviderStatus A (Some status)))
       (\<lambda>raw.
         bnd (gets s_machineToBePatched) (\<lambda>orig.
         bnd (gets s_machine) (\<lambda>m0.
         let machine = m0\<lparr>m_ProviderStatus := Some raw\<rparr> in
         bnd (set_machine machine) (\<lambda>_.
         handle (call_api (C_Patch_Machine machine) (a_Patch_Machine A machine orig))
           (\<lambda>patched.
             let machine' = copy_status machine patched in
             bnd (set_machine machine') (\<lambda>_.
             handle (call_api (C_Patch_MachineStatus machine') (a_Patch_MachineStatus A machine' orig))
               set_machine
               (\<lambda>e. raise (fmt_Errorf_w (m_Name machine' @ '': failed to patch machine status. '') e))))
           (\<lambda>e. raise (fmt_Errorf_w (''Failed to patch machine '' @ strconv_Quote (m_Name machine) @ '': '') e))))))
       (\<lambda>e. raise (InvalidMachineConfiguration (''failed to get machine provider status: '' @ err_Error e))))"

section \<open>User data\<close>

definition hostname_file :: "'e api \<Rightarrow> string \<Rightarrow> IgnFile" where
  "hostname_file A name = \<lparr>if_Path = ''/etc/hostname'', if_Overwrite = Some True, if_Mode = Some 420,
     if_Source = Some (a_dataurl_EncodeBytes A name)\<rparr>"

definition os_id_label :: string where "os_id_label = ''machine.openshift.io/os-id''"

definition getUserData :: "'e api \<Rightarrow> ('e, bytes) scope_op" where
  "getUserData A =
     bnd (gets (\<lambda>s. (ps_UserDataSecret (s_providerSpec s), s_machine s))) (\<lambda>(ref, machine).
     case ref of
       None \<Rightarrow> ret []
     | Some secretName \<Rightarrow>
         bnd (call_api (C_Get_Secret (m_Namespace machine) secretName) (a_Get_Secret A (m_Namespace machine) secretName)) (\<lambda>secret.
         case secret userDataSecretKey of
           None \<Rightarrow> raise (NewError (''The userData secret '' @ m_Namespace machine @ ''/'' @ secretName @
                     '' missing '' @ userDataSecretKey @ '' key''))
         | Some userData \<Rightarrow>
             if map_get (m_Labels machine) os_id_label = ''Windows'' then ret userData
             else
               handle (lift_sum (a_Unmarshal_Ignition A userData))
                 (\<lambda>ignConfig.
                   handle (lift_sum (a_Marshal_Ignition A
                       (ignConfig\<lparr>ig_Files := ig_Files ignConfig @ [hostname_file A (m_Name machine)]\<rparr>)))
                     ret
                     (\<lambda>e. raise (fmt_Errorf_w ''Failed to marshal ignition data. '' e)))
                 (\<lambda>e. raise (fmt_Errorf_w ''Failed to unmarshal userData to IgnitionConfig. '' e))))"

section \<open>Provider status\<close>

definition set_conditions :: "'e api \<Rightarrow> Condition list \<Rightarrow> ('e, unit) scope_op" where
  "set_conditions A conds =
     bnd (gets (\<lambda>s. st_Conditions (s_providerStatus s))) (\<lambda>cur.
     bnd (setNutanixProviderConditions A conds cur) (\<lambda>new.
     modify (\<lambda>s. s\<lparr>s_providerStatus := (s_providerStatus s)\<lparr>st_Conditions := new\<rparr>\<rparr>)))"

definition setProviderStatus :: "'e api \<Rightarrow> Vm option \<Rightarrow> Condition \<Rightarrow> ('e, unit) scope_op" where
  "setProviderStatus A vm condition = (case vm of
       None \<Rightarrow> set_conditions A [condition]
     | Some v \<Rightarrow>
         bnd (case vm_ExtId v of
                None \<Rightarrow> ret ()
              | Some u \<Rightarrow> modify (\<lambda>s. s\<lparr>s_providerStatus := (s_providerStatus s)\<lparr>st_VmUUID := Some u\<rparr>\<rparr>)) (\<lambda>_.
         bnd (buildNodeAddresses A v) (\<lambda>addresses.
         bnd (modify (\<lambda>s. s\<lparr>s_machine := (s_machine s)\<lparr>m_Addresses := addresses\<rparr>\<rparr>)) (\<lambda>_.
         set_conditions A [condition]))))"

section \<open>The node of a machine\<close>

definition isNodeLinked :: "Machine \<Rightarrow> bool" where
  "isNodeLinked machine \<longleftrightarrow> (case m_NodeRef machine of None \<Rightarrow> False | Some n \<Rightarrow> n \<noteq> [])"

definition getNode :: "'e api \<Rightarrow> ('e, Node) scope_op" where
  "getNode A =
     bnd (gets s_machine) (\<lambda>machine.
     if \<not> isNodeLinked machine
     then raise (NewError (''[Machine: '' @ m_Name machine @ ''] NodeRef empty, unable to get related Node''))
     else bnd (deref (m_NodeRef machine)) (\<lambda>nodeName. call_api (C_Get_Node nodeName) (a_Get_Node A nodeName)))"

definition nodeHasVolumesAttached :: "'e api \<Rightarrow> ('e, bool) scope_op" where
  "nodeHasVolumesAttached A =
     handle (getNode A)
       (\<lambda>node. ret (n_VolumesAttached node \<noteq> []))
       (\<lambda>e. if apierrors_IsNotFound e then ret False else raise e)"

section \<open>Frames\<close>

lemmas world_log [frame_rules] =
  keeps_log [OF findVMByUUID_rel] keeps_log [OF findVMByName_rel] keeps_log [OF buildNodeAddresses_rel]
  keeps_log [OF getClusterNameByUUID_rel] keeps_log [OF getPrismCentralCluster_rel]

lemma set_conditions_log [frame_rules]: "keeps (log_rel P) (set_conditions A conds)"
  unfolding set_conditions_def by (intro frame_rules keeps_log [OF setNutanixProviderConditions_rel]) simp

lemma setProviderStatus_log [frame_rules]: "keeps (log_rel is_read) (setProviderStatus A vm c)"
  unfolding setProviderStatus_def by (intro frame_rules) simp_all

lemma set_failure_domain_log [frame_rules]: "keeps (log_rel P) (set_failure_domain infra)"
  unfolding set_failure_domain_def by (intro frame_rules) simp

lemma pc_credentials_rel [frame_rules]: "keeps (call_rel is_read) (pc_credentials A np)"
  unfolding pc_credentials_def by (intro frame_rules) simp

lemma getNutanixClientOptions_log [frame_rules]: "keeps (log_rel is_read) (getNutanixClientOptions A)"
  unfolding getNutanixClientOptions_def
  by (intro frame_rules keeps_log [OF pc_credentials_rel]) simp

lemma connect_scope_log [frame_rules]: "keeps (log_rel is_read) (connect_scope A)"
  unfolding connect_scope_def by (intro frame_rules keeps_log [OF Client_rel]) simp_all

lemma in_scope_log [frame_rules]:
  assumes "keeps (log_rel P) m"
  shows "keeps (log_rel P) (in_scope x m)"
proof (rule keepsI)
  fix w r w' assume run: "in_scope x m w = (r, w')"
  obtain q s where m: "m (world.extend w x) = (q, s)" by fastforce
  from keepsD [OF assms m] run m show "log_rel P w w'"
    by (cases q) (auto simp: in_scope_def log_rel_def)
qed

lemma newMachineScope_log [frame_rules]: "keeps (log_rel is_read) (newMachineScope A p)"
  unfolding newMachineScope_def by (intro frame_rules)

lemma getUserData_rel [frame_rules]: "keeps (call_rel is_read) (getUserData A)"
  unfolding getUserData_def by (intro frame_rules) simp

lemma getNode_rel [frame_rules]: "keeps (call_rel is_read) (getNode A)"
  unfolding getNode_def by (intro frame_rules) simp

lemma nodeHasVolumesAttached_rel [frame_rules]: "keeps (call_rel is_read) (nodeHasVolumesAttached A)"
  unfolding nodeHasVolumesAttached_def by (intro frame_rules)

fun is_patch :: "call \<Rightarrow> bool" where
  "is_patch (C_Patch_Machine m) = True"
| "is_patch (C_Patch_MachineStatus m) = True"
| "is_patch _ = False"

lemma set_machine_log [frame_rules]: "keeps (log_rel P) (set_machine m)"
  unfolding set_machine_def by (intro frame_rules) simp

lemma patchMachine_log [frame_rules]: "keeps (log_rel is_patch) (patchMachine A)"
  unfolding patchMachine_def Let_def by (intro frame_rules) simp_all

section \<open>What the operations do\<close>

lemma set_conditions_Ok:
  obtains t where "set_conditions A conds s =
      (Ok (), t\<lparr>s_providerStatus := (s_providerStatus s)\<lparr>st_Conditions := conds\<rparr>\<rparr>)" "call_rel (\<lambda>_. False) s t"
proof -
  obtain t where t: "setNutanixProviderConditions A conds (st_Conditions (s_providerStatus s)) s = (Ok conds, t)"
    and rel: "call_rel (\<lambda>_. False) s t" by (rule setNutanixProviderConditions_eq)
  from t have "set_conditions A conds s = (Ok (), t\<lparr>s_providerStatus := (s_providerStatus t)\<lparr>st_Conditions := conds\<rparr>\<rparr>)"
    by (simp add: set_conditions_def gets_def modify_def bnd_eq_Ok)
  with rel call_rel_fields(6) [OF rel] show thesis by (intro that) auto
qed

text \<open>
  After \<open>setProviderStatus\<close> the status holds exactly the given condition, the uuid of the VM if it
  has one, and the machine holds the VM's addresses; nothing else of the scope changed.
\<close>

definition status_set :: "Vm option \<Rightarrow> Condition \<Rightarrow> 'e machineScope \<Rightarrow> 'e machineScope \<Rightarrow> bool" where
  "status_set vm c s s' \<longleftrightarrow>
     st_Conditions (s_providerStatus s') = [c] \<and>
     st_VmUUID (s_providerStatus s') = (case vm of
        Some v \<Rightarrow> (case vm_ExtId v of Some u \<Rightarrow> Some u | None \<Rightarrow> st_VmUUID (s_providerStatus s))
      | None \<Rightarrow> st_VmUUID (s_providerStatus s)) \<and>
     (case vm of
        None \<Rightarrow> s_machine s' = s_machine s
      | Some v \<Rightarrow> \<exists>nics. s_machine s' = (s_machine s)\<lparr>m_Addresses := node_addresses (getIPsFromNics nics) (vm_Name v)\<rparr>) \<and>
     s_providerSpec s' = s_providerSpec s \<and> s_machineToBePatched s' = s_machineToBePatched s \<and>
     s_failureDomain s' = s_failureDomain s \<and> w_events s' = w_events s \<and> w_metrics s' = w_metrics s"

lemma setProviderStatus_None:
  obtains s' where "setProviderStatus A None c s = (Ok (), s')" "status_set None c s s'"
proof -
  obtain t where t: "set_conditions A [c] s = (Ok (), t\<lparr>s_providerStatus := (s_providerStatus s)\<lparr>st_Conditions := [c]\<rparr>\<rparr>)"
    and rel: "call_rel (\<lambda>_. False) s t" by (rule set_conditions_Ok)
  from call_rel_fields [OF rel] rel have "status_set None c s (t\<lparr>s_providerStatus := (s_providerStatus s)\<lparr>st_Conditions := [c]\<rparr>\<rparr>)"
    by (simp add: status_set_def call_rel_def)
  with t show thesis by (intro that) (simp_all add: setProviderStatus_def)
qed

lemma setProviderStatus_Some:
  obtains s' where "setProviderStatus A (Some v) c s = (Ok (), s')" "status_set (Some v) c s s'"
proof -
  let ?s1 = "case vm_ExtId v of None \<Rightarrow> s | Some u \<Rightarrow> s\<lparr>s_providerStatus := (s_providerStatus s)\<lparr>st_VmUUID := Some u\<rparr>\<rparr>"
  obtain nics s2 where a: "buildNodeAddresses A v ?s1 = (Ok (node_addresses (getIPsFromNics nics) (vm_Name v)), s2)"
    and r2: "call_rel is_read ?s1 s2" by (rule buildNodeAddresses_Ok)
  let ?s3 = "s2\<lparr>s_machine := (s_machine s2)\<lparr>m_Addresses := node_addresses (getIPsFromNics nics) (vm_Name v)\<rparr>\<rparr>"
  obtain t where t: "set_conditions A [c] ?s3 = (Ok (), t\<lparr>s_providerStatus := (s_providerStatus ?s3)\<lparr>st_Conditions := [c]\<rparr>\<rparr>)"
    and r3: "call_rel (\<lambda>_. False) ?s3 t" by (rule set_conditions_Ok)
  let ?s' = "t\<lparr>s_providerStatus := (s_providerStatus ?s3)\<lparr>st_Conditions := [c]\<rparr>\<rparr>"
  have run: "setProviderStatus A (Some v) c s = (Ok (), ?s')"
    using a t by (cases "vm_ExtId v") (simp_all add: setProviderStatus_def modify_def bnd_eq_Ok ret_def)
  have "status_set (Some v) c s ?s'"
    using call_rel_fields [OF r2] call_rel_fields [OF r3] r2 r3
    by (cases "vm_ExtId v") (auto simp: status_set_def call_rel_def)
  with run show thesis by (rule that)
qed

lemma setProviderStatus_Ok:
  obtains s' where "setProviderStatus A vm c s = (Ok (), s')" "status_set vm c s s'"
  by (cases vm) (auto elim: setProviderStatus_None setProviderStatus_Some)

lemma setProviderStatusD:
  "setProviderStatus A vm c s = (r, s') \<Longrightarrow> r = Ok () \<and> status_set vm c s s'"
  by (rule setProviderStatus_Ok [of A vm c s]) simp

text \<open>Which failure domain a scope ends up with.\<close>

definition failure_domain_ok :: "NutanixMachineProviderConfig \<Rightarrow> NutanixFailureDomain option \<Rightarrow> bool" where
  "failure_domain_ok sp fd \<longleftrightarrow> (case ps_FailureDomain sp of
      Some n \<Rightarrow> if n = [] then fd = None else (\<exists>d. fd = Some d \<and> fd_Name d = n)
    | None \<Rightarrow> fd = None)"

lemma set_failure_domain_Ok:
  assumes "set_failure_domain infra s = (Ok (), s')" and "s_failureDomain s = None"
  shows "failure_domain_ok (s_providerSpec s) (s_failureDomain s')"
    and "s' = s\<lparr>s_failureDomain := s_failureDomain s'\<rparr>"
  using assms
  by (auto simp: set_failure_domain_def failure_domain_ok_def op_defs find_Some_iff
      split: option.splits if_splits)

text \<open>Credentials a client is made from: complete, with a port in range.\<close>

definition credentials_ok :: "Credentials \<Rightarrow> bool" where
  "credentials_ok c \<longleftrightarrow> cr_Endpoint c \<noteq> [] \<and> cr_Username c \<noteq> [] \<and> cr_Password c \<noteq> [] \<and>
     (\<exists>port. strconv_Atoi (cr_Port c) = Some port \<and> 1 \<le> port \<and> port \<le> 65535)"

lemma setClientCredentials_Ok:
  "setClientCredentials A d creds = Ok c \<Longrightarrow>
     \<exists>u p. c = creds\<lparr>cr_Username := u, cr_Password := p\<rparr> \<and> u \<noteq> [] \<and> p \<noteq> []"
  by (auto simp: setClientCredentials_def split: sum.splits list.splits option.splits if_splits)

lemma pc_credentials_Ok:
  assumes "pc_credentials A np s = (Ok opts, s')"
  shows "\<exists>c. opts = \<lparr>opt_Credentials = Some c\<rparr> \<and> credentials_ok c \<and> cr_Endpoint c = np_Address np"
  using assms
  by (fastforce simp: pc_credentials_def credentials_ok_def strconv_Atoi_Itoa op_defs
      dest!: setClientCredentials_Ok split: option.splits prod.splits if_splits outcome.splits)

lemma getNutanixClientOptions_Ok:
  assumes run: "getNutanixClientOptions A s = (Ok opts, s')" and fd: "s_failureDomain s = None"
  shows "\<exists>c. opts = \<lparr>opt_Credentials = Some c\<rparr> \<and> credentials_ok c"
    and "failure_domain_ok (s_providerSpec s) (s_failureDomain s')"
    and "world.more s' = world.more (s\<lparr>s_failureDomain := s_failureDomain s'\<rparr>)"
proof -
  from run obtain infra s1 s2 np where
    s1: "call_api (C_Get_Infrastructure globalInfrastuctureName) (a_Get_Infrastructure A globalInfrastuctureName) s = (Ok infra, s1)"
    and s2: "set_failure_domain infra s1 = (Ok (), s2)" and creds: "pc_credentials A np s2 = (Ok opts, s')"
    by (auto simp: getNutanixClientOptions_def deref_def panic_def ret_def raise_def elim!: handle_OkE bnd_OkE
        split: option.splits)
  show "\<exists>c. opts = \<lparr>opt_Credentials = Some c\<rparr> \<and> credentials_ok c" using pc_credentials_Ok [OF creds] by blast
  have r1: "call_rel is_read s s1" by (rule keepsD [OF call_api_rel s1]) simp
  have r2: "call_rel is_read s2 s'" by (rule keepsD [OF pc_credentials_rel creds])
  note f1 = call_rel_fields [OF r1] and f2 = call_rel_fields [OF r2]
  from s2 f1 fd have s2': "failure_domain_ok (s_providerSpec s) (s_failureDomain s2)" "s2 = s1\<lparr>s_failureDomain := s_failureDomain s2\<rparr>"
    using set_failure_domain_Ok [of infra s1 s2] by auto
  with f2 show "failure_domain_ok (s_providerSpec s) (s_failureDomain s')" by simp
  have "world.more s2 = world.more (s1\<lparr>s_failureDomain := s_failureDomain s2\<rparr>)" using s2'(2) by (rule arg_cong)
  then show "world.more s' = world.more (s\<lparr>s_failureDomain := s_failureDomain s'\<rparr>)"
    using call_rel_more [OF r1] call_rel_more [OF r2] f2(7) by (cases s; cases s1) simp
qed

text \<open>
  A new scope holds the machine it was made for, its decoded spec and status, the failure domain
  the spec refers to, and complete credentials; no validated spec yet, and only reads were made.
\<close>

definition scope_ok :: "'e api \<Rightarrow> Machine \<Rightarrow> 'e machineScope \<Rightarrow> bool" where
  "scope_ok A m s \<longleftrightarrow>
     s_machine s = m \<and> s_machineToBePatched s = m \<and>
     NutanixMachineProviderSpecFromRawExtension A (m_ProviderSpec m) = Ok (s_providerSpec s) \<and>
     NutanixMachineProviderStatusFromRawExtension A (m_ProviderStatus m) = Ok (s_providerStatus s) \<and>
     failure_domain_ok (s_providerSpec s) (s_failureDomain s) \<and>
     s_providerSpecValidated s = None \<and> \<not> s_nutanixV3Client s \<and>
     (\<exists>c. opt_Credentials (s_clientOptions s) = Some c \<and> credentials_ok c \<and> cr_URL c \<noteq> [])"

lemma Client_Ok:
  assumes "Client A opts s = (Ok opts', s')" and "opt_Credentials opts = Some c" and "credentials_ok c"
  shows "\<exists>c'. opt_Credentials opts' = Some c' \<and> credentials_ok c' \<and> cr_URL c' \<noteq> []"
proof -
  from assms(1) have "opts' = resolveCredentials A (w_ext s) opts"
    by (auto simp: Client_def gets_def bnd_eq_Ok ret_def elim!: bnd_OkE)
  with assms(2,3) show ?thesis by (auto simp: resolveCredentials_def credentials_ok_def Let_def)
qed

lemma initial_scope_simps [simp]:
  fixes w :: "'e world"
  shows "s_machine (world.extend w (initial_scope m sp st)) = m"
    "s_machineToBePatched (world.extend w (initial_scope m sp st)) = m"
    "s_providerSpec (world.extend w (initial_scope m sp st)) = sp"
    "s_providerStatus (world.extend w (initial_scope m sp st)) = st"
    "s_failureDomain (world.extend w (initial_scope m sp st)) = None"
    "s_providerSpecValidated (world.extend w (initial_scope m sp st)) = None"
    "s_nutanixV3Client (world.extend w (initial_scope m sp st)) = False"
  unfolding initial_scope_def world.extend_def machineScope.fields_def by simp_all

lemma connect_scope_Ok:
  assumes run: "connect_scope A s = (Ok (), s')" and fd: "s_failureDomain s = None"
  shows "\<exists>c. opt_Credentials (s_clientOptions s') = Some c \<and> credentials_ok c \<and> cr_URL c \<noteq> []"
    and "failure_domain_ok (s_providerSpec s) (s_failureDomain s')"
    and "world.more s' = world.more (s\<lparr>s_failureDomain := s_failureDomain s', s_clientOptions := s_clientOptions s'\<rparr>)"
proof -
  from run obtain opts s1 opts' s2 where o: "getNutanixClientOptions A s = (Ok opts, s1)"
    and c: "Client A opts s1 = (Ok opts', s2)" and s': "s' = s2\<lparr>s_clientOptions := opts'\<rparr>"
    by (auto simp: connect_scope_def modify_def raise_def elim!: handle_OkE)
  note g = getNutanixClientOptions_Ok [OF o fd]
  have r: "call_rel is_read s1 s2" by (rule keepsD [OF Client_rel c]) simp
  note f = call_rel_fields [OF r]
  show "\<exists>c. opt_Credentials (s_clientOptions s') = Some c \<and> credentials_ok c \<and> cr_URL c \<noteq> []"
    using g(1) Client_Ok [OF c] s' by auto
  show "failure_domain_ok (s_providerSpec s) (s_failureDomain s')" using g(2) f s' by simp
  show "world.more s' = world.more (s\<lparr>s_failureDomain := s_failureDomain s', s_clientOptions := s_clientOptions s'\<rparr>)"
    using g(3) f call_rel_more [OF r] s' by (cases s; cases s1; cases s2) simp
qed

lemma newMachineScope_Ok:
  assumes run: "newMachineScope A \<lparr>p_Context = ctx, p_machine = Some m\<rparr> w = (Ok x, w')"
  shows "scope_ok A m (world.extend w' x)" and "log_rel is_read w w'"
proof -
  show "log_rel is_read w w'" by (rule keepsD [OF newMachineScope_log run])
  from run obtain sp st where sp: "NutanixMachineProviderSpecFromRawExtension A (m_ProviderSpec m) = Ok sp"
    and st: "NutanixMachineProviderStatusFromRawExtension A (m_ProviderStatus m) = Ok st"
    and con: "in_scope (initial_scope m sp st) (connect_scope A) w = (Ok ((), x), w')"
    by (auto simp: newMachineScope_def lift_out_def ret_def raise_def elim!: handle_OkE bnd_OkE split: if_splits)
  obtain s' where s': "connect_scope A (world.extend w (initial_scope m sp st)) = (Ok (), s')"
    and x: "x = world.more s'" and w': "w' = world.truncate s'"
    using con by (auto simp: in_scope_def split: prod.splits outcome.splits)
  have ext: "world.extend w' x = s'" unfolding x w' by (rule world_truncate_extend)
  note c = connect_scope_Ok [OF s', simplified]
  note f = more_eq_scope [OF c(3)]
  show "scope_ok A m (world.extend w' x)"
    unfolding scope_ok_def ext using c(1,2) f sp st by simp
qed

text \<open>
  Patching: the two calls in order, both against the original copy.  The status in the second
  call is the one computed before the first, whatever the server returned.
\<close>

definition same_status :: "Machine \<Rightarrow> Machine \<Rightarrow> bool" where
  "same_status a b \<longleftrightarrow> m_ProviderStatus a = m_ProviderStatus b \<and> m_Addresses a = m_Addresses b \<and> m_NodeRef a = m_NodeRef b"

lemma copy_status_same [simp]: "same_status a (copy_status a b)"
  by (simp add: same_status_def copy_status_def)

lemma patchMachine_Ok:
  assumes "patchMachine A s = (Ok (), s')"
  obtains raw m1 p1 m2 t1 t2 where
    "a_Marshal_Status A (s_providerStatus s) = Inr raw" "m1 = (s_machine s)\<lparr>m_ProviderStatus := Some raw\<rparr>"
    "a_Patch_Machine A m1 (s_machineToBePatched s) (w_ext s) = (Inr p1, t1)" "m2 = copy_status m1 p1"
    "a_Patch_MachineStatus A m2 (s_machineToBePatched s) t1 = (Inr (s_machine s'), t2)"
    "w_calls s' = w_calls s @ [C_Patch_Machine m1, C_Patch_MachineStatus m2]" "w_events s' = w_events s"
  using assms
  by (auto simp: patchMachine_def RawExtensionFromNutanixMachineProviderStatus_def set_machine_def call_api_def
      op_defs Let_def split: sum.splits prod.splits)

lemma patchMachine_frame:
  assumes "patchMachine A s = (r, s')"
  shows "w_events s' = w_events s" "w_metrics s' = w_metrics s" "s_providerStatus s' = s_providerStatus s"
    "s_providerSpec s' = s_providerSpec s" "r \<noteq> Panic"
  using assms
  by (auto simp: patchMachine_def RawExtensionFromNutanixMachineProviderStatus_def set_machine_def call_api_def
      op_defs Let_def split: sum.splits prod.splits)

text \<open>User data of a machine that is not a Windows machine: its ignition config plus the host name file.\<close>

lemma getUserData_Ok:
  assumes "getUserData A s = (Ok ud, s')" and "ps_UserDataSecret (s_providerSpec s) = Some n"
    and "map_get (m_Labels (s_machine s)) os_id_label \<noteq> ''Windows''"
  obtains secret d cfg where
    "a_Get_Secret A (m_Namespace (s_machine s)) n (w_ext s) = (Inr secret, w_ext s')" "secret userDataSecretKey = Some d"
    "a_Unmarshal_Ignition A d = Inr cfg"
    "a_Marshal_Ignition A (cfg\<lparr>ig_Files := ig_Files cfg @ [hostname_file A (m_Name (s_machine s))]\<rparr>) = Inr ud"
  using assms
  by (auto simp: getUserData_def call_api_def op_defs split: sum.splits prod.splits option.splits)

text \<open>The answer about attached volumes for a linked machine.\<close>

lemma nodeHasVolumesAttached_linked:
  assumes "m_NodeRef (s_machine s) = Some n" and "n \<noteq> []"
  shows "nodeHasVolumesAttached A s =
    (let (r, e) = a_Get_Node A n (w_ext s); s' = s\<lparr>w_ext := e, w_calls := w_calls s @ [C_Get_Node n]\<rparr>
     in case r of
          Inr node \<Rightarrow> (Ok (n_VolumesAttached node \<noteq> []), s')
        | Inl err \<Rightarrow> if apierrors_IsNotFound err then (Ok False, s') else (Err err, s'))"
  using assms
  by (auto simp: nodeHasVolumesAttached_def getNode_def isNodeLinked_def call_api_def op_defs
      split: prod.splits sum.splits)

lemma nodeHasVolumesAttached_not_Panic [simp]: "nodeHasVolumesAttached A s \<noteq> (Panic, s')"
  by (auto simp: nodeHasVolumesAttached_def getNode_def isNodeLinked_def call_api_def op_defs
      split: prod.splits sum.splits option.splits)

end
