(* ===== verification/Reconcile.thy ===== *)
theory Reconcile
  imports Build_VM Scope
begin

text \<open>
  \<^verbatim>\<open>pkg/actuators/machine/reconciler.go\<close>: create, update, delete and exists of a machine's VM, and
  the copying of the VM's state into the machine.  Context deadlines are not modelled as time:
  an expired deadline is one more error an external call may answer.
\<close>

section \<open>Copying the VM state\<close>

definition masterLabel :: string where "masterLabel = ''node-role.kubernetes.io/master''"
definition MachineInstancePowerStateAnnotationName :: string where
  "MachineInstancePowerStateAnnotationName = ''machine.openshift.io/instance-power-state''"
definition MachineInstanceStateAnnotationName :: string where
  "MachineInstanceStateAnnotationName = ''machine.openshift.io/instance-state''"
definition MachineRegionLabelName :: string where "MachineRegionLabelName = ''machine.openshift.io/region''"
definition MachineAZLabelName :: string where "MachineAZLabelName = ''machine.openshift.io/zone''"
definition MachineInstanceTypeLabelName :: string where
  "MachineInstanceTypeLabelName = ''machine.openshift.io/instance-type''"

definition providerIDFormat :: "string \<Rightarrow> string" where
  "providerIDFormat u = ''nutanix://'' @ u"

definition vmPowerStateName :: "Vm option \<Rightarrow> string" where
  "vmPowerStateName vm = (case vm of
       None \<Rightarrow> ''UNKNOWN''
     | Some v \<Rightarrow> (case vm_PowerState v of None \<Rightarrow> ''UNKNOWN'' | Some p \<Rightarrow> PowerState_GetName p))"

text \<open>The node of the machine gets the same provider id, written only when it differs.\<close>

definition set_node_provider_id :: "'e api \<Rightarrow> string \<Rightarrow> Machine \<Rightarrow> ('e, unit) scope_op" where
  "set_node_provider_id A providerID machine = (case m_NodeRef machine of
       None \<Rightarrow> ret ()
     | Some ref \<Rightarrow>
         (let nodeName = (if ref = [] then m_Name machine else ref) in
          handle (call_api (C_Get_Node nodeName) (a_Get_Node A nodeName))
            (\<lambda>node. if n_ProviderID node = providerID then ret ()
               else let node' = node\<lparr>n_ProviderID := providerID\<rparr>
                    in call_api (C_Update_Node node') (a_Update_Node A node'))
            (\<lambda>e. raise (fmt_Errorf_w (m_Name machine @ '': failed to get node '' @ nodeName @ '': '') e))))"

definition setProviderID :: "'e api \<Rightarrow> string option \<Rightarrow> ('e, unit) scope_op" where
  "setProviderID A vmUUID =
     bnd (gets s_machine) (\<lambda>machine.
     case vmUUID of
       None \<Rightarrow> raise (NewError (m_Name machine @ '': Failed to update machine providerID: null vmUUID''))
     | Some u \<Rightarrow>
         (let providerID = providerIDFormat u in
          bnd (if m_ProviderID machine = Some providerID then ret ()
               else set_machine (machine\<lparr>m_ProviderID := Some providerID\<rparr>)) (\<lambda>_.
          set_node_provider_id A providerID machine)))"

definition vm_region :: "Cluster \<Rightarrow> string" where
  "vm_region pcCluster = ptr_Deref (cl_Name pcCluster) ''Unnamed''"

definition vm_zone :: "'e api \<Rightarrow> Vm \<Rightarrow> ('e, string) scope_op" where
  "vm_zone A vm = (case vm_Cluster vm of
       Some (Some u) \<Rightarrow> handle (getClusterNameByUUID A u) ret (\<lambda>e. ret ''Unnamed'')
     | _ \<Rightarrow> ret ''Unnamed'')"

text \<open>The labels and annotations written at the end.\<close>

definition instance_labels :: "string \<Rightarrow> string \<Rightarrow> Vm \<Rightarrow> Machine \<Rightarrow> Machine" where
  "instance_labels vmRegion vmZone vm machine =
     (let powerState = vmPowerStateName (Some vm);
          vmState = (if powerState = ''ON'' then ''ACTIVE'' else powerState)
      in machine
        \<lparr>m_Labels := Some ((map_make (m_Labels machine))(MachineRegionLabelName \<mapsto> vmRegion,
            MachineAZLabelName \<mapsto> vmZone, MachineInstanceTypeLabelName \<mapsto> ''AHV'')),
         m_Annotations := Some ((map_make (m_Annotations machine))(MachineInstanceStateAnnotationName \<mapsto> vmState,
            MachineInstancePowerStateAnnotationName \<mapsto> powerState))\<rparr>)"

definition updateMachineWithVMState :: "'e api \<Rightarrow> Vm option \<Rightarrow> ('e, unit) scope_op" where
  "updateMachineWithVMState A vm = (case vm of
       None \<Rightarrow> ret ()
     | Some v \<Rightarrow>
         bnd (setProviderID A (vm_ExtId v)) (\<lambda>_.
         bnd (getPrismCentralCluster A) (\<lambda>pcCluster.
         bnd (vm_zone A v) (\<lambda>vmZone.
         bnd (gets s_machine) (\<lambda>machine.
         set_machine (instance_labels (vm_region pcCluster) vmZone v machine))))))"

section \<open>The four operations\<close>

definition create :: "'e api \<Rightarrow> ('e, unit) scope_op" where
  "create A =
     bnd (gets s_machine) (\<lambda>machine.
     handle (lift_out (validateMachine machine))
       (\<lambda>_. handle (getUserData A)
         (\<lambda>userData.
           bnd (validateVMConfig A) (\<lambda>errList.
           if errList \<noteq> []
           then raise (InvalidMachineConfiguration
                  (m_Name machine @ '': failed in validating machine providerSpec: '' @ aggregate_Error errList))
           else
             handle (createVM A userData)
               (\<lambda>vm. handle (updateMachineWithVMState A (Some vm))
                  (\<lambda>_. setProviderStatus A (Some vm) (conditionSuccess machineCreation))
                  (\<lambda>e. raise (fmt_Errorf_w ''failed to update machine with vm state: '' e)))
               (\<lambda>e. bnd (setProviderStatus A None (conditionFailed machineCreation (err_Error e))) (\<lambda>_.
                  raise (fmt_Errorf_w ''failed to create VM: '' e)))))
         (\<lambda>e. raise (fmt_Errorf_w ''failed to get user data: '' e)))
       (\<lambda>e. raise (fmt_Errorf_w (m_Name machine @ '': failed validating machine provider spec: '') e)))"

text \<open>A failed step of \<open>update\<close>: count it, note it in the status, return the error.\<close>

definition update_failed :: "'e api \<Rightarrow> Machine \<Rightarrow> string \<Rightarrow> Vm option \<Rightarrow> go_error \<Rightarrow> ('e, 'a) scope_op" where
  "update_failed A machine reason vm e =
     bnd (record_metric (FailedInstanceUpdate (m_Name machine) (m_Namespace machine) reason)) (\<lambda>_.
     bnd (setProviderStatus A vm (conditionFailed machineUpdate (err_Error e))) (\<lambda>_.
     raise e))"

definition find_for_update :: "'e api \<Rightarrow> Machine \<Rightarrow> ('e, Vm) scope_op" where
  "find_for_update A machine =
     bnd (gets (\<lambda>s. st_VmUUID (s_providerStatus s))) (\<lambda>vmUUID.
     case vmUUID of
       None \<Rightarrow>
         handle (findVMByName A (m_Name machine))
           (\<lambda>vm. bnd (modify (\<lambda>s. s\<lparr>s_providerStatus := (s_providerStatus s)\<lparr>st_VmUUID := vm_ExtId vm\<rparr>\<rparr>)) (\<lambda>_. ret vm))
           (update_failed A machine ''error finding VM by name'' None)
     | Some vmUuid \<Rightarrow>
         handle (findVMByUUID A vmUuid)
           ret
           (update_failed A machine ''error finding VM by UUID'' None))"

definition update :: "'e api \<Rightarrow> ('e, unit) scope_op" where
  "update A =
     bnd (gets s_machine) (\<lambda>machine.
     handle (lift_out (validateMachine machine))
       (\<lambda>_. bnd (find_for_update A machine) (\<lambda>vm.
          handle (updateMachineWithVMState A (Some vm))
            (\<lambda>_. setProviderStatus A (Some vm) (conditionSuccess machineUpdate))
            (update_failed A machine ''error updating VM with VMState'' (Some vm))))
       (\<lambda>e. raise (fmt_Errorf_w (m_Name machine @ '': failed validating machine provider spec: '') e)))"

text \<open>\<open>exists\<close> and \<open>delete\<close> look the VM up by uuid when they know it, by name otherwise.\<close>

definition find_machine_vm :: "'e api \<Rightarrow> ('e, Vm) scope_op" where
  "find_machine_vm A =
     bnd (gets (\<lambda>s. (st_VmUUID (s_providerStatus s), m_Name (s_machine s)))) (\<lambda>(vmUUID, name).
     case vmUUID of
       Some vmUuid \<Rightarrow> findVMByUUID A vmUuid
     | None \<Rightarrow> findVMByName A name)"

text \<open>Whether volumes are still attached to the node of the machine.\<close>

definition check_volumes :: "'e api \<Rightarrow> Machine \<Rightarrow> ('e, bool) scope_op" where
  "check_volumes A machine =
     (if isNodeLinked machine
      then handle (nodeHasVolumesAttached A) ret
             (\<lambda>e. raise (fmt_Errorf_w (''failed to determine if node '' @ ptr_Deref (m_NodeRef machine) [] @
                '' has attached volumes: '') e))
      else ret False)"

definition delete :: "'e api \<Rightarrow> ('e, unit) scope_op" where
  "delete A =
     bnd (gets s_machine) (\<lambda>machine.
     handle (find_machine_vm A)
       (\<lambda>vm.
         let vmUuid = ptr_Deref (vm_ExtId vm) [] in
         bnd (check_volumes A machine) (\<lambda>attached.
         if attached then raise (RequeueAfterError 20)
         else
           handle (deleteVM A vmUuid)
             (\<lambda>_. modify (\<lambda>s. s\<lparr>s_machine := (s_machine s)\<lparr>m_ProviderID := None, m_Addresses := []\<rparr>\<rparr>))
             (\<lambda>e. bnd (record_metric (FailedInstanceDelete (m_Name machine) (m_Namespace machine) ''error deleting VM'')) (\<lambda>_.
                raise e))))
       (\<lambda>e. if isNotFoundError (Some e) then ret () else raise e))"

definition exists :: "'e api \<Rightarrow> ('e, bool) scope_op" where
  "exists A =
     bnd (gets s_machine) (\<lambda>machine.
     handle (lift_out (validateMachine machine))
       (\<lambda>_. handle (find_machine_vm A)
          (\<lambda>_. ret True)
          (\<lambda>e. if isNotFoundError (Some e) then ret False
             else bnd (record_metric (FailedInstanceUpdate (m_Name machine) (m_Namespace machine) ''VM not found'')) (\<lambda>_.
                raise e)))
       (\<lambda>e. raise (fmt_Errorf_w (m_Name machine @ '': failed validating machine provider spec. '') e)))"

definition isMaster :: "'e api \<Rightarrow> ('e, bool) scope_op" where
  "isMaster A =
     bnd (gets s_machine) (\<lambda>machine.
     case m_NodeRef machine of
       None \<Rightarrow> ret False
     | Some name \<Rightarrow>
         handle (call_api (C_Get_Node name) (a_Get_Node A name))
           (\<lambda>node. ret (map_lookup (n_Labels node) masterLabel \<noteq> None))
           (\<lambda>e. raise (NewError (''failed to get node from machine '' @ m_Name machine))))"

section \<open>Frames\<close>

text \<open>
  What no reconciler operation touches: the provider spec, the copy to patch against, the
  failure domain, and the identity, spec and node reference of the machine.
\<close>

definition machine_rel :: "'e machineScope \<Rightarrow> 'e machineScope \<Rightarrow> bool" where
  "machine_rel s s' \<longleftrightarrow>
     s_providerSpec s' = s_providerSpec s \<and> s_machineToBePatched s' = s_machineToBePatched s \<and>
     s_failureDomain s' = s_failureDomain s \<and>
     m_Name (s_machine s') = m_Name (s_machine s) \<and> m_Namespace (s_machine s') = m_Namespace (s_machine s) \<and>
     m_ProviderSpec (s_machine s') = m_ProviderSpec (s_machine s) \<and> m_NodeRef (s_machine s') = m_NodeRef (s_machine s) \<and>
     m_ResourceVersion (s_machine s') = m_ResourceVersion (s_machine s)"

interpretation machine_frame: op_frame machine_rel
  by unfold_locales (auto simp: machine_rel_def)

lemma scope_rel_machine: "scope_rel P s s' \<Longrightarrow> machine_rel s s'"
  by (simp add: scope_rel_def machine_rel_def)

lemma keeps_machine_scope: "keeps (scope_rel P) m \<Longrightarrow> keeps machine_rel m"
  by (erule keeps_mono) (erule scope_rel_machine)

lemma keeps_machine_world:
  fixes m :: "('e, 'a) scope_op"
  shows "keeps (call_rel P) m \<Longrightarrow> keeps machine_rel m"
  by (rule keeps_machine_scope [OF keeps_scope])

lemma call_api_machine [frame_rules]: "keeps machine_rel (call_api c f)"
  by (rule keeps_machine_world [OF call_api_rel [of "\<lambda>_. True"]]) simp

lemma modify_machine [frame_rules]: "(\<And>s. machine_rel s (f s)) \<Longrightarrow> keeps machine_rel (modify f)"
  by (simp add: keeps_def modify_def)

lemma record_metric_machine [frame_rules]: "keeps machine_rel (record_metric m)"
  unfolding record_metric_def by (intro frame_rules) (simp add: machine_rel_def)

lemmas world_machine [frame_rules] =
  keeps_machine_world [OF findVMByUUID_rel] keeps_machine_world [OF findVMByName_rel]
  keeps_machine_world [OF getPrismCentralCluster_rel] keeps_machine_world [OF getClusterNameByUUID_rel]
  keeps_machine_world [OF getUserData_rel] keeps_machine_world [OF nodeHasVolumesAttached_rel]
  keeps_machine_world [OF createVM_rel] keeps_machine_world [OF buildNodeAddresses_rel]
  keeps_machine_scope [OF validateVMConfig_rel]

lemma setProviderStatus_machine [frame_rules]: "keeps machine_rel (setProviderStatus A vm c)"
  by (rule keepsI) (auto dest!: setProviderStatusD simp: status_set_def machine_rel_def split: option.splits)

lemma set_node_provider_id_machine [frame_rules]: "keeps machine_rel (set_node_provider_id A p m)"
  unfolding set_node_provider_id_def Let_def by (intro frame_rules)

lemma setProviderID_machine [frame_rules]: "keeps machine_rel (setProviderID A u)"
proof (rule keepsI)
  fix s r s' assume run: "setProviderID A u s = (r, s')"
  show "machine_rel s s'"
  proof (cases u)
    case None
    with run show ?thesis by (auto simp: setProviderID_def gets_def bnd_eq_Ok raise_def machine_rel_def)
  next
    case (Some v)
    let ?t = "if m_ProviderID (s_machine s) = Some (providerIDFormat v) then s
      else s\<lparr>s_machine := (s_machine s)\<lparr>m_ProviderID := Some (providerIDFormat v)\<rparr>\<rparr>"
    from run Some have "set_node_provider_id A (providerIDFormat v) (s_machine s) ?t = (r, s')"
      by (auto simp: setProviderID_def gets_def set_machine_def modify_def ret_def bnd_eq_Ok Let_def split: if_splits)
    with set_node_provider_id_machine have "machine_rel ?t s'" by (rule keepsD)
    moreover have "machine_rel s ?t" by (simp add: machine_rel_def)
    ultimately show ?thesis by (rule machine_frame.trans [rotated])
  qed
qed

lemma vm_zone_machine [frame_rules]: "keeps machine_rel (vm_zone A v)"
  unfolding vm_zone_def by (intro frame_rules)

lemma write_labels_machine [frame_rules]:
  "keeps machine_rel (bnd (gets s_machine) (\<lambda>m. set_machine (instance_labels r z v m)))"
  by (rule keepsI) (auto simp: gets_def bnd_eq_Ok set_machine_def modify_def machine_rel_def instance_labels_def Let_def)

lemma updateMachineWithVMState_machine [frame_rules]: "keeps machine_rel (updateMachineWithVMState A vm)"
  unfolding updateMachineWithVMState_def
  by (intro write_labels_machine keeps_option machine_frame.frame_ret machine_frame.frame_bnd
      setProviderID_machine vm_zone_machine world_machine)

lemma create_machine: "keeps machine_rel (create A)"
  unfolding create_def by (intro frame_rules)

lemma update_failed_machine [frame_rules]: "keeps machine_rel (update_failed A m rs vm e)"
  unfolding update_failed_def by (intro frame_rules)

lemma find_for_update_machine [frame_rules]: "keeps machine_rel (find_for_update A m)"
  unfolding find_for_update_def by (intro frame_rules) (simp add: machine_rel_def)

lemma update_machine: "keeps machine_rel (update A)"
  unfolding update_def by (intro frame_rules)

lemma find_machine_vm_rel [frame_rules]: "keeps (call_rel is_read) (find_machine_vm A)"
  unfolding find_machine_vm_def by (intro frame_rules)

lemma check_volumes_rel [frame_rules]: "keeps (call_rel is_read) (check_volumes A m)"
  unfolding check_volumes_def by (intro frame_rules)

lemma deleteVM_rel: "keeps (call_rel (\<lambda>_. True)) (deleteVM A u)"
  unfolding deleteVM_def by (intro frame_rules) simp_all

lemma delete_machine: "keeps machine_rel (delete A)"
  unfolding delete_def Let_def
  by (intro frame_rules keeps_machine_world [OF find_machine_vm_rel] keeps_machine_world [OF check_volumes_rel]
      keeps_machine_world [OF deleteVM_rel]) (simp add: machine_rel_def)

lemma exists_machine: "keeps machine_rel (exists A)"
  unfolding exists_def by (intro frame_rules keeps_machine_world [OF find_machine_vm_rel])

text \<open>The calls of the operations.\<close>

fun is_node_update :: "call \<Rightarrow> bool" where
  "is_node_update (C_Update_Node n) = True"
| "is_node_update _ = False"

abbreviation sync_call :: "call \<Rightarrow> bool" where
  "sync_call c \<equiv> is_read c \<or> is_node_update c"

lemma reads_sync: "keeps (log_rel is_read) m \<Longrightarrow> keeps (log_rel sync_call) m"
  by (erule keeps_log_mono) simp

lemmas sync_reads [frame_rules] =
  reads_sync [OF keeps_log [OF findVMByUUID_rel]] reads_sync [OF keeps_log [OF findVMByName_rel]]
  reads_sync [OF keeps_log [OF getPrismCentralCluster_rel]] reads_sync [OF keeps_log [OF getClusterNameByUUID_rel]]
  reads_sync [OF setProviderStatus_log]

lemma set_node_provider_id_log [frame_rules]: "keeps (log_rel sync_call) (set_node_provider_id A p m)"
  unfolding set_node_provider_id_def Let_def by (intro frame_rules) simp_all

lemma setProviderID_log [frame_rules]: "keeps (log_rel sync_call) (setProviderID A u)"
  unfolding setProviderID_def Let_def by (intro frame_rules)

lemma vm_zone_log [frame_rules]: "keeps (log_rel sync_call) (vm_zone A v)"
  unfolding vm_zone_def by (intro frame_rules)

lemma updateMachineWithVMState_log [frame_rules]: "keeps (log_rel sync_call) (updateMachineWithVMState A vm)"
  unfolding updateMachineWithVMState_def by (intro frame_rules)

lemma update_failed_log [frame_rules]: "keeps (log_rel sync_call) (update_failed A m rs vm e)"
  unfolding update_failed_def by (intro frame_rules)

lemma find_for_update_log [frame_rules]: "keeps (log_rel sync_call) (find_for_update A m)"
  unfolding find_for_update_def by (intro frame_rules) simp

lemma update_log: "keeps (log_rel sync_call) (update A)"
  unfolding update_def by (intro frame_rules)

lemma exists_log: "keeps (log_rel is_read) (exists A)"
  unfolding exists_def by (intro frame_rules keeps_log [OF find_machine_vm_rel])

section \<open>Creation\<close>

text \<open>What runs after \<open>createVM\<close>: the state is copied, or the failure noted.\<close>

definition after_create :: "'e api \<Rightarrow> (go_error, Vm) outcome \<Rightarrow> ('e, unit) scope_op" where
  "after_create A q = handle (lift_out q)
     (\<lambda>vm. handle (updateMachineWithVMState A (Some vm))
        (\<lambda>_. setProviderStatus A (Some vm) (conditionSuccess machineCreation))
        (\<lambda>e. raise (fmt_Errorf_w ''failed to update machine with vm state: '' e)))
     (\<lambda>e. bnd (setProviderStatus A None (conditionFailed machineCreation (err_Error e))) (\<lambda>_.
        raise (fmt_Errorf_w ''failed to create VM: '' e)))"

lemma after_create_log: "keeps (log_rel sync_call) (after_create A q)"
  unfolding after_create_def by (intro frame_rules)

text \<open>
  A run of \<open>create\<close> either stops before \<open>createVM\<close>, having only read, or validated the machine and
  its spec and went on from there.
\<close>

lemma create_validated:
  assumes "validateMachine (s_machine s) = Ok ()" and "getUserData A s = (Ok d, s1)" and run: "create A s = (r, s')"
  obtains (refused) q where "validateVMConfig A s1 = (q, s')" "r \<noteq> Ok ()"
    | (went_on) t sp q t' where "validateVMConfig A s1 = (Ok [], t)" "s_providerSpecValidated t = Some sp"
        "spec_resolves (apply_failure_domain (s_failureDomain s1) (s_providerSpec s1)) sp"
        "createVM A d t = (q, t')" "after_create A q t' = (r, s')"
proof -
  obtain q2 t where v: "validateVMConfig A s1 = (q2, t)" by fastforce
  show thesis
  proof (cases "q2 = Ok []")
    case True
    obtain q t' where c: "createVM A d t = (q, t')" by fastforce
    have "after_create A q t' = (r, s')"
      using assms v True c by (cases q) (simp_all add: create_def after_create_def gets_def lift_out_def bnd_def handle_def)
    with v True c show thesis by (auto elim: validateVMConfig_effect intro: went_on)
  next
    case False
    with assms v have "s' = t" "r \<noteq> Ok ()"
      by (cases q2; auto simp: create_def gets_def lift_out_def bnd_def handle_def raise_def split: if_splits)+
    with v show thesis by (intro refused) simp_all
  qed
qed

lemma create_cases:
  assumes run: "create A s = (r, s')"
  obtains (stopped) "scope_rel is_read s s'" "r \<noteq> Ok ()"
    | (went_on) ud t sp q t' where "validateMachine (s_machine s) = Ok ()" "scope_rel is_read s t"
        "s_providerSpecValidated t = Some sp"
        "spec_resolves (apply_failure_domain (s_failureDomain s) (s_providerSpec s)) sp"
        "createVM A ud t = (q, t')" "after_create A q t' = (r, s')"
proof (cases "validateMachine (s_machine s) = Ok ()")
  case valid: True
  obtain q1 s1 where ud: "getUserData A s = (q1, s1)" by fastforce
  note r1 = call_rel_scope_rel [OF keepsD [OF getUserData_rel ud]]
  show thesis
  proof (cases "\<exists>d. q1 = Ok d")
    case True
    then obtain d where "getUserData A s = (Ok d, s1)" using ud by blast
    from valid this run show thesis
    proof (cases rule: create_validated)
      case (refused q)
      from scope_frame.trans [OF r1 keepsD [OF validateVMConfig_rel refused(1)]] refused(2) show thesis by (rule stopped)
    next
      case (went_on t sp q t')
      from r1 have "s_failureDomain s1 = s_failureDomain s" "s_providerSpec s1 = s_providerSpec s" by (simp_all add: scope_rel_def)
      with went_on scope_frame.trans [OF r1 keepsD [OF validateVMConfig_rel went_on(1)]] valid that(2) show thesis by simp
    qed
  next
    case False
    with run valid ud r1 stopped show thesis
      by (cases q1) (auto simp: create_def gets_def lift_out_def bnd_def handle_def raise_def)
  qed
next
  case False
  with run stopped scope_frame.refl show thesis
    by (auto simp: create_def validateMachine_def gets_def lift_out_def bnd_def handle_def raise_def split: if_splits)
qed

lemma scope_rel_log: "scope_rel P s s' \<Longrightarrow> log_rel P s s'"
  by (simp add: scope_rel_def log_rel_def)

lemma no_create_sync: "list_all sync_call cs \<Longrightarrow> filter is_create cs = [] \<and> filter is_power_on cs = [] \<and> filter is_delete cs = []"
proof (induction cs)
  case (Cons c cs)
  then show ?case by (cases c) auto
qed simp

text \<open>The VM entity that \<open>create\<close> may send: the VM of the resolved spec of this machine.\<close>

definition legal_vm :: "'e api \<Rightarrow> 'e machineScope \<Rightarrow> Vm \<Rightarrow> bool" where
  "legal_vm A s v \<longleftrightarrow>
     (\<exists>sp ud gpus es. spec_resolves (apply_failure_domain (s_failureDomain s) (s_providerSpec s)) sp \<and>
        v = vm_of_spec (m_Name (s_machine s)) sp (base64_EncodeToString ud) gpus (List.map_filter en_ExtId es) \<and>
        gpus_match (ps_GPUs sp) gpus \<and> list_all2 (category_found A) (wanted_categories (s_machine s) sp) es \<and>
        ri_UUID (ps_Image sp) \<noteq> None)"

lemma legal_vmI:
  "spec_resolves (apply_failure_domain (s_failureDomain s) (s_providerSpec s)) sp \<Longrightarrow>
     v = vm_of_spec (m_Name (s_machine s)) sp (base64_EncodeToString ud) gpus (List.map_filter en_ExtId es) \<Longrightarrow>
     gpus_match (ps_GPUs sp) gpus \<Longrightarrow> list_all2 (category_found A) (wanted_categories (s_machine s) sp) es \<Longrightarrow>
     ri_UUID (ps_Image sp) \<noteq> None \<Longrightarrow> legal_vm A s v"
  unfolding legal_vm_def by blast

text \<open>The log of a run of \<open>create\<close>: reads, a prefix of the creating tail, then the copying of the state.\<close>

lemma create_trace_cases:
  assumes run: "create A s = (r, s')"
  obtains (reads) "list_all sync_call (new_calls s s')"
    | (creates) v rs u task k after where "new_calls s s' = rs @ take (Suc k) (create_trace v u task) @ after"
        "list_all is_read rs" "list_all sync_call after" "legal_vm A s v" "validateMachine (s_machine s) = Ok ()"
        "r = Ok () \<longrightarrow> k = 3"
  using run
proof (cases rule: create_cases)
  case stopped
  from stopped(1) have "list_all is_read (new_calls s s')" by (rule scope_rel_new_calls)
  with reads show thesis by (auto simp: list_all_iff)
next
  case (went_on ud t sp q t')
  from keepsD [OF after_create_log went_on(6)] obtain after where
    after: "w_calls s' = w_calls t' @ after" "list_all sync_call after" by (auto simp: log_rel_def)
  from went_on(2) obtain rs where rs: "w_calls t = w_calls s @ rs" "list_all is_read rs" by (auto simp: scope_rel_def)
  have same: "s_machine t = s_machine s" using went_on(2) by (simp add: scope_rel_def)
  from went_on(5) show thesis
  proof (cases rule: createVM_trace)
    case kept
    then obtain cs where "w_calls t' = w_calls t @ cs" "list_all is_read cs" by (auto simp: call_rel_def)
    with after rs have "new_calls s s' = rs @ cs @ after" "list_all sync_call (rs @ cs @ after)" by (auto simp: list_all_iff)
    with reads show thesis by simp
  next
    case (made t1 t2 rs' v u task k)
    have r2: "call_rel is_read t t2"
      by (rule call_frame.trans [OF uuid_is_free_rel [OF made(1)] name_is_free_rel [OF made(2)]])
    note f = call_rel_fields [OF r2]
    obtain t3 where b: "buildV4VMFromScope A (base64_EncodeToString ud) t2 = (Ok v, t3)"
      using made(3) by (cases "buildV4VMFromScope A (base64_EncodeToString ud) t2") simp
    have "s_providerSpecValidated t2 = Some sp" "s_machine t2 = s_machine s" using f same went_on(3) by simp_all
    with went_on(4) have "legal_vm A s v"
      by (elim buildV4VMFromScope_Ok [OF b]) (rule legal_vmI, simp_all)
    moreover have "r = Ok () \<longrightarrow> k = 3"
      using went_on(6) made(6) by (cases q) (auto simp: after_create_def lift_out_def handle_def bnd_def raise_def
          split: prod.splits outcome.splits)
    ultimately show thesis
      using made(4,5) after rs went_on(1) by (intro creates [of "rs @ rs'" k v u task after]) auto
  qed
qed

lemma filter_reads: "list_all is_read cs \<Longrightarrow> filter is_create cs = [] \<and> filter is_delete cs = []"
  by (induction cs) auto

lemma filter_create_trace:
  "filter is_create (take (Suc k) (create_trace v u task)) = [C_VMs_Create v]"
  "filter is_delete (take (Suc k) (create_trace v u task)) = []"
  by (auto simp: create_trace_def take_Cons split: nat.splits)

text \<open>Every VM that \<open>create\<close> sends is legal, and it sends at most one.\<close>

lemma create_vm_call:
  assumes "create A s = (r, s')" and "C_VMs_Create v \<in> set (new_calls s s')"
  shows "legal_vm A s v" "validateMachine (s_machine s) = Ok ()"
    "filter is_create (new_calls s s') = [C_VMs_Create v]" "filter is_delete (new_calls s s') = []"
proof -
  have sent: "C_VMs_Create v \<in> set (filter is_create (new_calls s s'))" using assms(2) by simp
  from assms(1) have "legal_vm A s v \<and> validateMachine (s_machine s) = Ok () \<and>
    filter is_create (new_calls s s') = [C_VMs_Create v] \<and> filter is_delete (new_calls s s') = []"
  proof (cases rule: create_trace_cases)
    case reads
    with no_create_sync sent show ?thesis by (metis empty_iff list.set(1))
  next
    case (creates v' rs u task k after)
    have "filter is_create (new_calls s s') = [C_VMs_Create v']" "filter is_delete (new_calls s s') = []"
      unfolding creates(1) using filter_reads [OF creates(2)] no_create_sync [OF creates(3)]
      by (simp_all add: filter_create_trace del: take_Suc_Cons)
    with sent creates(4,5) show ?thesis by simp
  qed
  then show "legal_vm A s v" "validateMachine (s_machine s) = Ok ()"
    "filter is_create (new_calls s s') = [C_VMs_Create v]" "filter is_delete (new_calls s s') = []" by simp_all
qed

lemma create_log: "keeps (log_rel (\<lambda>_. True)) (create A)"
  unfolding create_def
  by (intro frame_rules keeps_log [OF getUserData_rel, THEN keeps_log_mono]
      keeps_mono [OF validateVMConfig_rel] keeps_log [OF createVM_rel, THEN keeps_log_mono]
      keeps_log_mono [OF updateMachineWithVMState_log] keeps_log_mono [OF setProviderStatus_log])
    (auto simp: scope_rel_def log_rel_def list_all_iff)

section \<open>The machine after a success\<close>

text \<open>The machine holds the provider id, the region, zone and type labels and the state annotations of the VM.\<close>

definition synced :: "Vm \<Rightarrow> Machine \<Rightarrow> Machine \<Rightarrow> bool" where
  "synced v m m' \<longleftrightarrow> (\<exists>u region zone. vm_ExtId v = Some u \<and>
     m' = instance_labels region zone v (m\<lparr>m_ProviderID := Some (providerIDFormat u)\<rparr>))"

lemma machine_provider_id_same: "m_ProviderID m = p \<Longrightarrow> m\<lparr>m_ProviderID := p\<rparr> = m"
  by (cases m) simp

lemma set_node_provider_id_rel: "keeps (call_rel (\<lambda>_. True)) (set_node_provider_id A p m)"
  unfolding set_node_provider_id_def Let_def by (intro frame_rules) simp_all

lemma setProviderID_Ok:
  assumes "setProviderID A x s = (Ok (), s')"
  obtains u where "x = Some u" "s_machine s' = (s_machine s)\<lparr>m_ProviderID := Some (providerIDFormat u)\<rparr>"
    "s_providerStatus s' = s_providerStatus s"
proof (cases x)
  case None
  with assms show thesis by (simp add: setProviderID_def gets_def bnd_eq_Ok raise_def)
next
  case (Some u)
  let ?t = "s\<lparr>s_machine := (s_machine s)\<lparr>m_ProviderID := Some (providerIDFormat u)\<rparr>\<rparr>"
  have same: "m_ProviderID (s_machine s) = Some (providerIDFormat u) \<Longrightarrow> ?t = s"
    by (cases s) (simp add: machine_provider_id_same)
  have "set_node_provider_id A (providerIDFormat u) (s_machine s) ?t = (Ok (), s')"
  proof (cases "m_ProviderID (s_machine s) = Some (providerIDFormat u)")
    case True
    with assms Some show ?thesis unfolding same [OF True]
      by (simp add: setProviderID_def gets_def ret_def bnd_eq_Ok Let_def)
  next
    case False
    with assms Some show ?thesis by (simp add: setProviderID_def gets_def set_machine_def modify_def bnd_eq_Ok Let_def)
  qed
  from call_rel_fields [OF keepsD [OF set_node_provider_id_rel this]] Some that show thesis by simp
qed

lemma vm_zone_rel: "keeps (call_rel is_read) (vm_zone A v)"
  unfolding vm_zone_def by (intro frame_rules)

lemma updateMachineWithVMState_Ok:
  assumes "updateMachineWithVMState A (Some v) s = (Ok (), s')"
  shows "synced v (s_machine s) (s_machine s')" and "s_providerStatus s' = s_providerStatus s"
proof -
  from assms obtain s1 pc s2 zone s3 where id: "setProviderID A (vm_ExtId v) s = (Ok (), s1)"
    and pc: "getPrismCentralCluster A s1 = (Ok pc, s2)" and z: "vm_zone A v s2 = (Ok zone, s3)"
    and s': "s' = s3\<lparr>s_machine := instance_labels (vm_region pc) zone v (s_machine s3)\<rparr>"
    by (auto simp: updateMachineWithVMState_def gets_def set_machine_def modify_def bnd_eq_Ok elim!: bnd_OkE)
  obtain u where u: "vm_ExtId v = Some u" "s_machine s1 = (s_machine s)\<lparr>m_ProviderID := Some (providerIDFormat u)\<rparr>"
    "s_providerStatus s1 = s_providerStatus s" by (rule setProviderID_Ok [OF id])
  note f2 = call_rel_fields [OF keepsD [OF getPrismCentralCluster_rel pc]]
  note f3 = call_rel_fields [OF keepsD [OF vm_zone_rel z]]
  show "synced v (s_machine s) (s_machine s')" using u f2 f3 s' by (auto simp: synced_def)
  show "s_providerStatus s' = s_providerStatus s" using u f2 f3 s' by simp
qed

text \<open>What a successful creation or update leaves in the scope.\<close>

definition reconciled :: "Vm \<Rightarrow> Condition \<Rightarrow> 'e machineScope \<Rightarrow> 'e machineScope \<Rightarrow> bool" where
  "reconciled v c s s' \<longleftrightarrow>
     (\<exists>m nics. synced v (s_machine s) m \<and>
        s_machine s' = m\<lparr>m_Addresses := node_addresses (getIPsFromNics nics) (vm_Name v)\<rparr>) \<and>
     st_VmUUID (s_providerStatus s') = vm_ExtId v \<and> st_Conditions (s_providerStatus s') = [c]"

lemma sync_and_status_Ok:
  assumes "(handle (updateMachineWithVMState A (Some v)) (\<lambda>_. setProviderStatus A (Some v) c) h) s = (Ok (), s')"
    and "\<And>e t. h e t \<noteq> (Ok (), s')"
  shows "reconciled v c s s'"
proof -
  from assms obtain t where u: "updateMachineWithVMState A (Some v) s = (Ok (), t)"
    and p: "setProviderStatus A (Some v) c t = (Ok (), s')"
    by (auto elim!: handle_OkE)
  from setProviderStatusD [OF p] updateMachineWithVMState_Ok [OF u] show ?thesis
    by (auto simp: reconciled_def status_set_def synced_def)
qed

lemma create_Ok:
  assumes "create A s = (Ok (), s')"
  obtains v t ud t' where "scope_rel is_read s t" "createVM A ud t = (Ok v, t')"
    "reconciled v (conditionSuccess machineCreation) t s'"
  using assms
proof (cases rule: create_cases)
  case (went_on ud t sp q t')
  show thesis
  proof (cases q)
    case (Ok v)
    with went_on(6) have "reconciled v (conditionSuccess machineCreation) t' s'"
      by (intro sync_and_status_Ok) (auto simp: after_create_def lift_out_def handle_def raise_def)
    with call_rel_fields [OF keepsD [OF createVM_rel went_on(5)]]
    have "reconciled v (conditionSuccess machineCreation) t s'" by (simp add: reconciled_def)
    with went_on(2,5) Ok that show thesis by blast
  next
    case (Err e)
    with went_on(6) show thesis by (auto simp: after_create_def lift_out_def handle_def raise_def elim!: bnd_OkE)
  next
    case Panic
    with went_on(6) show thesis by (simp add: after_create_def lift_out_def handle_def)
  qed
qed simp

section \<open>Update, delete and exists\<close>

lemma find_for_update_Ok:
  assumes "find_for_update A m s = (Ok vm, s')"
  shows "s_machine s' = s_machine s"
  using assms
  by (auto simp: find_for_update_def update_failed_def gets_def modify_def ret_def raise_def bnd_eq_Ok
      elim!: handle_OkE bnd_OkE dest!: call_rel_fields(3) [OF keepsD [OF findVMByName_rel]]
      call_rel_fields(3) [OF keepsD [OF findVMByUUID_rel]] split: option.splits)

lemma update_failed_Err:
  obtains s' where "update_failed A m reason vm e s = (Err e, s')"
    "status_set vm (conditionFailed machineUpdate (err_Error e)) (s\<lparr>w_metrics := w_metrics s @
       [FailedInstanceUpdate (m_Name m) (m_Namespace m) reason]\<rparr>) s'"
proof -
  let ?s1 = "s\<lparr>w_metrics := w_metrics s @ [FailedInstanceUpdate (m_Name m) (m_Namespace m) reason]\<rparr>"
  obtain s' where "setProviderStatus A vm (conditionFailed machineUpdate (err_Error e)) ?s1 = (Ok (), s')"
    and "status_set vm (conditionFailed machineUpdate (err_Error e)) ?s1 s'" by (rule setProviderStatus_Ok)
  then show thesis
    by (intro that) (simp_all add: update_failed_def record_metric_def modify_def bnd_eq_Ok raise_def)
qed

lemma update_failed_not_Ok: "update_failed A m reason vm e s \<noteq> (Ok x, s')"
  by (auto simp: update_failed_def raise_def elim!: bnd_OkE)

lemma update_Ok:
  assumes "update A s = (Ok (), s')"
  obtains v t where "find_for_update A (s_machine s) s = (Ok v, t)" "reconciled v (conditionSuccess machineUpdate) s s'"
proof -
  from assms obtain v t where f: "find_for_update A (s_machine s) s = (Ok v, t)"
    and u: "handle (updateMachineWithVMState A (Some v)) (\<lambda>_. setProviderStatus A (Some v) (conditionSuccess machineUpdate))
      (update_failed A (s_machine s) ''error updating VM with VMState'' (Some v)) t = (Ok (), s')"
    by (cases "validateMachine (s_machine s)")
      (auto simp: update_def gets_def bnd_eq_Ok lift_out_def handle_def [of "\<lambda>s. (_, s)"] raise_def elim!: bnd_OkE)
  have "reconciled v (conditionSuccess machineUpdate) t s'"
    by (rule sync_and_status_Ok [OF u]) (rule update_failed_not_Ok)
  with find_for_update_Ok [OF f] f that show thesis by (simp add: reconciled_def)
qed

lemma check_volumes_not_Panic [simp]: "check_volumes A m s \<noteq> (Panic, s')"
  by (auto simp: check_volumes_def handle_def ret_def raise_def split: if_splits prod.splits outcome.splits)

lemma find_machine_vm_not_Panic [simp]: "find_machine_vm A s \<noteq> (Panic, s')"
  by (auto simp: find_machine_vm_def gets_def bnd_eq_Ok split: option.splits)

text \<open>A deletion that the volumes allow.\<close>

lemma delete_free_cases:
  assumes run: "delete A s = (r, s')" and f: "find_machine_vm A s = (Ok v, t)" and c: "check_volumes A (s_machine s) t = (Ok False, t1)"
  obtains (deleted) t2 where "deleteVM A (ptr_Deref (vm_ExtId v) []) t1 = (Ok (), t2)" "r = Ok ()"
        "s' = t2\<lparr>s_machine := (s_machine s)\<lparr>m_ProviderID := None, m_Addresses := []\<rparr>\<rparr>"
    | (failed) t2 e where "deleteVM A (ptr_Deref (vm_ExtId v) []) t1 = (Err e, t2)" "r = Err e"
        "s' = t2\<lparr>w_metrics := w_metrics t2 @ [FailedInstanceDelete (m_Name (s_machine s)) (m_Namespace (s_machine s)) ''error deleting VM'']\<rparr>"
proof -
  obtain q2 t2 where d: "deleteVM A (ptr_Deref (vm_ExtId v) []) t1 = (q2, t2)" by fastforce
  have m: "s_machine t2 = s_machine s"
    using f c d call_rel_fields(3) [OF keepsD [OF find_machine_vm_rel]]
      call_rel_fields(3) [OF keepsD [OF check_volumes_rel]] more_eq_scope(3) [OF deleteVM_calls(2)] by metis
  show thesis
  proof (cases q2)
    case (Ok u)
    with run f c d m have "r = Ok ()" "s' = t2\<lparr>s_machine := (s_machine s)\<lparr>m_ProviderID := None, m_Addresses := []\<rparr>\<rparr>"
      by (simp_all add: delete_def gets_def bnd_def handle_def Let_def modify_def)
    with d Ok show thesis by (intro deleted) simp_all
  next
    case (Err e)
    with run f c d m have "r = Err e" "s' = t2\<lparr>w_metrics := w_metrics t2 @
        [FailedInstanceDelete (m_Name (s_machine s)) (m_Namespace (s_machine s)) ''error deleting VM'']\<rparr>"
      by (simp_all add: delete_def gets_def bnd_def handle_def Let_def modify_def record_metric_def raise_def)
    with d Err show thesis by (intro failed) simp_all
  qed (use d in simp)
qed

lemma delete_cases:
  assumes run: "delete A s = (r, s')"
  obtains (absent) e where "find_machine_vm A s = (Err e, s')" "isNotFoundError (Some e)" "r = Ok ()"
    | (lookup) e where "find_machine_vm A s = (Err e, s')" "\<not> isNotFoundError (Some e)" "r = Err e"
    | (volumes) v t e where "find_machine_vm A s = (Ok v, t)" "check_volumes A (s_machine s) t = (Err e, s')" "r = Err e"
    | (attached) v t where "find_machine_vm A s = (Ok v, t)" "check_volumes A (s_machine s) t = (Ok True, s')"
        "r = Err (RequeueAfterError 20)"
    | (deleted) v t t1 t2 where "find_machine_vm A s = (Ok v, t)" "check_volumes A (s_machine s) t = (Ok False, t1)"
        "deleteVM A (ptr_Deref (vm_ExtId v) []) t1 = (Ok (), t2)" "r = Ok ()"
        "s' = t2\<lparr>s_machine := (s_machine s)\<lparr>m_ProviderID := None, m_Addresses := []\<rparr>\<rparr>"
    | (failed) v t t1 t2 e where "find_machine_vm A s = (Ok v, t)" "check_volumes A (s_machine s) t = (Ok False, t1)"
        "deleteVM A (ptr_Deref (vm_ExtId v) []) t1 = (Err e, t2)" "r = Err e"
        "s' = t2\<lparr>w_metrics := w_metrics t2 @ [FailedInstanceDelete (m_Name (s_machine s)) (m_Namespace (s_machine s)) ''error deleting VM'']\<rparr>"
proof -
  obtain q t where f: "find_machine_vm A s = (q, t)" by fastforce
  show thesis
  proof (cases q)
    case (Err e)
    with run f absent lookup show thesis
      by (auto simp: delete_def gets_def bnd_eq_Ok handle_eq_Err ret_def raise_def split: if_splits)
  next
    case (Ok v)
    obtain q1 t1 where c: "check_volumes A (s_machine s) t = (q1, t1)" by fastforce
    note start = run f Ok c
    consider (e) e where "q1 = Err e" | (at) "q1 = Ok True" | (free) "q1 = Ok False"
      using c by (cases q1) auto
    then show thesis
    proof cases
      case e
      with start volumes show thesis by (auto simp: delete_def gets_def bnd_eq_Ok bnd_eq_Err handle_eq_Ok Let_def)
    next
      case at
      with start attached show thesis
        by (auto simp: delete_def gets_def bnd_eq_Ok handle_eq_Ok Let_def raise_def)
    next
      case free
      from run f [unfolded Ok] c [unfolded free] show thesis
        by (rule delete_free_cases) (rule deleted [OF f [unfolded Ok] c [unfolded free]] failed [OF f [unfolded Ok] c [unfolded free]]; assumption)+
    qed
  qed (use f in simp)
qed

text \<open>\<open>exists\<close> on a valid machine, in every case of the lookup.\<close>

lemma exists_eq:
  assumes "validateMachine (s_machine s) = Ok ()"
  shows "exists A s = (case find_machine_vm A s of
      (Ok v, t) \<Rightarrow> (Ok True, t)
    | (Err e, t) \<Rightarrow> if isNotFoundError (Some e) then (Ok False, t)
        else (Err e, t\<lparr>w_metrics := w_metrics t @ [FailedInstanceUpdate (m_Name (s_machine s)) (m_Namespace (s_machine s)) ''VM not found'']\<rparr>)
    | (Panic, t) \<Rightarrow> (Panic, t))"
  using assms
  by (auto simp: exists_def gets_def lift_out_def bnd_eq_Ok handle_def ret_def raise_def record_metric_def modify_def
      split: prod.splits outcome.splits)

text \<open>What is known when a VM is deleted: the volumes of a linked node are gone, or the node is.\<close>

definition volumes_gone :: "'e api \<Rightarrow> Machine \<Rightarrow> bool" where
  "volumes_gone A m \<longleftrightarrow> (case m_NodeRef m of
      None \<Rightarrow> True
    | Some n \<Rightarrow> n = [] \<or> (\<exists>x. case fst (a_Get_Node A n x) of
          Inr node \<Rightarrow> n_VolumesAttached node = []
        | Inl e \<Rightarrow> apierrors_IsNotFound e))"

lemma check_volumes_False:
  assumes "check_volumes A m t = (Ok False, t')" and "m_NodeRef (s_machine t) = m_NodeRef m"
  shows "volumes_gone A m"
proof (cases "isNodeLinked m")
  case True
  then obtain n where n: "m_NodeRef m = Some n" "n \<noteq> []" by (auto simp: isNodeLinked_def split: option.splits)
  with True assms(1) have "nodeHasVolumesAttached A t = (Ok False, t')"
    by (auto simp: check_volumes_def ret_def raise_def elim!: handle_OkE)
  with n assms(2) show ?thesis
    by (auto simp: nodeHasVolumesAttached_linked volumes_gone_def Let_def split: prod.splits sum.splits if_splits
        intro!: exI [of _ "w_ext t"])
next
  case False
  then show ?thesis by (auto simp: isNodeLinked_def volumes_gone_def split: option.splits)
qed

lemma deleting_calls:
  assumes f: "find_machine_vm A s = (Ok v, t)" and c: "check_volumes A (s_machine s) t = (Ok False, t1)"
    and d: "deleteVM A (ptr_Deref (vm_ExtId v) []) t1 = (q, t2)" and calls: "w_calls s' = w_calls t2"
  shows "volumes_gone A (s_machine s)"
    and "\<exists>rs cs. new_calls s s' = rs @ C_VMs_DeleteAsync (ptr_Deref (vm_ExtId v) []) # cs \<and> list_all is_read rs \<and> list_all is_read cs"
proof -
  have rt: "call_rel is_read s t" by (rule keepsD [OF find_machine_vm_rel f])
  have "call_rel is_read s t1" by (rule call_frame.trans [OF rt keepsD [OF check_volumes_rel c]])
  then obtain rs where rs: "w_calls t1 = w_calls s @ rs" "list_all is_read rs" by (auto simp: call_rel_def)
  obtain cs where cs: "w_calls t2 = w_calls t1 @ C_VMs_DeleteAsync (ptr_Deref (vm_ExtId v) []) # cs" "list_all is_read cs"
    using deleteVM_calls(1) [OF d] by auto
  show "\<exists>rs cs. new_calls s s' = rs @ C_VMs_DeleteAsync (ptr_Deref (vm_ExtId v) []) # cs \<and> list_all is_read rs \<and> list_all is_read cs"
    by (intro exI [of _ rs] exI [of _ cs]) (simp add: calls rs cs new_calls_def)
  show "volumes_gone A (s_machine s)"
    by (rule check_volumes_False [OF c]) (simp add: call_rel_fields(3) [OF rt])
qed

lemma delete_calls:
  assumes "delete A s = (r, s')"
  obtains (reads) "call_rel is_read s s'"
    | (deletes) v t rs cs where "find_machine_vm A s = (Ok v, t)" "volumes_gone A (s_machine s)" "list_all is_read rs" "list_all is_read cs"
        "new_calls s s' = rs @ C_VMs_DeleteAsync (ptr_Deref (vm_ExtId v) []) # cs"
  using assms
proof (cases rule: delete_cases)
  case (deleted v t t1 t2)
  with deleting_calls [OF deleted(1-3), of s'] deletes [OF deleted(1)] show thesis by auto
next
  case (failed v t t1 t2 e)
  with deleting_calls [OF failed(1-3), of s'] deletes [OF failed(1)] show thesis by auto
qed (blast intro: reads keepsD [OF find_machine_vm_rel] call_frame.trans [OF keepsD [OF find_machine_vm_rel] keepsD [OF check_volumes_rel]])+

lemma delete_vm_call:
  assumes "delete A s = (r, s')" and "C_VMs_DeleteAsync u \<in> set (new_calls s s')"
  shows "volumes_gone A (s_machine s)" and "\<exists>v t. find_machine_vm A s = (Ok v, t) \<and> u = ptr_Deref (vm_ExtId v) []"
    and "filter is_delete (new_calls s s') = [C_VMs_DeleteAsync u]"
proof -
  have no: "list_all is_read cs \<Longrightarrow> C_VMs_DeleteAsync u \<notin> set cs" for cs by (auto simp: list_all_iff)
  have "volumes_gone A (s_machine s) \<and> (\<exists>v t. find_machine_vm A s = (Ok v, t) \<and> u = ptr_Deref (vm_ExtId v) []) \<and>
      filter is_delete (new_calls s s') = [C_VMs_DeleteAsync u]"
    using assms(1)
  proof (cases rule: delete_calls)
    case reads
    with no [OF call_rel_new_calls] assms(2) show ?thesis by blast
  next
    case (deletes v t rs cs)
    with assms(2) no [of rs] no [of cs] have u: "u = ptr_Deref (vm_ExtId v) []" by auto
    with deletes filter_reads [OF deletes(3)] filter_reads [OF deletes(4)] show ?thesis by auto
  qed
  then show "volumes_gone A (s_machine s)" "\<exists>v t. find_machine_vm A s = (Ok v, t) \<and> u = ptr_Deref (vm_ExtId v) []"
    "filter is_delete (new_calls s s') = [C_VMs_DeleteAsync u]" by simp_all
qed

lemma delete_log: "keeps (log_rel (\<lambda>_. True)) (delete A)"
  unfolding delete_def Let_def
  by (intro frame_rules keeps_log [OF find_machine_vm_rel, THEN keeps_log_mono] keeps_log [OF deleteVM_rel]
      keeps_log [OF check_volumes_rel, THEN keeps_log_mono]) simp_all

end
