(* ===== verification/Actuator.thy ===== *)
theory Actuator
  imports Reconcile
begin

text \<open>
  \<^verbatim>\<open>pkg/actuators/machine/actuator.go\<close>: the four methods the machine controller calls.  Each makes a
  scope for the machine, runs the reconciler, writes the provider conditions, patches the
  machine and records an event.  The machine is passed by pointer and the scope works on the
  same object, so the actuator's state is the world and that object.
\<close>

section \<open>State and scopes\<close>

record 'e actuatorState = "'e world" +
  ac_machine :: Machine

type_synonym ('e, 'a) actuator_op = "('e actuatorState, go_error, 'a) op"

definition createEventAction :: string where "createEventAction = ''Create''"
definition updateEventAction :: string where "updateEventAction = ''Update''"
definition deleteEventAction :: string where "deleteEventAction = ''Delete''"
definition noEventAction :: string where "noEventAction = []"

definition scopeFailFmt :: "string \<Rightarrow> go_error \<Rightarrow> go_error" where
  "scopeFailFmt name e = fmt_Errorf_w (name @ '': failed to create scope for machine: '') e"

definition reconcilerFailFmt :: "string \<Rightarrow> string \<Rightarrow> go_error \<Rightarrow> go_error" where
  "reconcilerFailFmt name action e = fmt_Errorf_w (name @ '': reconciler failed to '' @ action @ '' machine: '') e"

text \<open>A scope for the machine of the actuator's state; a failure leaves the machine alone.\<close>

definition scope_for :: "'e api \<Rightarrow> ('e, scope_fields) actuator_op" where
  "scope_for A = (\<lambda>a. case newMachineScope A \<lparr>p_Context = True, p_machine = Some (ac_machine a)\<rparr> (world.truncate a) of
      (r, w) \<Rightarrow> (r, world.extend w (world.more a)))"

text \<open>An operation on the scope, whose machine is the caller's machine.\<close>

definition with_scope :: "('e, 'a) scope_op \<Rightarrow> scope_fields \<Rightarrow> ('e, 'a) actuator_op" where
  "with_scope m x = (\<lambda>a. case m (world.extend (world.truncate a) x) of
      (r, s) \<Rightarrow> (r, world.extend (world.truncate s) (actuatorState.fields (s_machine s))))"

section \<open>Operations\<close>

definition handleMachineError :: "go_error \<Rightarrow> string \<Rightarrow> (('e, 'z) world_scheme, go_error, 'a) op" where
  "handleMachineError err eventAction =
     bnd (if eventAction \<noteq> noEventAction
          then record_event \<lparr>ev_Type = EventTypeWarning, ev_Reason = ''Failed'' @ eventAction, ev_Message = err_Error err\<rparr>
          else ret ())
       (\<lambda>_. raise err)"

text \<open>The error branch the three mutating methods share, with their condition, readiness and action.\<close>

definition reconcile_failed ::
  "'e api \<Rightarrow> string \<Rightarrow> ConditionStatus \<Rightarrow> string \<Rightarrow> go_error \<Rightarrow> ('e, 'a) scope_op" where
  "reconcile_failed A condType ready action err =
     bnd (set_conditions A [conditionFailed condType (err_Error err), conditionInstanceReady ready]) (\<lambda>_.
     bnd (patchMachine A) (\<lambda>_.
     bnd (gets s_machine) (\<lambda>machine.
     handleMachineError (reconcilerFailFmt (m_Name machine) action err) action)))"

definition create_body :: "'e api \<Rightarrow> ('e, unit) scope_op" where
  "create_body A =
     handle (create A)
       (\<lambda>_. bnd (set_conditions A [conditionSuccess machineCreation, conditionInstanceReady ConditionTrue]) (\<lambda>_.
          bnd (gets s_machine) (\<lambda>machine.
          bnd (record_event \<lparr>ev_Type = EventTypeNormal, ev_Reason = createEventAction,
                 ev_Message = ''Created Machine '' @ m_Name machine\<rparr>) (\<lambda>_.
          patchMachine A))))
       (reconcile_failed A machineCreation ConditionFalse createEventAction)"

definition Create :: "'e api \<Rightarrow> ('e, unit) actuator_op" where
  "Create A =
     handle (scope_for A)
       (with_scope (create_body A))
       (\<lambda>e. bnd (gets ac_machine) (\<lambda>machine. handleMachineError (scopeFailFmt (m_Name machine) e) createEventAction))"

definition Exists :: "'e api \<Rightarrow> ('e, bool) actuator_op" where
  "Exists A =
     handle (scope_for A)
       (with_scope (exists A))
       (\<lambda>e. bnd (gets ac_machine) (\<lambda>machine. raise (scopeFailFmt (m_Name machine) e)))"

definition update_body :: "'e api \<Rightarrow> ('e, unit) scope_op" where
  "update_body A =
     handle (update A)
       (\<lambda>_. bnd (set_conditions A [conditionSuccess machineUpdate, conditionInstanceReady ConditionTrue]) (\<lambda>_.
          bnd (gets (\<lambda>s. m_ResourceVersion (s_machine s))) (\<lambda>previousResourceVersion.
          bnd (patchMachine A) (\<lambda>_.
          bnd (gets s_machine) (\<lambda>machine.
          if previousResourceVersion \<noteq> m_ResourceVersion machine
          then record_event \<lparr>ev_Type = EventTypeNormal, ev_Reason = updateEventAction,
                 ev_Message = ''Updated Machine '' @ m_Name machine\<rparr>
          else ret ())))))
       (reconcile_failed A machineUpdate ConditionUnknown updateEventAction)"

definition Update :: "'e api \<Rightarrow> ('e, unit) actuator_op" where
  "Update A =
     handle (scope_for A)
       (with_scope (update_body A))
       (\<lambda>e. bnd (gets ac_machine) (\<lambda>machine. handleMachineError (scopeFailFmt (m_Name machine) e) updateEventAction))"

definition delete_body :: "'e api \<Rightarrow> ('e, unit) scope_op" where
  "delete_body A =
     handle (delete A)
       (\<lambda>_. bnd (set_conditions A [conditionSuccess machineDeletion, conditionInstanceReady ConditionFalse]) (\<lambda>_.
          bnd (gets s_machine) (\<lambda>machine.
          bnd (record_event \<lparr>ev_Type = EventTypeNormal, ev_Reason = deleteEventAction,
                 ev_Message = ''Deleted machine '' @ m_Name machine\<rparr>) (\<lambda>_.
          patchMachine A))))
       (reconcile_failed A machineDeletion ConditionUnknown deleteEventAction)"

definition Delete :: "'e api \<Rightarrow> ('e, unit) actuator_op" where
  "Delete A =
     handle (scope_for A)
       (with_scope (delete_body A))
       (\<lambda>e. bnd (gets ac_machine) (\<lambda>machine. handleMachineError (scopeFailFmt (m_Name machine) e) deleteEventAction))"

section \<open>The scope of a call\<close>

lemma scope_for_cases:
  assumes "scope_for A a = (r, a')"
  shows "ac_machine a' = ac_machine a" and "log_rel is_read a a'"
    and "r = Ok x \<Longrightarrow> scope_ok A (ac_machine a) (world.extend (world.truncate a') x)"
proof -
  obtain q w where n: "newMachineScope A \<lparr>p_Context = True, p_machine = Some (ac_machine a)\<rparr> (world.truncate a) = (q, w)"
    by fastforce
  with assms have r: "r = q" and a': "a' = world.extend w (world.more a)" by (simp_all add: scope_for_def)
  show "ac_machine a' = ac_machine a" unfolding a' by (cases a) (simp add: world.extend_def)
  from keepsD [OF newMachineScope_log n] show "log_rel is_read a a'" unfolding a' by (simp add: log_rel_def)
  have w: "world.truncate a' = w" unfolding a' by (cases w) (simp add: world.extend_def world.truncate_def)
  show "scope_ok A (ac_machine a) (world.extend (world.truncate a') x)" if "r = Ok x"
    unfolding w using newMachineScope_Ok(1) n that r by blast
qed

text \<open>
  All a method can do: fail to make a scope, or run its body in a good scope, whose machine and
  world are the caller's afterwards.
\<close>

lemma actuator_cases:
  assumes "handle (scope_for A) (with_scope m) h a = (r, a')"
  obtains (no_scope) e a1 where "scope_for A a = (Err e, a1)" "log_rel is_read a a1" "ac_machine a1 = ac_machine a" "h e a1 = (r, a')"
    | (no_spec) "r = Panic" "log_rel is_read a a'"
    | (ran) s s' rs where "scope_ok A (ac_machine a) s" "w_calls s = w_calls a @ rs" "list_all is_read rs"
        "m s = (r, s')" "ac_machine a' = s_machine s'" "w_calls a' = w_calls s'" "w_events a' = w_events s'"
proof -
  obtain q a1 where sf: "scope_for A a = (q, a1)" by fastforce
  note c = scope_for_cases [OF sf]
  show thesis
  proof (cases q)
    case (Ok x)
    let ?s = "world.extend (world.truncate a1) x"
    obtain r' s' where m: "m ?s = (r', s')" by fastforce
    from assms sf Ok m have "r' = r" "a' = world.extend (world.truncate s') (actuatorState.fields (s_machine s'))"
      by (simp_all add: handle_eq_Ok with_scope_def)
    then have "r' = r" "ac_machine a' = s_machine s'" "w_calls a' = w_calls s'" "w_events a' = w_events s'"
      by (simp_all add: world.extend_def actuatorState.fields_def world.truncate_def)
    with m c Ok show thesis by (auto intro!: ran [of ?s] simp: log_rel_def)
  next
    case (Err e)
    with assms sf c no_scope show thesis by (auto simp: handle_eq_Err)
  next
    case Panic
    with assms sf c no_spec show thesis by (auto simp: handle_def)
  qed
qed

section \<open>The contract of the mutating methods\<close>

text \<open>
  Create, Update and Delete wrap a reconciler operation the same way: after an error the status
  gets a failed condition, after a success a succeeded one, and either way the machine is
  patched.  What follows from that alone is proved once.
\<close>

lemma reconcile_failed_log: "keeps (log_rel is_patch) (reconcile_failed A c rd action e)"
  unfolding reconcile_failed_def handleMachineError_def by (intro frame_rules)

lemma reconcile_failed_cases:
  assumes run: "reconcile_failed A c rd action e s = (r, s')" and act: "action \<noteq> []"
  obtains (unpatched) pe u where "r = Err pe" "w_events s' = w_events s" "patchMachine A u = (Err pe, s')"
    | (patched) n u v where "r = Err (reconcilerFailFmt n action e)"
        "w_events s' = w_events s @ [\<lparr>ev_Type = EventTypeWarning, ev_Reason = ''Failed'' @ action,
           ev_Message = err_Error (reconcilerFailFmt n action e)\<rparr>]"
        "patchMachine A u = (Ok (), v)" "s_machine u = s_machine s"
        "s_providerStatus u = (s_providerStatus s)\<lparr>st_Conditions := [conditionFailed c (err_Error e), conditionInstanceReady rd]\<rparr>"
proof -
  let ?cs = "[conditionFailed c (err_Error e), conditionInstanceReady rd]"
  obtain t where sc: "set_conditions A ?cs s = (Ok (), t\<lparr>s_providerStatus := (s_providerStatus s)\<lparr>st_Conditions := ?cs\<rparr>\<rparr>)"
    and rel: "call_rel (\<lambda>_. False) s t" by (rule set_conditions_Ok)
  let ?u = "t\<lparr>s_providerStatus := (s_providerStatus s)\<lparr>st_Conditions := ?cs\<rparr>\<rparr>"
  note f = call_rel_fields [OF rel] and ev = rel [unfolded call_rel_def]
  obtain q v where p: "patchMachine A ?u = (q, v)" by fastforce
  note pf = patchMachine_frame [OF p]
  show thesis
  proof (cases q)
    case (Ok x)
    have "r = Err (reconcilerFailFmt (m_Name (s_machine v)) action e)"
      "w_events s' = w_events v @ [\<lparr>ev_Type = EventTypeWarning, ev_Reason = ''Failed'' @ action,
           ev_Message = err_Error (reconcilerFailFmt (m_Name (s_machine v)) action e)\<rparr>]"
      using run sc p Ok act
      by (auto simp: reconcile_failed_def handleMachineError_def noEventAction_def bnd_eq_Ok gets_def record_event_def
          modify_def raise_def)
    with p Ok f pf ev show thesis by (intro patched [of "m_Name (s_machine v)" ?u v]) auto
  next
    case (Err pe)
    with run sc p pf ev show thesis
      by (intro unpatched [of pe ?u]) (auto simp: reconcile_failed_def bnd_eq_Ok bnd_eq_Err)
  qed (use pf in simp)
qed

locale actuation =
  fixes A :: "'e api"
    and rec :: "('e, unit) scope_op"
    and body :: "('e, unit) scope_op"
    and condType :: string
    and ready_ok :: ConditionStatus
    and ready_bad :: ConditionStatus
    and action :: string
  assumes on_err: "rec s = (Err e, t) \<Longrightarrow> body s = reconcile_failed A condType ready_bad action e t"
    and on_panic: "rec s = (Panic, t) \<Longrightarrow> body s = (Panic, t)"
    and on_ok: "rec s = (Ok (), t) \<Longrightarrow> body s = (r, s') \<Longrightarrow>
      \<exists>u v. patchMachine A u = (r, v) \<and> s_machine u = s_machine t \<and> w_calls u = w_calls t \<and>
        s_machineToBePatched u = s_machineToBePatched t \<and>
        s_providerStatus u = (s_providerStatus t)\<lparr>st_Conditions := [conditionSuccess condType, conditionInstanceReady ready_ok]\<rparr> \<and>
        w_calls s' = w_calls v \<and> s_machine s' = s_machine v"
    and has_action: "action \<noteq> []"
begin

text \<open>After the reconciler only patches are called.\<close>

lemma then_patches:
  assumes "rec s = (q, t)" and "body s = (r, s')"
  shows "log_rel is_patch t s'"
proof (cases q)
  case (Ok x)
  with assms on_ok obtain u v where "patchMachine A u = (r, v)" "w_calls u = w_calls t" "w_calls s' = w_calls v"
    by fastforce
  with keepsD [OF patchMachine_log this(1)] show ?thesis by (simp add: log_rel_def)
next
  case (Err e)
  with assms on_err have "reconcile_failed A condType ready_bad action e t = (r, s')" by simp
  then show ?thesis by (rule keepsD [OF reconcile_failed_log])
next
  case Panic
  with assms on_panic show ?thesis by (auto simp: log_frame.refl)
qed

text \<open>
  An error of the reconciler that is patched into the machine keeps its kind: the controller
  sees the same invalid-configuration or requeue request through the wrapping.
\<close>

lemma error_kept:
  assumes "rec s = (Err e, t)" and "body s = (r, s')"
  obtains (unpatched) pe u where "r = Err pe" "w_events s' = w_events t" "patchMachine A u = (Err pe, s')"
    | (patched) e' where "r = Err e'" "as_MachineError e' = as_MachineError e"
        "as_RequeueAfterError e' = as_RequeueAfterError e"
        "w_events s' = w_events t @ [\<lparr>ev_Type = EventTypeWarning, ev_Reason = ''Failed'' @ action, ev_Message = err_Error e'\<rparr>]"
proof -
  from on_err [OF assms(1)] assms(2) have "reconcile_failed A condType ready_bad action e t = (r, s')" by simp
  from this has_action show thesis
  proof (cases rule: reconcile_failed_cases)
    case (unpatched pe u)
    with that(1) show thesis by blast
  next
    case (patched n u v)
    with that(2) show thesis by (simp add: reconcilerFailFmt_def)
  qed
qed

lemma error_not_Ok:
  assumes "rec s = (Err e, t)"
  shows "body s \<noteq> (Ok (), s')"
proof
  assume "body s = (Ok (), s')"
  with assms show False by (cases rule: error_kept) auto
qed

lemma success_from:
  assumes "body s = (Ok (), s')"
  obtains t u v where "rec s = (Ok (), t)" "s_machine u = s_machine t" "s_machineToBePatched u = s_machineToBePatched t"
    "s_providerStatus u = (s_providerStatus t)\<lparr>st_Conditions := [conditionSuccess condType, conditionInstanceReady ready_ok]\<rparr>"
    "patchMachine A u = (Ok (), v)" "w_calls u = w_calls t" "w_calls s' = w_calls v" "s_machine s' = s_machine v"
proof -
  obtain q t where q: "rec s = (q, t)" by fastforce
  show thesis
  proof (cases q)
    case (Ok x)
    with on_ok [of s t "Ok ()" s'] q assms that show thesis by auto
  next
    case (Err e)
    with q error_not_Ok assms show thesis by blast
  next
    case Panic
    with q on_panic assms show thesis by fastforce
  qed
qed

end

text \<open>The success branches, and the three interpretations.\<close>

lemma set_conditions_bnd:
  obtains t where "bnd (set_conditions A cs) f s = f () t" "s_machine t = s_machine s" "w_calls t = w_calls s"
    "s_machineToBePatched t = s_machineToBePatched s"
    "s_providerStatus t = (s_providerStatus s)\<lparr>st_Conditions := cs\<rparr>"
proof -
  obtain t where sc: "set_conditions A cs s = (Ok (), t\<lparr>s_providerStatus := (s_providerStatus s)\<lparr>st_Conditions := cs\<rparr>\<rparr>)"
    and rel: "call_rel (\<lambda>_. False) s t" by (rule set_conditions_Ok)
  from rel have "w_calls t = w_calls s" by (auto simp: call_rel_def list_all_iff)
  with sc call_rel_fields [OF rel] show thesis
    by (intro that [of "t\<lparr>s_providerStatus := (s_providerStatus s)\<lparr>st_Conditions := cs\<rparr>\<rparr>"]) (auto simp: bnd_eq_Ok)
qed

interpretation creation: actuation A "create A" "create_body A" machineCreation ConditionTrue ConditionFalse createEventAction for A
proof
  fix s t r s' assume c: "create A s = (Ok (), t)" and b: "create_body A s = (r, s')"
  let ?f = "\<lambda>_. bnd (gets s_machine) (\<lambda>machine.
     bnd (record_event \<lparr>ev_Type = EventTypeNormal, ev_Reason = createEventAction,
        ev_Message = ''Created Machine '' @ m_Name machine\<rparr>) (\<lambda>_. patchMachine A))"
  let ?cs = "[conditionSuccess machineCreation, conditionInstanceReady ConditionTrue]"
  obtain u where u: "bnd (set_conditions A ?cs) ?f t = ?f () u" "s_machine u = s_machine t" "w_calls u = w_calls t"
    "s_machineToBePatched u = s_machineToBePatched t" "s_providerStatus u = (s_providerStatus t)\<lparr>st_Conditions := ?cs\<rparr>"
    by (rule set_conditions_bnd)
  let ?u = "u\<lparr>w_events := w_events u @ [\<lparr>ev_Type = EventTypeNormal, ev_Reason = createEventAction,
        ev_Message = ''Created Machine '' @ m_Name (s_machine u)\<rparr>]\<rparr>"
  from b c u(1) have "patchMachine A ?u = (r, s')"
    by (simp add: create_body_def handle_eq_Ok gets_def record_event_def modify_def bnd_eq_Ok)
  with u(2-) show "\<exists>u v. patchMachine A u = (r, v) \<and> s_machine u = s_machine t \<and> w_calls u = w_calls t \<and>
        s_machineToBePatched u = s_machineToBePatched t \<and>
        s_providerStatus u = (s_providerStatus t)\<lparr>st_Conditions := ?cs\<rparr> \<and> w_calls s' = w_calls v \<and> s_machine s' = s_machine v"
    by (intro exI [of _ ?u] exI [of _ s']) simp
qed (auto simp: create_body_def handle_eq_Err handle_def createEventAction_def)

interpretation deletion: actuation A "delete A" "delete_body A" machineDeletion ConditionFalse ConditionUnknown deleteEventAction for A
proof
  fix s t r s' assume c: "delete A s = (Ok (), t)" and b: "delete_body A s = (r, s')"
  let ?f = "\<lambda>_. bnd (gets s_machine) (\<lambda>machine.
     bnd (record_event \<lparr>ev_Type = EventTypeNormal, ev_Reason = deleteEventAction,
        ev_Message = ''Deleted machine '' @ m_Name machine\<rparr>) (\<lambda>_. patchMachine A))"
  let ?cs = "[conditionSuccess machineDeletion, conditionInstanceReady ConditionFalse]"
  obtain u where u: "bnd (set_conditions A ?cs) ?f t = ?f () u" "s_machine u = s_machine t" "w_calls u = w_calls t"
    "s_machineToBePatched u = s_machineToBePatched t" "s_providerStatus u = (s_providerStatus t)\<lparr>st_Conditions := ?cs\<rparr>"
    by (rule set_conditions_bnd)
  let ?u = "u\<lparr>w_events := w_events u @ [\<lparr>ev_Type = EventTypeNormal, ev_Reason = deleteEventAction,
        ev_Message = ''Deleted machine '' @ m_Name (s_machine u)\<rparr>]\<rparr>"
  from b c u(1) have "patchMachine A ?u = (r, s')"
    by (simp add: delete_body_def handle_eq_Ok gets_def record_event_def modify_def bnd_eq_Ok)
  with u(2-) show "\<exists>u v. patchMachine A u = (r, v) \<and> s_machine u = s_machine t \<and> w_calls u = w_calls t \<and>
        s_machineToBePatched u = s_machineToBePatched t \<and>
        s_providerStatus u = (s_providerStatus t)\<lparr>st_Conditions := ?cs\<rparr> \<and> w_calls s' = w_calls v \<and> s_machine s' = s_machine v"
    by (intro exI [of _ ?u] exI [of _ s']) simp
qed (auto simp: delete_body_def handle_eq_Err handle_def deleteEventAction_def)

interpretation updating: actuation A "update A" "update_body A" machineUpdate ConditionTrue ConditionUnknown updateEventAction for A
proof
  fix s t r s' assume c: "update A s = (Ok (), t)" and b: "update_body A s = (r, s')"
  let ?f = "\<lambda>_. bnd (gets (\<lambda>s. m_ResourceVersion (s_machine s))) (\<lambda>previousResourceVersion.
          bnd (patchMachine A) (\<lambda>_.
          bnd (gets s_machine) (\<lambda>machine.
          if previousResourceVersion \<noteq> m_ResourceVersion machine
          then record_event \<lparr>ev_Type = EventTypeNormal, ev_Reason = updateEventAction,
                 ev_Message = ''Updated Machine '' @ m_Name machine\<rparr>
          else ret ())))"
  let ?cs = "[conditionSuccess machineUpdate, conditionInstanceReady ConditionTrue]"
  obtain u where u: "bnd (set_conditions A ?cs) ?f t = ?f () u" "s_machine u = s_machine t" "w_calls u = w_calls t"
    "s_machineToBePatched u = s_machineToBePatched t" "s_providerStatus u = (s_providerStatus t)\<lparr>st_Conditions := ?cs\<rparr>"
    by (rule set_conditions_bnd)
  obtain q v where p: "patchMachine A u = (q, v)" by fastforce
  from b c u(1) p patchMachine_frame(5) [OF p] have "r = q \<and> w_calls s' = w_calls v \<and> s_machine s' = s_machine v"
    by (cases q) (auto simp: update_body_def handle_eq_Ok gets_def record_event_def modify_def ret_def bnd_eq_Ok bnd_eq_Err
        split: if_splits)
  with u(2-) p show "\<exists>u v. patchMachine A u = (r, v) \<and> s_machine u = s_machine t \<and> w_calls u = w_calls t \<and>
        s_machineToBePatched u = s_machineToBePatched t \<and>
        s_providerStatus u = (s_providerStatus t)\<lparr>st_Conditions := ?cs\<rparr> \<and> w_calls s' = w_calls v \<and> s_machine s' = s_machine v"
    by (intro exI [of _ u] exI [of _ v]) simp
qed (auto simp: update_body_def handle_eq_Err handle_def updateEventAction_def)

section \<open>The calls of a method\<close>

lemma filter_patches: "list_all is_patch cs \<Longrightarrow> filter is_create cs = [] \<and> filter is_delete cs = []"
proof (induction cs)
  case (Cons c cs)
  then show ?case by (cases c) auto
qed simp

lemma patch_not_create: "list_all is_patch cs \<Longrightarrow> C_VMs_Create v \<notin> set cs" "list_all is_patch cs \<Longrightarrow> C_VMs_DeleteAsync u \<notin> set cs"
  by (auto simp: list_all_iff)

lemma handleMachineError_calls: "handleMachineError e action s = (r, s') \<Longrightarrow> w_calls s' = w_calls s \<and> r = Err e"
  by (auto simp: handleMachineError_def record_event_def modify_def raise_def ret_def bnd_eq_Ok split: if_splits)

text \<open>
  The calls of a method are reads, those of its reconciler operation, and patches; without a
  scope, only reads.
\<close>

context actuation
begin

lemma method_calls:
  assumes "handle (scope_for A) (with_scope body)
      (\<lambda>e. bnd (gets ac_machine) (\<lambda>machine. handleMachineError (scopeFailFmt (m_Name machine) e) action)) a = (r, a')"
  obtains (reads) "list_all is_read (new_calls a a')"
    | (ran) s q t rs ps where "scope_ok A (ac_machine a) s" "rec s = (q, t)" "log_rel (\<lambda>_. True) s t \<Longrightarrow>
        new_calls a a' = rs @ new_calls s t @ ps" "list_all is_read rs" "list_all is_patch ps"
  using assms
proof (cases rule: actuator_cases)
  case (no_scope e a1)
  then have "w_calls a' = w_calls a1" by (auto simp: gets_def bnd_eq_Ok dest: handleMachineError_calls)
  with no_scope(2) have "list_all is_read (new_calls a a')" by (auto simp: log_rel_def)
  then show thesis by (rule reads)
next
  case no_spec
  then show thesis by (intro reads log_rel_new_calls)
next
  case (ran s s' rs)
  obtain q t where c: "rec s = (q, t)" by fastforce
  from then_patches [OF c ran(4)] obtain ps where ps: "w_calls s' = w_calls t @ ps" "list_all is_patch ps"
    by (auto simp: log_rel_def)
  show thesis
    by (rule that(2) [OF ran(1) c _ ran(3) ps(2)]) (use ran ps in \<open>auto simp: log_rel_def\<close>)
qed

end

text \<open>A run of \<open>Create\<close> that sends a VM sends one legal VM, for a valid machine.\<close>

lemma Create_vm_call:
  assumes "Create A a = (r, a')" and "C_VMs_Create v \<in> set (new_calls a a')"
  shows "filter is_create (new_calls a a') = [C_VMs_Create v] \<and> filter is_delete (new_calls a a') = [] \<and>
     validateMachine (ac_machine a) = Ok () \<and> (\<exists>s. scope_ok A (ac_machine a) s \<and> legal_vm A s v)"
  using assms(1) unfolding Create_def
proof (cases rule: creation.method_calls)
  case reads
  with assms(2) show ?thesis by (auto simp: list_all_iff)
next
  case (ran s q t rs ps)
  have calls: "new_calls a a' = rs @ new_calls s t @ ps" by (rule ran(3)) (rule keepsD [OF create_log ran(2)])
  with assms(2) ran(4,5) patch_not_create have sent: "C_VMs_Create v \<in> set (new_calls s t)" by (auto simp: list_all_iff)
  note c = create_vm_call [OF ran(2) sent]
  from ran(1) c(2) have "validateMachine (ac_machine a) = Ok ()" by (simp add: scope_ok_def)
  with c calls filter_reads [OF ran(4)] filter_patches [OF ran(5)] ran(1) show ?thesis by auto
qed

text \<open>A run of \<open>Delete\<close> that deletes a VM deletes one, after the volumes are gone.\<close>

lemma Delete_vm_call:
  assumes "Delete A a = (r, a')" and "C_VMs_DeleteAsync u \<in> set (new_calls a a')"
  shows "volumes_gone A (ac_machine a) \<and> filter is_delete (new_calls a a') = [C_VMs_DeleteAsync u]"
  using assms(1) unfolding Delete_def
proof (cases rule: deletion.method_calls)
  case reads
  with assms(2) show ?thesis by (auto simp: list_all_iff)
next
  case (ran s q t rs ps)
  have calls: "new_calls a a' = rs @ new_calls s t @ ps" by (rule ran(3)) (rule keepsD [OF delete_log ran(2)])
  with assms(2) ran(4,5) patch_not_create have sent: "C_VMs_DeleteAsync u \<in> set (new_calls s t)" by (auto simp: list_all_iff)
  note c = delete_vm_call [OF ran(2) sent]
  with calls filter_reads [OF ran(4)] filter_patches [OF ran(5)] ran(1) show ?thesis by (simp add: scope_ok_def)
qed

end
