(* ===== verification/Outside.thy ===== *)
theory Outside
  imports Actuator
begin

text \<open>
  The log is a true account: the outside changes only through the calls in the log, in their
  order, and through the clock.  \<open>answered\<close> says what one call may do to the outside, \<open>evolves\<close>
  what a list of calls may do, and every operation of the provider keeps the relation \<open>traced\<close>
  between the log and the outside.  A law about single calls thus becomes a law about whole
  operations.
\<close>

section \<open>Single calls and logs\<close>

text \<open>A patch is logged with the object sent; the object it is computed against is not.\<close>

inductive answered :: "'e api \<Rightarrow> call \<Rightarrow> 'e \<Rightarrow> 'e \<Rightarrow> bool" for A where
  "answered A (C_VMs_Get u) e (snd (a_VMs_Get A u e))"
| "answered A (C_VMs_List f) e (snd (a_VMs_List A f e))"
| "answered A (C_VMs_Create v) e (snd (a_VMs_Create A v e))"
| "answered A (C_VMs_DeleteAsync u) e (snd (a_VMs_DeleteAsync A u e))"
| "answered A (C_VMs_PowerOnVM u) e (snd (a_VMs_PowerOnVM A u e))"
| "answered A (C_Wait k) e (snd (a_Wait A k e))"
| "answered A (C_ListNicsByVmId u) e (snd (a_ListNicsByVmId A u e))"
| "answered A (C_Images_Get u) e (snd (a_Images_Get A u e))"
| "answered A (C_Images_List f) e (snd (a_Images_List A f e))"
| "answered A (C_Clusters_Get u) e (snd (a_Clusters_Get A u e))"
| "answered A (C_Clusters_List q) e (snd (a_Clusters_List A q e))"
| "answered A (C_ListClusterPhysicalGPUs u) e (snd (a_ListClusterPhysicalGPUs A u e))"
| "answered A (C_Subnets_Get u) e (snd (a_Subnets_Get A u e))"
| "answered A (C_Subnets_List f) e (snd (a_Subnets_List A f e))"
| "answered A (C_Categories_List f) e (snd (a_Categories_List A f e))"
| "answered A (C_ListProject f) e (snd (a_ListProject A f e))"
| "answered A (C_GetProject u) e (snd (a_GetProject A u e))"
| "answered A (C_NewClient c) e (snd (a_NewClient A c e))"
| "answered A (C_NewV3Client c) e (snd (a_NewV3Client A c e))"
| "answered A (C_Get_Infrastructure n) e (snd (a_Get_Infrastructure A n e))"
| "answered A (C_Get_Secret ns n) e (snd (a_Get_Secret A ns n e))"
| "answered A (C_Get_Node n) e (snd (a_Get_Node A n e))"
| "answered A (C_Update_Node nd) e (snd (a_Update_Node A nd e))"
| "answered A (C_Patch_Machine m) e (snd (a_Patch_Machine A m base e))"
| "answered A (C_Patch_MachineStatus m) e (snd (a_Patch_MachineStatus A m base e))"
| "answered A (C_Get_MachineSet ns n) e (snd (a_Get_MachineSet A ns n e))"
| "answered A (C_Patch_MachineSet ms) e (snd (a_Patch_MachineSet A ms msbase e))"

inductive evolves :: "'e api \<Rightarrow> call list \<Rightarrow> 'e \<Rightarrow> 'e \<Rightarrow> bool" for A where
  rest: "evolves A [] e e"
| tick: "evolves A cs (snd (a_Now A e)) e' \<Longrightarrow> evolves A cs e e'"
| call: "answered A c e e1 \<Longrightarrow> evolves A cs e1 e' \<Longrightarrow> evolves A (c # cs) e e'"

lemma evolves_append: "evolves A cs e e1 \<Longrightarrow> evolves A ds e1 e2 \<Longrightarrow> evolves A (cs @ ds) e e2"
  by (induction rule: evolves.induct) (auto intro: evolves.intros)

text \<open>
  A count of things outside that a call raises by at most one, and only if the call satisfies
  \<open>P\<close>, is raised by a list of calls by at most the number of those calls.
\<close>

lemma evolves_count:
  assumes "evolves A cs e e'"
    and "\<And>c e e'. answered A c e e' \<Longrightarrow> K e' \<le> K e + (if P c then 1 else 0 :: nat)"
    and "\<And>e. K (snd (a_Now A e)) \<le> K e"
  shows "K e' \<le> K e + length (filter P cs)"
  using assms(1)
proof (induction rule: evolves.induct)
  case (tick cs e e')
  with assms(3) [of e] show ?case by simp
next
  case (call c e e1 cs e')
  with assms(2) [OF call.hyps(1)] show ?case by (simp split: if_splits)
qed simp

section \<open>The frame\<close>

definition traced :: "'e api \<Rightarrow> ('e, 'z) world_scheme \<Rightarrow> ('e, 'y) world_scheme \<Rightarrow> bool" where
  "traced A s s' \<longleftrightarrow> (\<exists>cs. w_calls s' = w_calls s @ cs \<and> evolves A cs (w_ext s) (w_ext s'))"

lemma tracedD: "traced A s s' \<Longrightarrow> w_calls s' = w_calls s @ new_calls s s' \<and> evolves A (new_calls s s') (w_ext s) (w_ext s')"
  by (auto simp: traced_def)

lemma traced_trans: "traced A s t \<Longrightarrow> traced A t u \<Longrightarrow> traced A s u"
  unfolding traced_def by (metis append.assoc evolves_append)

lemma traced_same: "w_calls s' = w_calls s \<Longrightarrow> w_ext s' = w_ext s \<Longrightarrow> traced A s s'"
  by (auto simp: traced_def intro: evolves.rest)

lemma new_calls_trans: "traced A s t \<Longrightarrow> traced A t u \<Longrightarrow> new_calls s u = new_calls s t @ new_calls t u"
  by (auto simp: traced_def)

interpretation trace_frame: op_frame "traced A :: ('e, 'z) world_scheme \<Rightarrow> _" for A
  by unfold_locales (auto intro: traced_same traced_trans)

lemma call_api_traced [frame_rules]: "(\<And>e. answered A c e (snd (f e))) \<Longrightarrow> keeps (traced A) (call_api c f)"
proof (rule keepsI)
  fix s :: "('a, 'c) world_scheme" and r s' assume ans: "\<And>e. answered A c e (snd (f e))" and run: "call_api c f s = (r, s')"
  have "w_ext s' = snd (f (w_ext s))" "w_calls s' = w_calls s @ [c]"
    using run by (auto simp: call_api_def split: prod.splits)
  with evolves.call [OF ans evolves.rest] show "traced A s s'" by (auto simp: traced_def)
qed

lemma metav1_Now_traced [frame_rules]: "keeps (traced A) (metav1_Now A)"
proof (rule keepsI)
  fix s :: "('a, 'b) world_scheme" and r s' assume run: "metav1_Now A s = (r, s')"
  have "w_ext s' = snd (a_Now A (w_ext s))" "w_calls s' = w_calls s"
    using run by (auto simp: metav1_Now_def split: prod.splits)
  with evolves.tick [OF evolves.rest] show "traced A s s'" by (auto simp: traced_def)
qed

lemma modify_traced [frame_rules]:
  "(\<And>s. w_calls (f s) = w_calls s) \<Longrightarrow> (\<And>s. w_ext (f s) = w_ext s) \<Longrightarrow> keeps (traced A) (modify f)"
  by (simp add: keeps_def modify_def traced_same)

lemma record_traced [frame_rules]: "keeps (traced A) (record_event ev)" "keeps (traced A) (record_metric m)"
  by (auto simp: record_event_def record_metric_def intro!: modify_traced)

lemma lift_sum_traced [frame_rules]: "keeps (traced A) (lift_sum r)"
  by (cases r) (simp_all add: lift_sum_def trace_frame.frame_raise trace_frame.frame_ret)

lemmas answers [frame_rules] = answered.intros

section \<open>Every operation is traced\<close>

subsection \<open>Lookups and validation\<close>

lemmas lookup_defs = findVMByUUID_def findVMByName_def deleteVM_def findClusterUuidByName_def findImageUuidByName_def
  findSubnetUuidByName_def findProjectUuidByName_def getProjectByUUID_def getCategoryValue_def listVMNics_def
  getClusterNameByUUID_def getPrismCentralCluster_def getGPUsForPEConverged_def Let_def

lemma lookup_traced [frame_rules]:
  "keeps (traced A) (findVMByUUID A u)" "keeps (traced A) (findVMByName A n)" "keeps (traced A) (deleteVM A u)"
  "keeps (traced A) (findClusterUuidByName A n)" "keeps (traced A) (findImageUuidByName A n)"
  "keeps (traced A) (findSubnetUuidByName A n)" "keeps (traced A) (findProjectUuidByName A n)"
  "keeps (traced A) (getProjectByUUID A u)" "keeps (traced A) (getCategoryValue A k v)"
  "keeps (traced A) (listVMNics A u)" "keeps (traced A) (getClusterNameByUUID A u)"
  "keeps (traced A) (getPrismCentralCluster A)" "keeps (traced A) (getGPUsForPEConverged A u)"
  unfolding lookup_defs by (intro frame_rules)+

lemma client_traced [frame_rules]:
  "keeps (traced A) (Client A opts)" "keeps (traced A) (V3Client A opts)" "keeps (traced A) (getV3Client A)"
  "keeps (traced A) validated" "keeps (traced A) (update_validated f)"
  unfolding getV3Client_def Client_def V3Client_def validated_def update_validated_def by (intro frame_rules; simp)+

lemma subnets_loop_traced [frame_rules]: "keeps (traced A) (subnets_loop A p i rs)"
  by (induction rs arbitrary: i) (simp_all only: subnets_loop.simps validate_subnet_def, (intro frame_rules; assumption?)+)

lemma categories_loop_traced [frame_rules]: "keeps (traced A) (categories_loop A p cs)"
  by (induction cs) (simp_all only: categories_loop.simps, (intro frame_rules; assumption?)+)

lemma validate_data_source_traced [frame_rules]: "keeps (traced A) (validate_data_source A p i ds)"
  unfolding validate_data_source_def by (intro frame_rules)

lemma disks_loop_traced [frame_rules]: "keeps (traced A) (disks_loop A p i ds)"
  by (induction ds arbitrary: i) (simp_all only: disks_loop.simps, (intro frame_rules; assumption?)+)

lemma check_traced [frame_rules]:
  "keeps (traced A) (validateClusterConfig A p)" "keeps (traced A) (validateImageConfig A p)"
  "keeps (traced A) (validateSubnetsConfig A p)" "keeps (traced A) (validateProjectConfig A p)"
  "keeps (traced A) (validateCategoriesConfig A p)" "keeps (traced A) (validateGPUsConfig A p)"
  "keeps (traced A) (validateDataDisksConfig A p)"
  unfolding validateClusterConfig_def validateImageConfig_def validateSubnetsConfig_def validateProjectConfig_def
    validateCategoriesConfig_def validateGPUsConfig_def validateDataDisksConfig_def Let_def
  by (intro frame_rules)+

lemma validateVMConfig_traced [frame_rules]: "keeps (traced A) (validateVMConfig A)"
  unfolding validateVMConfig_def Let_def by (intro frame_rules; simp)

subsection \<open>Creation\<close>

lemma category_refs_loop_traced [frame_rules]: "keeps (traced A) (category_refs_loop A cs refs)"
  by (induction cs arbitrary: refs) (simp_all only: category_refs_loop.simps, (intro frame_rules; assumption?)+)

lemma build_traced [frame_rules]:
  "keeps (traced A) (add_gpus A sp v)" "keeps (traced A) (buildV4CategoryRefs A)"
  unfolding add_gpus_def buildV4GPUList_def buildV4CategoryRefs_def owner_category_ref_def Let_def by (intro frame_rules)+

lemma buildV4VMFromScope_traced [frame_rules]: "keeps (traced A) (buildV4VMFromScope A ud)"
  unfolding buildV4VMFromScope_def by (intro frame_rules)

lemma create_new_vm_traced [frame_rules]: "keeps (traced A) (create_new_vm A ud n)"
  unfolding create_new_vm_def create_and_power_on_def by (intro frame_rules)

lemma createVM_traced [frame_rules]: "keeps (traced A) (createVM A ud)"
  unfolding createVM_def create_by_name_def by (intro frame_rules)

subsection \<open>Scope, reconciler and actuator\<close>

lemma providerConditions_loop_traced [frame_rules]: "keeps (traced A) (providerConditions_loop A conds cur)"
  by (induction conds arbitrary: cur)
    (simp_all only: providerConditions_loop.simps updateExistingCondition_def, (intro frame_rules; assumption?)+)

lemma status_traced [frame_rules]:
  "keeps (traced A) (set_conditions A conds)" "keeps (traced A) (buildNodeAddresses A v)"
  "keeps (traced A) (setProviderStatus A vm c)"
  unfolding setProviderStatus_def set_conditions_def setNutanixProviderConditions_def buildNodeAddresses_def Let_def
  by (intro frame_rules; simp)+

lemma scope_op_traced [frame_rules]:
  "keeps (traced A) (set_machine m)" "keeps (traced A) (patchMachine A)" "keeps (traced A) (getUserData A)"
  "keeps (traced A) (nodeHasVolumesAttached A)"
  unfolding set_machine_def patchMachine_def getUserData_def nodeHasVolumesAttached_def getNode_def Let_def
  by (intro frame_rules; simp)+

lemma connect_scope_traced [frame_rules]: "keeps (traced A) (connect_scope A)"
  unfolding connect_scope_def getNutanixClientOptions_def set_failure_domain_def pc_credentials_def
  by (intro frame_rules; simp)

lemma in_scope_traced [frame_rules]: "keeps (traced A) m \<Longrightarrow> keeps (traced A) (in_scope x m)"
proof (rule keepsI)
  fix w r w' assume m: "keeps (traced A) m" and run: "in_scope x m w = (r, w')"
  obtain q s where q: "m (world.extend w x) = (q, s)" by fastforce
  from keepsD [OF m q] run q show "traced A w w'" by (cases q) (auto simp: in_scope_def traced_def)
qed

lemma newMachineScope_traced [frame_rules]: "keeps (traced A) (newMachineScope A params)"
  unfolding newMachineScope_def by (intro frame_rules)

lemma sync_traced [frame_rules]: "keeps (traced A) (updateMachineWithVMState A vm)"
  unfolding updateMachineWithVMState_def setProviderID_def set_node_provider_id_def vm_zone_def Let_def
  by (intro frame_rules)

lemma find_traced [frame_rules]: "keeps (traced A) (find_machine_vm A)" "keeps (traced A) (find_for_update A m)"
  "keeps (traced A) (check_volumes A m)"
  unfolding find_machine_vm_def find_for_update_def update_failed_def check_volumes_def by (intro frame_rules; simp)+

lemma reconciler_traced [frame_rules]:
  "keeps (traced A) (create A)" "keeps (traced A) (update A)" "keeps (traced A) (delete A)" "keeps (traced A) (exists A)"
  unfolding create_def update_def update_failed_def delete_def exists_def Let_def by (intro frame_rules; simp)+

lemma body_traced [frame_rules]:
  "keeps (traced A) (create_body A)" "keeps (traced A) (update_body A)" "keeps (traced A) (delete_body A)"
  unfolding create_body_def update_body_def delete_body_def reconcile_failed_def handleMachineError_def
  by (intro frame_rules)+

lemma with_scope_traced [frame_rules]: "keeps (traced A) m \<Longrightarrow> keeps (traced A) (with_scope m x)"
proof (rule keepsI)
  fix a r a' assume m: "keeps (traced A) m" and run: "with_scope m x a = (r, a')"
  obtain q s where q: "m (world.extend (world.truncate a) x) = (q, s)" by fastforce
  from keepsD [OF m q] run q show "traced A a a'" by (auto simp: with_scope_def traced_def)
qed

lemma scope_for_traced [frame_rules]: "keeps (traced A) (scope_for A)"
proof (rule keepsI)
  fix a r a' assume run: "scope_for A a = (r, a')"
  obtain q w where q: "newMachineScope A \<lparr>p_Context = True, p_machine = Some (ac_machine a)\<rparr> (world.truncate a) = (q, w)" by fastforce
  from keepsD [OF newMachineScope_traced q] run q show "traced A a a'" by (auto simp: scope_for_def traced_def)
qed

lemma actuator_traced:
  "keeps (traced A) (Create A)" "keeps (traced A) (Exists A)" "keeps (traced A) (Update A)" "keeps (traced A) (Delete A)"
  unfolding Create_def Exists_def Update_def Delete_def handleMachineError_def by (intro frame_rules)+

end
