(* ===== verification/History.thy ===== *)
theory History
  imports Outside
begin

text \<open>
  Many calls of the actuator, in any order: the machine controller calls \<open>Create\<close>, \<open>Exists\<close>,
  \<open>Update\<close> and \<open>Delete\<close> for many machines, re-reads the Machine objects, and others change the
  outside in between.  \<open>history\<close> is that step relation.  Over it: if Prism Central is honest
  about a name, it never holds two VMs of that name.
\<close>

section \<open>Histories\<close>

datatype actuator_method = MCreate | MExists | MUpdate | MDelete

primrec invoke :: "'e api \<Rightarrow> actuator_method \<Rightarrow> 'e actuatorState \<Rightarrow> 'e actuatorState" where
  "invoke A MCreate a = snd (Create A a)"
| "invoke A MExists a = snd (Exists A a)"
| "invoke A MUpdate a = snd (Update A a)"
| "invoke A MDelete a = snd (Delete A a)"

text \<open>
  One worker reconciles at a time.  Before each call it may hold any Machine object: the one of
  the last call or another one read from the API server.
\<close>

inductive history :: "'e api \<Rightarrow> ('e \<Rightarrow> 'e \<Rightarrow> bool) \<Rightarrow> 'e actuatorState \<Rightarrow> 'e actuatorState \<Rightarrow> bool" for A env a where
  start: "history A env a a"
| called: "history A env a b \<Longrightarrow> history A env a (invoke A x b)"
| read: "history A env a b \<Longrightarrow> history A env a (b\<lparr>ac_machine := m\<rparr>)"
| others: "history A env a b \<Longrightarrow> env (w_ext b) e \<Longrightarrow> history A env a (b\<lparr>w_ext := e\<rparr>)"

section \<open>An honest server\<close>

fun creates :: "string \<Rightarrow> call \<Rightarrow> bool" where
  "creates n (C_VMs_Create v) = (vm_Name v = Some n)"
| "creates n _ = False"

text \<open>
  \<open>K\<close> counts the VMs named \<open>n\<close>.  A call raises it by at most one, and only the creation of a VM of
  that name does; listed VMs have ids; and an answer that reads as not found is true.
\<close>

definition honest_about :: "'e api \<Rightarrow> string \<Rightarrow> ('e \<Rightarrow> nat) \<Rightarrow> bool" where
  "honest_about A n K \<longleftrightarrow>
     (\<forall>c e e'. answered A c e e' \<longrightarrow> K e' \<le> K e + (if creates n c then 1 else 0)) \<and>
     (\<forall>e. K (snd (a_Now A e)) \<le> K e) \<and>
     (\<forall>e vms e'. a_VMs_List A (name_filter n) e = (Inr vms, e') \<longrightarrow> list_all (\<lambda>v. vm_ExtId v \<noteq> None) vms) \<and>
     (\<forall>e e'. a_VMs_List A (name_filter n) e = (Inr [], e') \<longrightarrow> K e' = 0) \<and>
     (\<forall>e err e'. a_VMs_List A (name_filter n) e = (Inl err, e') \<and> isNotFoundError (Some err) \<longrightarrow> K e' = 0) \<and>
     (\<forall>e v u e1 err e'. a_VMs_List A (name_filter n) e = (Inr [v], e1) \<and> vm_ExtId v = Some u \<and>
        a_VMs_Get A u e1 = (Inl err, e') \<and> isNotFoundError (Some err) \<longrightarrow> K e' = 0)"

lemma honest_aboutD:
  assumes "honest_about A n K"
  shows "answered A c e e' \<Longrightarrow> K e' \<le> K e + (if creates n c then 1 else 0)"
    and "K (snd (a_Now A e)) \<le> K e"
    and "a_VMs_List A (name_filter n) e = (Inr [v], e') \<Longrightarrow> vm_ExtId v \<noteq> None"
    and "a_VMs_List A (name_filter n) e = (Inr [], e') \<Longrightarrow> K e' = 0"
    and "a_VMs_List A (name_filter n) e = (Inl err, e') \<Longrightarrow> isNotFoundError (Some err) \<Longrightarrow> K e' = 0"
    and "a_VMs_List A (name_filter n) e = (Inr [v], e1) \<Longrightarrow> vm_ExtId v = Some u \<Longrightarrow>
        a_VMs_Get A u e1 = (Inl err, e') \<Longrightarrow> isNotFoundError (Some err) \<Longrightarrow> K e' = 0"
  using assms unfolding honest_about_def by (blast, blast, fastforce, blast, blast, blast)

text \<open>A lookup by name that fails with a not-found error leaves a state without such a VM.\<close>

lemma name_is_free_honest:
  assumes h: "honest_about A n K" and n: "dns_name n" and free: "name_is_free A n t t'"
  shows "K (w_ext t') = 0"
proof -
  obtain e where f: "findVMByName A n t = (Err e, t')" and e: "isNotFoundError (Some e)"
    using free by (auto simp: name_is_free_def)
  obtain q t1 where l: "call_api (C_VMs_List (name_filter n)) (a_VMs_List A (name_filter n)) t = (q, t1)" by fastforce
  from l show ?thesis
  proof (cases rule: call_api_cases)
    case (ok vms)
    consider "vms = []" | v where "vms = [v]" | "length vms \<ge> 2" by (cases vms; cases "tl vms") auto
    then show ?thesis
    proof cases
      case 1
      with f l ok have "t' = t1" using findVMByName_none [of n A t t1] by auto
      with honest_aboutD(4) [OF h] ok 1 show ?thesis by simp
    next
      case 2
      with honest_aboutD(3) [OF h] ok obtain u where u: "vm_ExtId v = Some u" by fastforce
      with f l ok 2 have "findVMByUUID A u t1 = (Err e, t')" by (simp add: findVMByName_def handle_eq_Ok)
      then have "a_VMs_Get A u (w_ext t1) = (Inl e, w_ext t')"
        by (auto simp: findVMByUUID_def elim: call_api_cases)
      with honest_aboutD(6) [OF h _ u _ e] ok 2 show ?thesis by blast
    next
      case 3
      with findVMByName_several [of n A t vms t1] f l ok several_vms_message [OF n] e show ?thesis by auto
    qed
  next
    case (err e1)
    with f l have "e = fmt_Errorf_w (''finding VM by name '' @ n @ '': '') e1" "t' = t1"
      by (auto simp: findVMByName_def handle_eq_Err raise_def)
    with e isNotFoundError_unwrap [OF n] have "isNotFoundError (Some e1)" by simp
    with honest_aboutD(5) [OF h err(2)] \<open>t' = t1\<close> show ?thesis by simp
  qed
qed

section \<open>The count is capped\<close>

definition capped :: "('e \<Rightarrow> nat) \<Rightarrow> ('e, 'z) world_scheme \<Rightarrow> ('e, 'z) world_scheme \<Rightarrow> bool" where
  "capped K s s' \<longleftrightarrow> (K (w_ext s) \<le> 1 \<longrightarrow> K (w_ext s') \<le> 1)"

interpretation cap_frame: op_frame "capped K" for K
  by unfold_locales (auto simp: capped_def)

lemma traced_count:
  "honest_about A n K \<Longrightarrow> traced A s s' \<Longrightarrow> K (w_ext s') \<le> K (w_ext s) + length (filter (creates n) (new_calls s s'))"
  by (rule evolves_count [OF tracedD [THEN conjunct2] honest_aboutD(1,2)])

lemma not_create_creates: "\<not> is_create c \<Longrightarrow> \<not> creates n c"
  by (cases c) auto

text \<open>What creates nothing keeps the cap.\<close>

lemma capped_if_no_create:
  assumes "honest_about A n K" and "keeps (traced A) m" and "keeps (log_rel P) m" and "\<And>c. P c \<Longrightarrow> \<not> is_create c"
  shows "keeps (capped K) m"
proof (rule keepsI)
  fix s r s' assume run: "m s = (r, s')"
  have "list_all (\<lambda>c. \<not> creates n c) (new_calls s s')"
    using log_rel_new_calls [OF keepsD [OF assms(3) run]] assms(4) not_create_creates by (auto simp: list_all_iff)
  then have "filter (creates n) (new_calls s s') = []" by (simp add: list_all_filter_Nil)
  with traced_count [OF assms(1) keepsD [OF assms(2) run]] show "capped K s s'" by (simp add: capped_def)
qed

section \<open>Every call keeps the cap\<close>

lemma buildV4VMFromScope_name:
  assumes "buildV4VMFromScope A ud s = (Ok v, t)"
  shows "vm_Name v = Some (m_Name (s_machine s))"
proof (cases "s_providerSpecValidated s")
  case None
  with assms show ?thesis
    by (simp add: buildV4VMFromScope_def validated_def gets_def bnd_def handle_def deref_def panic_def)
next
  case (Some sp)
  with buildV4VMFromScope_Ok [OF assms] show ?thesis by (metis vm_of_spec_def Vm.select_convs(2))
qed

lemma filter_creates_tail:
  "filter (creates n) (take (Suc k) (create_trace v u task)) = (if vm_Name v = Some n then [C_VMs_Create v] else [])"
  by (simp add: create_trace_def take_Cons' split: nat.splits)

lemma create_new_vm_capped:
  assumes h: "honest_about A n K" and free: "m_Name (s_machine s) = n \<Longrightarrow> K (w_ext s) = 0"
    and run: "create_new_vm A ud (m_Name (s_machine s)) s = (r, s')"
  shows "capped K s s'"
proof -
  have count: "K (w_ext s') \<le> K (w_ext s) + length (filter (creates n) (new_calls s s'))"
    by (rule traced_count [OF h keepsD [OF create_new_vm_traced run]])
  from run show ?thesis
  proof (cases rule: create_new_vm_trace)
    case unbuilt
    then have "filter (creates n) (new_calls s s') = []"
      using call_rel_new_calls [OF unbuilt(1)] not_create_creates [of _ n]
      by (auto simp: list_all_iff filter_empty_conv)
    with count show ?thesis by (simp add: capped_def)
  next
    case (built v t u task k)
    from built(2) obtain rs where rs: "w_calls t = w_calls s @ rs" "list_all is_read rs" by (auto simp: call_rel_def)
    with built(3) have "new_calls s s' = rs @ take (Suc k) (create_trace v u task)" by simp
    moreover from rs(2) not_create_creates [of _ n] have "filter (creates n) rs = []"
      by (auto simp: list_all_iff filter_empty_conv)
    ultimately have "K (w_ext s') \<le> K (w_ext s) + (if m_Name (s_machine s) = n then 1 else 0)"
      using count buildV4VMFromScope_name [OF built(1)] by (simp add: filter_creates_tail split: if_splits)
    with free show ?thesis by (auto simp: capped_def split: if_splits)
  qed
qed

lemma createVM_capped [frame_rules]:
  assumes h: "honest_about A n K" and n: "dns_name n"
  shows "keeps (capped K) (createVM A ud)"
proof (rule keepsI)
  fix s r s' assume run: "createVM A ud s = (r, s')"
  have reads: "capped K t t'" if "call_rel is_read t t'" "traced A t t'" for t t'
  proof -
    have "filter (creates n) (new_calls t t') = []"
      using call_rel_new_calls [OF that(1)] not_create_creates [of _ n] by (auto simp: list_all_iff filter_empty_conv)
    with traced_count [OF h that(2)] show ?thesis by (simp add: capped_def)
  qed
  from run show "capped K s s'"
  proof (cases rule: createVM_cases)
    case (new t t')
    have rel: "call_rel is_read s t'"
      by (rule call_frame.trans [OF uuid_is_free_rel [OF new(1)] name_is_free_rel [OF new(2)]])
    have tr: "traced A s t'"
      using new(1,2) by (auto simp: uuid_is_free_def name_is_free_def dest!: keepsD [OF lookup_traced(1)] keepsD [OF lookup_traced(2)]
          intro: traced_trans split: option.splits)
    have "s_machine t' = s_machine s" by (rule call_rel_fields [OF rel])
    with new(3) name_is_free_honest [OF h n] new(2) have "capped K t' s'"
      by (intro create_new_vm_capped [OF h]) auto
    with reads [OF rel tr] show ?thesis by (rule cap_frame.trans)
  next
    case (existing vm)
    have "call_rel is_read s s'"
      using existing(1)
      by (auto simp: found_vm_def dest!: keepsD [OF findVMByUUID_rel] keepsD [OF findVMByName_rel] uuid_is_free_rel
        intro: call_frame.trans)
    with keepsD [OF createVM_traced run] show ?thesis by (blast intro: reads)
  next
    case (refused e)
    with keepsD [OF createVM_traced run] show ?thesis by (blast intro: reads)
  qed
qed

lemma delete_no_create: "keeps (log_rel (\<lambda>c. \<not> is_create c)) (delete A)"
  unfolding delete_def deleteVM_def Let_def
  by (intro frame_rules keeps_log [OF find_machine_vm_rel, THEN keeps_log_mono]
      keeps_log [OF check_volumes_rel, THEN keeps_log_mono]) simp_all

lemma validateVMConfig_log: "keeps (log_rel is_read) (validateVMConfig A)"
  by (rule keeps_mono [OF validateVMConfig_rel]) (rule scope_rel_log)

text \<open>The parts of the actuator that create nothing, and the creating one.\<close>

lemma parts_capped:
  assumes "honest_about A n K"
  shows "keeps (capped K) (update A)" "keeps (capped K) (delete A)" "keeps (capped K) (exists A)"
    "keeps (capped K) (patchMachine A)" "keeps (capped K) (set_conditions A conds)" "keeps (capped K) (newMachineScope A params)"
    "keeps (capped K) (getUserData A)" "keeps (capped K) (validateVMConfig A)"
    "keeps (capped K) (updateMachineWithVMState A vm)" "keeps (capped K) (setProviderStatus A vm c)"
  by (rule capped_if_no_create [OF assms], (intro frame_rules)[1],
      rule update_log delete_no_create exists_log patchMachine_log set_conditions_log newMachineScope_log
        keeps_log [OF getUserData_rel] validateVMConfig_log updateMachineWithVMState_log setProviderStatus_log,
      (auto elim: is_patch.elims is_node_update.elims)[])+

lemma record_capped: "keeps (capped K) (record_event ev)"
  by (simp add: keeps_def record_event_def modify_def capped_def)

lemma create_capped:
  assumes "honest_about A n K" and "dns_name n"
  shows "keeps (capped K) (create A)"
  unfolding create_def by (intro frame_rules parts_capped [OF assms(1)] createVM_capped [OF assms])

lemma bodies_capped:
  assumes "honest_about A n K" and "dns_name n"
  shows "keeps (capped K) (create_body A)" "keeps (capped K) (update_body A)" "keeps (capped K) (delete_body A)"
  unfolding create_body_def update_body_def delete_body_def reconcile_failed_def handleMachineError_def
  by (intro frame_rules record_capped parts_capped [OF assms(1)] create_capped [OF assms])+

lemma with_scope_capped: "keeps (capped K) m \<Longrightarrow> keeps (capped K) (with_scope m x)"
proof (rule keepsI)
  fix a r a' assume m: "keeps (capped K) m" and run: "with_scope m x a = (r, a')"
  obtain q s where q: "m (world.extend (world.truncate a) x) = (q, s)" by fastforce
  from keepsD [OF m q] run q show "capped K a a'" by (auto simp: with_scope_def capped_def)
qed

lemma scope_for_capped: "honest_about A n K \<Longrightarrow> keeps (capped K) (scope_for A)"
proof (rule keepsI)
  fix a r a' assume h: "honest_about A n K" and run: "scope_for A a = (r, a')"
  obtain q w where q: "newMachineScope A \<lparr>p_Context = True, p_machine = Some (ac_machine a)\<rparr> (world.truncate a) = (q, w)" by fastforce
  from keepsD [OF parts_capped(6) [OF h] q] run q show "capped K a a'" by (auto simp: scope_for_def capped_def)
qed

lemma invoke_capped:
  assumes "honest_about A n K" and "dns_name n"
  shows "capped K a (invoke A x a)"
proof -
  have "keeps (capped K) (Create A)" "keeps (capped K) (Exists A)" "keeps (capped K) (Update A)" "keeps (capped K) (Delete A)"
    unfolding Create_def Exists_def Update_def Delete_def handleMachineError_def
    by (intro frame_rules record_capped with_scope_capped scope_for_capped [OF assms(1)] bodies_capped [OF assms]
        parts_capped [OF assms(1)])+
  then show ?thesis by (cases x) (simp_all add: keeps_def)
qed

lemma history_capped:
  assumes "history A env a b" and "honest_about A n K" and "dns_name n" and "\<And>e e'. env e e' \<Longrightarrow> K e' \<le> K e"
  shows "capped K a b"
  using assms(1)
proof (induction rule: history.induct)
  case (called b x)
  from called.IH invoke_capped [OF assms(2,3)] show ?case by (rule cap_frame.trans)
next
  case (others b e)
  with assms(4) [OF others.hyps(2)] show ?case by (auto simp: capped_def)
qed (simp_all add: capped_def)

end
