(* ===== verification/Machine_Controller.thy ===== *)
theory Machine_Controller
  imports History
begin

text \<open>
  The machine controller of the machine API operator (vendored,
  \<^verbatim>\<open>pkg/controller/machine/controller.go\<close>), the caller of the actuator: it reads a Machine object,
  decides which methods of the actuator to call, keeps the phase and the finalizer, and removes the
  finalizer once the instance is gone.  The actuator is an argument, the record \<open>Actuator_impl\<close>, as it is
  an interface in the code; the controller's own calls of the Kubernetes API are the parameter
  \<open>ctl_api\<close>.  Left out: logging, the transition metric and the time stamps of conditions.
\<close>

section \<open>Objects\<close>

text \<open>The parts of a Machine object only the controller works with.\<close>

record machine_condition =
  mc_Status :: ConditionStatus
  mc_Severity :: string
  mc_Reason :: string
  mc_Message :: string

record LifecycleHook =
  lh_Name :: string
  lh_Owner :: string

record machine_meta =
  mt_Finalizers :: "string list"
  mt_Deleted :: bool
  mt_PreDrain :: "LifecycleHook list"
  mt_PreTerminate :: "LifecycleHook list"
  mt_SpecAuthority :: string
  mt_Authority :: string
  mt_Phase :: "string option"
  mt_Conditions :: "string \<rightharpoonup> machine_condition"
  mt_ErrorReason :: "string option"
  mt_ErrorMessage :: "string option"

type_synonym conditions = "string \<rightharpoonup> machine_condition"

type_synonym machine_object = "Machine \<times> machine_meta"

definition MachineFinalizer :: string where "MachineFinalizer = ''machine.machine.openshift.io''"
definition PhaseFailed :: string where "PhaseFailed = ''Failed''"
definition PhaseProvisioning :: string where "PhaseProvisioning = ''Provisioning''"
definition PhaseProvisioned :: string where "PhaseProvisioned = ''Provisioned''"
definition PhaseRunning :: string where "PhaseRunning = ''Running''"
definition PhaseDeleting :: string where "PhaseDeleting = ''Deleting''"
definition requeueAfter :: nat where "requeueAfter = 30"
definition unknownInstanceState :: string where "unknownInstanceState = ''Unknown''"

definition TrueCondition :: machine_condition where
  "TrueCondition = \<lparr>mc_Status = ConditionTrue, mc_Severity = [], mc_Reason = [], mc_Message = []\<rparr>"

definition TrueConditionWithReason :: "string \<Rightarrow> string \<Rightarrow> machine_condition" where
  "TrueConditionWithReason reason msg =
     \<lparr>mc_Status = ConditionTrue, mc_Severity = [], mc_Reason = reason, mc_Message = msg\<rparr>"

definition FalseCondition :: "string \<Rightarrow> string \<Rightarrow> string \<Rightarrow> machine_condition" where
  "FalseCondition reason severity msg =
     \<lparr>mc_Status = ConditionFalse, mc_Severity = severity, mc_Reason = reason, mc_Message = msg\<rparr>"

definition UnknownCondition :: "string \<Rightarrow> string \<Rightarrow> machine_condition" where
  "UnknownCondition reason msg =
     \<lparr>mc_Status = ConditionUnknown, mc_Severity = [], mc_Reason = reason, mc_Message = msg\<rparr>"

definition set_condition :: "string \<Rightarrow> machine_condition \<Rightarrow> machine_meta \<Rightarrow> machine_meta" where
  "set_condition t c m = m\<lparr>mt_Conditions := (mt_Conditions m)(t \<mapsto> c)\<rparr>"

text \<open>The verb \<^verbatim>\<open>%+v\<close> on a list of hooks.\<close>

definition print_hooks :: "LifecycleHook list \<Rightarrow> string" where
  "print_hooks hs = ''['' @ strings_Join (map (\<lambda>h. ''{Name:'' @ lh_Name h @ '' Owner:'' @ lh_Owner h @ ''}'') hs) '' '' @ '']''"

definition setLifecycleHookConditions :: "machine_meta \<Rightarrow> machine_meta" where
  "setLifecycleHookConditions m =
     (let m = (if mt_PreDrain m \<noteq> []
               then set_condition ''Drainable'' (FalseCondition ''HookPresent'' ''Warning''
                      (''Drain operation currently blocked by: '' @ print_hooks (mt_PreDrain m))) m
               else set_condition ''Drainable'' TrueCondition m)
      in if mt_PreTerminate m \<noteq> []
         then set_condition ''Terminable'' (FalseCondition ''HookPresent'' ''Warning''
                (''Terminate operation currently blocked by: '' @ print_hooks (mt_PreTerminate m))) m
         else set_condition ''Terminable'' TrueCondition m)"

definition machineIsProvisioned :: "Machine \<Rightarrow> bool" where
  "machineIsProvisioned m \<longleftrightarrow> m_Addresses m \<noteq> [] \<or> ptr_Deref (m_ProviderID m) [] \<noteq> []"

definition machineHasNode :: "Machine \<Rightarrow> bool" where
  "machineHasNode m \<longleftrightarrow> m_NodeRef m \<noteq> None"

definition machineIsFailed :: "machine_meta \<Rightarrow> bool" where
  "machineIsFailed m \<longleftrightarrow> ptr_Deref (mt_Phase m) [] = PhaseFailed"

text \<open>The controller's \<^verbatim>\<open>validateMachine\<close>: whether its list of errors is empty.\<close>

definition ctl_validateMachine :: "Machine \<Rightarrow> bool" where
  "ctl_validateMachine m \<longleftrightarrow> map_get (m_Labels m) MachineClusterIDLabel \<noteq> [] \<and> m_ProviderSpec m \<noteq> None"

section \<open>The controller and its calls\<close>

text \<open>The interface \<^verbatim>\<open>Actuator\<close>.\<close>

record 'e Actuator_impl =
  i_Create :: "('e, unit) actuator_op"
  i_Delete :: "('e, unit) actuator_op"
  i_Update :: "('e, unit) actuator_op"
  i_Exists :: "('e, bool) actuator_op"

text \<open>
  \<open>k_invalid\<close> prints the validation errors of a machine; \<open>k_override\<close> rewrites the state inside a raw
  provider status.  A patch has the object and the base its changes are computed against.  It replaces the whole local object by the server's, so after a call of the
  actuator the controller's part of the object is what the server sent: \<open>k_after\<close>.
\<close>

record 'e ctl_api =
  k_Migration :: bool
  k_Get :: "string \<Rightarrow> string \<Rightarrow> ('e, machine_object) ext_call"
  k_Update :: "machine_object \<Rightarrow> ('e, machine_object) ext_call"
  k_Patch :: "machine_object \<Rightarrow> machine_object \<Rightarrow> ('e, machine_object) ext_call"
  k_PatchStatus :: "machine_object \<Rightarrow> machine_object \<Rightarrow> ('e, machine_object) ext_call"
  k_GetNode :: "string \<Rightarrow> ('e, unit) ext_call"
  k_DeleteNode :: "string \<Rightarrow> ('e, unit) ext_call"
  k_invalid :: "Machine \<Rightarrow> string"
  k_override :: "bytes \<Rightarrow> go_error + bytes"
  k_after :: "actuator_method \<Rightarrow> 'e \<Rightarrow> machine_meta \<Rightarrow> machine_meta"

text \<open>
  What the controllers did, in order; a method of the actuator with its answer.  The steps \<open>D_\<close> are
  those of the drain controller.
\<close>

datatype ctl_step =
    K_Get | K_Create bool | K_Delete bool | K_Update bool | K_Exists "bool option"
  | K_Annotate | K_Status string | K_Authority | K_AddFinalizer | K_RemoveFinalizer
  | K_GetNode string | K_DeleteNode string
  | D_NewClient | D_GetNode string | D_ListNodes | D_Cordon string | D_Drain string | D_Status

record 'e ctlState =
  kt_act :: "'e actuatorState"
  kt_meta :: machine_meta
  kt_log :: "ctl_step list"

type_synonym ('e, 'a) ctl_op = "('e ctlState, go_error, 'a) op"

record ctl_Result =
  res_Requeue :: bool
  res_RequeueAfter :: nat

definition no_requeue :: ctl_Result where "no_requeue = \<lparr>res_Requeue = False, res_RequeueAfter = 0\<rparr>"
definition requeue_later :: ctl_Result where "requeue_later = \<lparr>res_Requeue = False, res_RequeueAfter = requeueAfter\<rparr>"

abbreviation ctl_machine :: "'e ctlState \<Rightarrow> Machine" where
  "ctl_machine s \<equiv> ac_machine (kt_act s)"

abbreviation ctl_object :: "'e ctlState \<Rightarrow> machine_object" where
  "ctl_object s \<equiv> (ctl_machine s, kt_meta s)"

definition set_object :: "machine_object \<Rightarrow> ('e, unit) ctl_op" where
  "set_object obj = modify (\<lambda>s. s\<lparr>kt_act := (kt_act s)\<lparr>ac_machine := fst obj\<rparr>, kt_meta := snd obj\<rparr>)"

definition modify_meta :: "(machine_meta \<Rightarrow> machine_meta) \<Rightarrow> ('e, unit) ctl_op" where
  "modify_meta f = modify (\<lambda>s. s\<lparr>kt_meta := f (kt_meta s)\<rparr>)"

text \<open>A call of the Kubernetes API, and one that sends the object and takes over the answer.\<close>

definition k_call :: "ctl_step \<Rightarrow> ('e, 'a) ext_call \<Rightarrow> ('e, 'a) ctl_op" where
  "k_call st f = (\<lambda>s. case f (w_ext (kt_act s)) of
      (r, e) \<Rightarrow> (case r of Inl err \<Rightarrow> Err err | Inr x \<Rightarrow> Ok x,
        s\<lparr>kt_act := (kt_act s)\<lparr>w_ext := e\<rparr>, kt_log := kt_log s @ [st]\<rparr>))"

definition send :: "ctl_step \<Rightarrow> (machine_object \<Rightarrow> ('e, machine_object) ext_call) \<Rightarrow> ('e, unit) ctl_op" where
  "send st f = bnd (gets ctl_object) (\<lambda>obj. bnd (k_call st (f obj)) set_object)"

definition ctl_event :: "event_type \<Rightarrow> string \<Rightarrow> string \<Rightarrow> ('e, unit) ctl_op" where
  "ctl_event type reason note = modify (\<lambda>s. s\<lparr>kt_act := (kt_act s)\<lparr>w_events := w_events (kt_act s) @
     [\<lparr>ev_Type = type, ev_Reason = reason, ev_Message = note\<rparr>]\<rparr>\<rparr>)"

definition new_steps :: "'e ctlState \<Rightarrow> 'e ctlState \<Rightarrow> ctl_step list" where
  "new_steps s s' = drop (length (kt_log s)) (kt_log s')"

text \<open>A method of the actuator on the controller's machine.\<close>

definition call_actuator ::
  "'e ctl_api \<Rightarrow> actuator_method \<Rightarrow> ('a option \<Rightarrow> ctl_step) \<Rightarrow> ('e, 'a) actuator_op \<Rightarrow> ('e, 'a) ctl_op" where
  "call_actuator K x step f = (\<lambda>s. case f (kt_act s) of
      (r, a) \<Rightarrow> (r, s\<lparr>kt_act := a, kt_meta := k_after K x (w_ext a) (kt_meta s),
        kt_log := kt_log s @ [step (case r of Ok y \<Rightarrow> Some y | _ \<Rightarrow> None)]\<rparr>))"

definition call_Create :: "'e ctl_api \<Rightarrow> 'e Actuator_impl \<Rightarrow> ('e, unit) ctl_op" where
  "call_Create K I = call_actuator K MCreate (\<lambda>r. K_Create (r \<noteq> None)) (i_Create I)"

definition call_Delete :: "'e ctl_api \<Rightarrow> 'e Actuator_impl \<Rightarrow> ('e, unit) ctl_op" where
  "call_Delete K I = call_actuator K MDelete (\<lambda>r. K_Delete (r \<noteq> None)) (i_Delete I)"

definition call_Update :: "'e ctl_api \<Rightarrow> 'e Actuator_impl \<Rightarrow> ('e, unit) ctl_op" where
  "call_Update K I = call_actuator K MUpdate (\<lambda>r. K_Update (r \<noteq> None)) (i_Update I)"

definition call_Exists :: "'e ctl_api \<Rightarrow> 'e Actuator_impl \<Rightarrow> ('e, bool) ctl_op" where
  "call_Exists K I = call_actuator K MExists K_Exists (i_Exists I)"

section \<open>Status\<close>

definition patchFailedMachineInstanceAnnotation :: "'e ctl_api \<Rightarrow> ('e, unit) ctl_op" where
  "patchFailedMachineInstanceAnnotation K =
     bnd (gets ctl_object) (\<lambda>base.
     bnd (modify (\<lambda>s. s\<lparr>kt_act := (kt_act s)\<lparr>ac_machine := (ctl_machine s)\<lparr>m_Annotations :=
            Some ((map_make (m_Annotations (ctl_machine s)))(MachineInstanceStateAnnotationName \<mapsto> unknownInstanceState))\<rparr>\<rparr>\<rparr>)) (\<lambda>_.
     send K_Annotate (\<lambda>obj. k_Patch K obj base)))"

definition overrideFailedMachineProviderStatusState :: "'e ctl_api \<Rightarrow> ('e, unit) ctl_op" where
  "overrideFailedMachineProviderStatusState K =
     bnd (gets (\<lambda>s. m_ProviderStatus (ctl_machine s))) (\<lambda>st. case st of
       None \<Rightarrow> ret ()
     | Some raw \<Rightarrow> bnd (lift_sum (k_override K raw)) (\<lambda>raw'.
         modify (\<lambda>s. s\<lparr>kt_act := (kt_act s)\<lparr>ac_machine := (ctl_machine s)\<lparr>m_ProviderStatus := Some raw'\<rparr>\<rparr>\<rparr>)))"

text \<open>The phase and the error of the status.\<close>

definition status_fields :: "string \<Rightarrow> go_error option \<Rightarrow> machine_meta \<Rightarrow> machine_meta" where
  "status_fields phase failureCause m =
     (let m = m\<lparr>mt_Phase := Some phase, mt_ErrorReason := None, mt_ErrorMessage := None\<rparr>
      in case failureCause of
           None \<Rightarrow> m
         | Some err \<Rightarrow>
             if phase \<noteq> PhaseFailed then m
             else (case as_MachineError err of
                 Some (reason, msg) \<Rightarrow> m\<lparr>mt_ErrorReason := Some reason, mt_ErrorMessage := Some msg\<rparr>
               | None \<Rightarrow> m\<lparr>mt_ErrorMessage := Some (err_Error err)\<rparr>))"

definition updateStatus :: "'e ctl_api \<Rightarrow> conditions \<Rightarrow> string \<Rightarrow> go_error option \<Rightarrow> ('e, unit) ctl_op" where
  "updateStatus K oc phase failureCause =
     bnd (modify_meta setLifecycleHookConditions) (\<lambda>_.
     bnd (gets (\<lambda>s. mt_Conditions (kt_meta s))) (\<lambda>conditions.
     bnd (if phase = PhaseFailed then patchFailedMachineInstanceAnnotation K else ret ()) (\<lambda>_.
     bnd (gets ctl_object) (\<lambda>(m, meta). let base = (m, meta\<lparr>mt_Conditions := oc\<rparr>) in
     bnd (modify_meta (\<lambda>m. m\<lparr>mt_Conditions := conditions\<rparr>)) (\<lambda>_.
     bnd (if phase = PhaseFailed then overrideFailedMachineProviderStatusState K else ret ()) (\<lambda>_.
     bnd (modify_meta (status_fields phase failureCause)) (\<lambda>_.
     send (K_Status phase) (\<lambda>obj. k_PatchStatus K obj base))))))))"

text \<open>\<^verbatim>\<open>updateStatus\<close> with the phase the machine has.\<close>

definition updateStatus_same :: "'e ctl_api \<Rightarrow> conditions \<Rightarrow> go_error option \<Rightarrow> ('e, unit) ctl_op" where
  "updateStatus_same K oc failureCause =
     bnd (gets (\<lambda>s. ptr_Deref (mt_Phase (kt_meta s)) [])) (\<lambda>phase. updateStatus K oc phase failureCause)"

definition ensureUpdatedPausedCondition :: "'e ctl_api \<Rightarrow> machine_condition \<Rightarrow> ('e, bool) ctl_op" where
  "ensureUpdatedPausedCondition K desired =
     bnd (gets (\<lambda>s. (m_Name (ctl_machine s), mt_Conditions (kt_meta s)))) (\<lambda>(name, oc).
     if oc ''Paused'' = Some desired then ret False
     else bnd (modify_meta (set_condition ''Paused'' desired)) (\<lambda>_.
       handle (updateStatus_same K oc None)
         (\<lambda>_. ret True)
         (\<lambda>e. raise (fmt_Errorf_w (''error updating status for machine '' @ name @ '': '') e))))"

definition delayIfRequeueAfterError :: "go_error \<Rightarrow> ('e, ctl_Result) ctl_op" where
  "delayIfRequeueAfterError err = (case as_RequeueAfterError err of
       Some n \<Rightarrow> ret \<lparr>res_Requeue = True, res_RequeueAfter = n\<rparr>
     | None \<Rightarrow> raise err)"

definition isInvalidMachineConfigurationError :: "go_error \<Rightarrow> bool" where
  "isInvalidMachineConfigurationError err \<longleftrightarrow> map_option fst (as_MachineError err) = Some InvalidConfigurationMachineError"

definition deleteNode :: "'e ctl_api \<Rightarrow> string \<Rightarrow> ('e, unit) ctl_op" where
  "deleteNode K name =
     handle (k_call (K_GetNode name) (k_GetNode K name))
       (\<lambda>_. k_call (K_DeleteNode name) (k_DeleteNode K name))
       (\<lambda>e. if apierrors_IsNotFound e then ret () else raise e)"

section \<open>Reconcile\<close>

text \<open>The authority check; the answer says whether to go on.\<close>

definition check_authority :: "'e ctl_api \<Rightarrow> ('e, bool) ctl_op" where
  "check_authority K =
     (if \<not> k_Migration K then ret True
      else bnd (gets (\<lambda>s. (m_Name (ctl_machine s), mt_Authority (kt_meta s)))) (\<lambda>(name, authority).
        let msg = ''The AuthoritativeAPI status is set to '' @ [sq] @ authority @ [sq] in
        if authority = [] then
          bnd (gets ctl_object) (\<lambda>base.
          bnd (modify_meta (\<lambda>m. m\<lparr>mt_Authority := mt_SpecAuthority m\<rparr>)) (\<lambda>_.
          handle (send K_Authority (\<lambda>obj. k_PatchStatus K obj base))
            (\<lambda>_. ret False)
            (\<lambda>e. raise (fmt_Errorf_w (''error patching status to set .status.authoritativeAPI for machine '' @ name @ '': '')
               (fmt_Errorf_w ''error patching machine status: '' e)))))
        else if authority = ''ClusterAPI'' \<or> authority = ''Migrating'' then
          handle (ensureUpdatedPausedCondition K (TrueConditionWithReason ''AuthoritativeAPINotMachineAPI'' msg))
            (\<lambda>_. ret False)
            (\<lambda>e. raise (fmt_Errorf_w ''failed to ensure paused condition: '' e))
        else if authority = ''MachineAPI'' then
          handle (ensureUpdatedPausedCondition K (FalseCondition ''AuthoritativeAPIMachineAPI'' ''Info'' msg))
            (\<lambda>_. ret True)
            (\<lambda>e. raise (fmt_Errorf_w ''failed to ensure paused condition: '' e))
        else ret False))"

text \<open>After a delete that went through, or that failed for a machine that never had an instance.\<close>

definition finish_delete :: "'e ctl_api \<Rightarrow> 'e Actuator_impl \<Rightarrow> ('e, ctl_Result) ctl_op" where
  "finish_delete K I =
     bnd (call_Exists K I) (\<lambda>instanceExists.
     if instanceExists then ret requeue_later
     else bnd (gets (\<lambda>s. m_NodeRef (ctl_machine s))) (\<lambda>ref.
       bnd (case ref of None \<Rightarrow> ret () | Some name \<Rightarrow> deleteNode K name) (\<lambda>_.
       bnd (modify_meta (\<lambda>m. m\<lparr>mt_Finalizers := filter (\<lambda>f. f \<noteq> MachineFinalizer) (mt_Finalizers m)\<rparr>)) (\<lambda>_.
       bnd (send K_RemoveFinalizer (k_Update K)) (\<lambda>_. ret no_requeue)))))"

definition reconcile_deleted :: "'e ctl_api \<Rightarrow> conditions \<Rightarrow> 'e Actuator_impl \<Rightarrow> ('e, ctl_Result) ctl_op" where
  "reconcile_deleted K oc I =
     bnd (updateStatus K oc PhaseDeleting None) (\<lambda>_.
     bnd (gets kt_meta) (\<lambda>m.
     if MachineFinalizer \<notin> set (mt_Finalizers m) then ret no_requeue
     else if map_option mc_Status (mt_Conditions m ''Drained'') \<noteq> Some ConditionTrue then ret no_requeue
     else if mt_PreTerminate m \<noteq> [] then ret no_requeue
     else handle (call_Delete K I)
       (\<lambda>_. finish_delete K I)
       (\<lambda>err. bnd (gets (\<lambda>s. m_Addresses (ctl_machine s))) (\<lambda>addresses.
          if addresses \<noteq> [] \<or> \<not> isInvalidMachineConfigurationError err then delayIfRequeueAfterError err
          else finish_delete K I))))"

definition reconcile_existing :: "'e ctl_api \<Rightarrow> conditions \<Rightarrow> 'e Actuator_impl \<Rightarrow> ('e, ctl_Result) ctl_op" where
  "reconcile_existing K oc I =
     handle (call_Update K I)
       (\<lambda>_. bnd (modify_meta (set_condition ''InstanceExists'' TrueCondition)) (\<lambda>_.
          bnd (gets ctl_machine) (\<lambda>m.
          if \<not> machineIsProvisioned m
          then handle (updateStatus_same K oc None) (\<lambda>_. ret requeue_later) (\<lambda>_. ret requeue_later)
          else if \<not> machineHasNode m
          then bnd (updateStatus K oc PhaseProvisioned None) (\<lambda>_. ret requeue_later)
          else bnd (updateStatus K oc PhaseRunning None) (\<lambda>_. ret no_requeue))))
       (\<lambda>err. handle (updateStatus_same K oc (Some err)) (\<lambda>_. ret requeue_later) (\<lambda>_. ret requeue_later))"

text \<open>A machine that had an instance and lost it, and the creation of the first one.\<close>

definition instance_missing :: "'e ctl_api \<Rightarrow> conditions \<Rightarrow> ('e, ctl_Result) ctl_op" where
  "instance_missing K oc =
     bnd (modify_meta (set_condition ''InstanceExists''
            (FalseCondition ''InstanceMissing'' ''Warning'' ''Instance not found on provider''))) (\<lambda>_.
     bnd (updateStatus K oc PhaseFailed (Some (NewError (''can'' @ [sq] @ ''t find created instance'')))) (\<lambda>_. ret no_requeue))"

definition create_instance :: "'e ctl_api \<Rightarrow> conditions \<Rightarrow> 'e Actuator_impl \<Rightarrow> ('e, ctl_Result) ctl_op" where
  "create_instance K oc I =
     handle (call_Create K I)
       (\<lambda>_. ret requeue_later)
       (\<lambda>err. if isInvalidMachineConfigurationError err
          then bnd (updateStatus K oc PhaseFailed (Some err)) (\<lambda>_. ret no_requeue)
          else delayIfRequeueAfterError err)"

definition reconcile_missing :: "'e ctl_api \<Rightarrow> conditions \<Rightarrow> 'e Actuator_impl \<Rightarrow> ('e, ctl_Result) ctl_op" where
  "reconcile_missing K oc I =
     bnd (gets ctl_machine) (\<lambda>m.
     if machineIsProvisioned m then instance_missing K oc
     else
       bnd (modify_meta (set_condition ''InstanceExists''
              (FalseCondition ''InstanceNotCreated'' ''Warning'' ''Instance has not been created''))) (\<lambda>_.
       bnd (gets (\<lambda>s. ptr_Deref (mt_Phase (kt_meta s)) [])) (\<lambda>phase.
       if phase = [] then bnd (updateStatus K oc PhaseProvisioning None) (\<lambda>_. ret no_requeue)
       else create_instance K oc I)))"

definition reconcile_live :: "'e ctl_api \<Rightarrow> conditions \<Rightarrow> 'e Actuator_impl \<Rightarrow> ('e, ctl_Result) ctl_op" where
  "reconcile_live K oc I =
     bnd (gets kt_meta) (\<lambda>m.
     if machineIsFailed m then ret no_requeue
     else handle (call_Exists K I)
       (\<lambda>instanceExists. if instanceExists then reconcile_existing K oc I else reconcile_missing K oc I)
       (\<lambda>err. bnd (modify_meta (set_condition ''InstanceExists''
            (UnknownCondition ''ErrorCheckingProvider'' (''Failed to check if machine exists: '' @ err_Error err)))) (\<lambda>_.
          handle (updateStatus_same K oc (Some err)) (\<lambda>_. raise err) (\<lambda>_. raise err))))"

text \<open>The finalizer of a live machine; the answer says whether it had to be added.\<close>

definition add_finalizer :: "'e ctl_api \<Rightarrow> ('e, bool) ctl_op" where
  "add_finalizer K =
     bnd (gets kt_meta) (\<lambda>m.
     if mt_Deleted m \<or> MachineFinalizer \<in> set (mt_Finalizers m) then ret False
     else bnd (modify_meta (\<lambda>m. m\<lparr>mt_Finalizers := mt_Finalizers m @ [MachineFinalizer]\<rparr>)) (\<lambda>_.
       bnd (send K_AddFinalizer (k_Update K)) (\<lambda>_. ret True)))"

text \<open>The machine is validated; an invalid one is reported in an event.\<close>

definition check_valid :: "'e ctl_api \<Rightarrow> ('e, unit) ctl_op" where
  "check_valid K =
     bnd (gets ctl_machine) (\<lambda>m.
     if ctl_validateMachine m then ret ()
     else (let err = m_Name m @ '': machine validation failed: '' @ k_invalid K m in
       bnd (ctl_event EventTypeWarning ''FailedValidate'' err) (\<lambda>_.
       raise (NewError err))))"

definition ctl_Reconcile :: "'e ctl_api \<Rightarrow> 'e Actuator_impl \<Rightarrow> string \<Rightarrow> string \<Rightarrow> ('e, ctl_Result) ctl_op" where
  "ctl_Reconcile K I ns name =
     handle (k_call K_Get (k_Get K ns name))
       (\<lambda>obj. let oc = mt_Conditions (snd obj) in
          bnd (set_object obj) (\<lambda>_.
          bnd (check_authority K) (\<lambda>ours.
          if \<not> ours then ret no_requeue
          else bnd (check_valid K) (\<lambda>_.
            bnd (add_finalizer K) (\<lambda>added.
            if added then ret no_requeue
            else bnd (gets (\<lambda>s. mt_Deleted (kt_meta s))) (\<lambda>deleted.
              if deleted then reconcile_deleted K oc I else reconcile_live K oc I))))))
       (\<lambda>e. if apierrors_IsNotFound e then ret no_requeue else raise e)"

text \<open>The provider of this repository as the actuator.\<close>

definition nutanix_actuator :: "'e api \<Rightarrow> 'e Actuator_impl" where
  "nutanix_actuator A = \<lparr>i_Create = Create A, i_Delete = Delete A, i_Update = Update A, i_Exists = Exists A\<rparr>"

section \<open>Frames\<close>

text \<open>
  \<open>quiet P s s'\<close>: the actuator was not called, and only steps satisfying \<open>P\<close> were logged.  It is the
  frame of everything the controller does itself.
\<close>

definition quiet :: "(ctl_step \<Rightarrow> bool) \<Rightarrow> 'e ctlState \<Rightarrow> 'e ctlState \<Rightarrow> bool" where
  "quiet P s s' \<longleftrightarrow> w_calls (kt_act s') = w_calls (kt_act s) \<and> (\<exists>ks. kt_log s' = kt_log s @ ks \<and> list_all P ks)"

interpretation quiet_frame: op_frame "quiet P" for P
proof
  show "quiet P s s" for s :: "'a ctlState" by (simp add: quiet_def)
next
  fix s t u :: "'a ctlState"
  assume "quiet P s t" and "quiet P t u"
  then show "quiet P s u" by (auto simp: quiet_def)
qed

lemma quiet_mono: "quiet P s s' \<Longrightarrow> (\<And>k. P k \<Longrightarrow> Q k) \<Longrightarrow> quiet Q s s'"
  by (auto simp: quiet_def list_all_iff)

lemma k_call_quiet [frame_rules]: "P k \<Longrightarrow> keeps (quiet P) (k_call k f)"
  by (rule keepsI) (auto simp: k_call_def quiet_def split: prod.splits)

lemma set_object_quiet [frame_rules]: "keeps (quiet P) (set_object obj)"
  by (simp add: keeps_def set_object_def modify_def quiet_def)

lemma modify_meta_quiet [frame_rules]: "keeps (quiet P) (modify_meta f)"
  by (simp add: keeps_def modify_meta_def modify_def quiet_def)

lemma modify_quiet [frame_rules]:
  "(\<And>s. w_calls (kt_act (f s)) = w_calls (kt_act s)) \<Longrightarrow> (\<And>s. kt_log (f s) = kt_log s) \<Longrightarrow> keeps (quiet P) (modify f)"
  by (simp add: keeps_def modify_def quiet_def)

lemma ctl_event_quiet [frame_rules]: "keeps (quiet P) (ctl_event type reason note)"
  unfolding ctl_event_def by (intro frame_rules) simp_all

lemma lift_sum_quiet [frame_rules]: "keeps (quiet P) (lift_sum r)"
  by (cases r) (simp_all add: lift_sum_def quiet_frame.frame_raise quiet_frame.frame_ret)

lemma send_quiet [frame_rules]: "P k \<Longrightarrow> keeps (quiet P) (send k f)"
  unfolding send_def by (intro frame_rules)

text \<open>The steps of a status update.\<close>

fun status_step :: "ctl_step \<Rightarrow> bool" where
  "status_step (K_Status ph) = True"
| "status_step K_Annotate = True"
| "status_step K_Authority = True"
| "status_step K_AddFinalizer = True"
| "status_step K_Get = True"
| "status_step _ = False"

lemma updateStatus_quiet [frame_rules]:
  "keeps (quiet status_step) (updateStatus K oc ph c)" "keeps (quiet status_step) (updateStatus_same K oc c)"
  unfolding updateStatus_same_def updateStatus_def patchFailedMachineInstanceAnnotation_def
    overrideFailedMachineProviderStatusState_def Let_def
  by (intro frame_rules; simp)+

lemma prologue_quiet [frame_rules]:
  "keeps (quiet status_step) (check_authority K)" "keeps (quiet status_step) (check_valid K)"
  "keeps (quiet status_step) (add_finalizer K)"
  unfolding check_authority_def ensureUpdatedPausedCondition_def check_valid_def add_finalizer_def Let_def
  by (intro frame_rules; simp)+

lemma delay_quiet [frame_rules]: "keeps (quiet P) (delayIfRequeueAfterError e)"
  unfolding delayIfRequeueAfterError_def by (intro frame_rules)

section \<open>The branches of Reconcile\<close>

text \<open>A sequence whose first part is quiet: it stops there, or goes on in a state quietly reached.\<close>

lemma quiet_bnd:
  assumes "bnd m f t = (r, s')" and "quiet P s t" and "keeps (quiet P) m"
  obtains (stop) "quiet P s s'" | (ok) x u where "m t = (Ok x, u)" "quiet P s u" "f x u = (r, s')"
proof -
  obtain q u where m: "m t = (q, u)" by fastforce
  have "quiet P s u" by (rule quiet_frame.trans [OF assms(2) keepsD [OF assms(3) m]])
  with assms(1) m that show thesis by (cases q) (auto simp: op_defs)
qed

lemma check_valid_Ok: "check_valid K s = (Ok x, t) \<Longrightarrow> t = s \<and> ctl_validateMachine (ctl_machine s)"
  by (auto simp: check_valid_def ctl_event_def op_defs Let_def split: if_splits)

lemma add_finalizer_Ok_False:
  "add_finalizer K s = (Ok False, t) \<Longrightarrow> t = s \<and> (mt_Deleted (kt_meta s) \<or> MachineFinalizer \<in> set (mt_Finalizers (kt_meta s)))"
  by (auto simp: add_finalizer_def op_defs split: if_splits prod.splits outcome.splits)

text \<open>A run that gets past the checks ends in one of the two branches.\<close>

definition in_branch :: "'e ctl_api \<Rightarrow> conditions \<Rightarrow> 'e Actuator_impl \<Rightarrow> 'e ctlState \<Rightarrow> (go_error, ctl_Result) outcome \<Rightarrow> 'e ctlState \<Rightarrow> bool" where
  "in_branch K oc I t r s' \<longleftrightarrow> ctl_validateMachine (ctl_machine t) \<and>
     (if mt_Deleted (kt_meta t) then reconcile_deleted K oc I t = (r, s')
      else MachineFinalizer \<in> set (mt_Finalizers (kt_meta t)) \<and> reconcile_live K oc I t = (r, s'))"

lemma after_authority:
  assumes run: "bnd (check_valid K) (\<lambda>_. bnd (add_finalizer K) (\<lambda>added. if added then ret no_requeue
            else bnd (gets (\<lambda>s. mt_Deleted (kt_meta s))) (\<lambda>deleted.
              if deleted then reconcile_deleted K oc I else reconcile_live K oc I))) t = (r, s')"
    and q: "quiet status_step s t"
  obtains "quiet status_step s s'" | u where "quiet status_step s u" "in_branch K oc I u r s'"
  using run q prologue_quiet(2)
proof (rule quiet_bnd)
  fix x u assume valid: "check_valid K t = (Ok x, u)" and q: "quiet status_step s u"
    and rest: "bnd (add_finalizer K) (\<lambda>added. if added then ret no_requeue
            else bnd (gets (\<lambda>s. mt_Deleted (kt_meta s))) (\<lambda>deleted.
              if deleted then reconcile_deleted K oc I else reconcile_live K oc I)) u = (r, s')"
  show thesis
    using rest q prologue_quiet(3)
  proof (rule quiet_bnd)
    fix added v assume a: "add_finalizer K u = (Ok added, v)" and q: "quiet status_step s v"
      and rest: "(if added then ret no_requeue else bnd (gets (\<lambda>s. mt_Deleted (kt_meta s))) (\<lambda>deleted.
              if deleted then reconcile_deleted K oc I else reconcile_live K oc I)) v = (r, s')"
    show thesis
    proof (cases added)
      case True
      with rest q that(1) show thesis by (simp add: ret_def)
    next
      case False
      with a valid rest have "in_branch K oc I v r s'"
        by (auto simp: in_branch_def gets_def bnd_eq_Ok dest!: check_valid_Ok add_finalizer_Ok_False split: if_splits)
      with q show thesis by (rule that(2))
    qed
  qed (rule that(1))
qed (rule that(1))

lemma ctl_Reconcile_branches:
  assumes run: "ctl_Reconcile K I ns n s = (r, s')"
  obtains (early) "quiet status_step s s'" | (branch) t oc where "quiet status_step s t" "in_branch K oc I t r s'"
proof -
  have get: "keeps (quiet status_step) (k_call K_Get (k_Get K ns n))" by (intro frame_rules) simp
  from run [unfolded ctl_Reconcile_def] show thesis
  proof (cases rule: handle_cases)
    case (error e t)
    with keepsD [OF get error(1)] show thesis by (intro early) (auto simp: ret_def raise_def split: if_splits)
  next
    case panic
    with keepsD [OF get] show thesis by (intro early) blast
  next
    case (ok obj t)
    let ?oc = "mt_Conditions (snd obj)"
    from ok(2) [unfolded Let_def] keepsD [OF get ok(1)] set_object_quiet show thesis
    proof (rule quiet_bnd)
      fix x u assume q: "quiet status_step s u" and rest: "bnd (check_authority K) (\<lambda>ours. if \<not> ours then ret no_requeue
          else bnd (check_valid K) (\<lambda>_. bnd (add_finalizer K) (\<lambda>added. if added then ret no_requeue
            else bnd (gets (\<lambda>s. mt_Deleted (kt_meta s))) (\<lambda>deleted.
              if deleted then reconcile_deleted K ?oc I else reconcile_live K ?oc I)))) u = (r, s')"
      from rest q prologue_quiet(1) show thesis
        by (rule quiet_bnd) (auto simp: ret_def split: if_splits elim: after_authority intro: that)
    qed (rule early)
  qed
qed

section \<open>The steps of a run\<close>

definition steps_rel :: "(ctl_step \<Rightarrow> bool) \<Rightarrow> 'e ctlState \<Rightarrow> 'e ctlState \<Rightarrow> bool" where
  "steps_rel P s s' \<longleftrightarrow> (\<exists>ks. kt_log s' = kt_log s @ ks \<and> list_all P ks)"

interpretation steps_frame: op_frame "steps_rel P" for P
proof
  show "steps_rel P s s" for s :: "'a ctlState" by (simp add: steps_rel_def)
next
  fix s t u :: "'a ctlState"
  assume "steps_rel P s t" and "steps_rel P t u"
  then show "steps_rel P s u" by (auto simp: steps_rel_def)
qed

lemma quiet_steps: "quiet P s s' \<Longrightarrow> (\<And>k. P k \<Longrightarrow> Q k) \<Longrightarrow> steps_rel Q s s'"
  by (auto simp: quiet_def steps_rel_def list_all_iff)

lemma keeps_quiet_steps: "keeps (quiet P) m \<Longrightarrow> (\<And>k. P k \<Longrightarrow> Q k) \<Longrightarrow> keeps (steps_rel Q) m"
  by (erule keeps_mono) (erule quiet_steps)

lemma call_actuator_steps: "(\<And>y. P (step y)) \<Longrightarrow> keeps (steps_rel P) (call_actuator K x step f)"
  by (rule keepsI) (auto simp: call_actuator_def steps_rel_def split: prod.splits)

lemma call_actuator_run:
  "call_actuator K x step f s = (r, t) \<Longrightarrow> f (kt_act s) = (r, kt_act t)"
  by (auto simp: call_actuator_def split: prod.splits)

lemma call_run:
  "call_Create K I s = (r, t) \<Longrightarrow> i_Create I (kt_act s) = (r, kt_act t)"
  "call_Delete K I s = (r', t) \<Longrightarrow> i_Delete I (kt_act s) = (r', kt_act t)"
  "call_Update K I s = (r', t) \<Longrightarrow> i_Update I (kt_act s) = (r', kt_act t)"
  "call_Exists K I s = (q, t) \<Longrightarrow> i_Exists I (kt_act s) = (q, kt_act t)"
  unfolding call_Create_def call_Delete_def call_Update_def call_Exists_def by (erule call_actuator_run)+

abbreviation keeps_finalizer :: "ctl_step \<Rightarrow> bool" where
  "keeps_finalizer k \<equiv> k \<noteq> K_RemoveFinalizer"

lemma calls_keep_finalizer [frame_rules]:
  "keeps (steps_rel keeps_finalizer) (call_Create K I)" "keeps (steps_rel keeps_finalizer) (call_Delete K I)"
  "keeps (steps_rel keeps_finalizer) (call_Update K I)" "keeps (steps_rel keeps_finalizer) (call_Exists K I)"
  unfolding call_Create_def call_Delete_def call_Update_def call_Exists_def by (intro call_actuator_steps; simp)+

lemma status_keeps_finalizer [frame_rules]:
  "keeps (steps_rel keeps_finalizer) (updateStatus K oc ph c)" "keeps (steps_rel keeps_finalizer) (updateStatus_same K oc c)"
  "keeps (steps_rel keeps_finalizer) (modify_meta f)" "keeps (steps_rel keeps_finalizer) (delayIfRequeueAfterError e)"
  by (rule keeps_quiet_steps [OF updateStatus_quiet(1)], auto)
    (rule keeps_quiet_steps [OF updateStatus_quiet(2)], auto intro: keeps_quiet_steps [OF modify_meta_quiet] keeps_quiet_steps [OF delay_quiet])

lemma deleteNode_steps [frame_rules]: "keeps (steps_rel keeps_finalizer) (deleteNode K n)"
  unfolding deleteNode_def
  by (rule keeps_quiet_steps [of keeps_finalizer]) (intro frame_rules; simp)+

lemma reconcile_live_keeps_finalizer: "keeps (steps_rel keeps_finalizer) (reconcile_live K oc I)"
  unfolding reconcile_live_def reconcile_existing_def reconcile_missing_def instance_missing_def create_instance_def
  by (intro frame_rules)

text \<open>The finalizer goes only after the actuator answered that the instance does not exist.\<close>

lemma finish_delete_removes:
  assumes run: "finish_delete K I s = (r, s')" and "\<not> steps_rel keeps_finalizer s s'"
  shows "\<exists>a. i_Exists I (kt_act s) = (Ok False, a)"
proof -
  obtain q t where ex: "call_Exists K I s = (q, t)" by fastforce
  have st: "steps_rel keeps_finalizer s t" by (rule keepsD [OF calls_keep_finalizer(4) ex])
  show ?thesis
  proof (cases "q = Ok False")
    case True
    with call_run(4) [OF ex] show ?thesis by blast
  next
    case False
    with run ex have "s' = t" by (cases q) (auto simp: finish_delete_def bnd_eq_Ok bnd_eq_Err op_defs)
    with st assms(2) show ?thesis by simp
  qed
qed

text \<open>The state in which the actuator's \<open>Delete\<close> is called: drained, without a blocking hook.\<close>

definition may_delete :: "machine_meta \<Rightarrow> bool" where
  "may_delete m \<longleftrightarrow> MachineFinalizer \<in> set (mt_Finalizers m) \<and>
     map_option mc_Status (mt_Conditions m ''Drained'') = Some ConditionTrue \<and> mt_PreTerminate m = []"

text \<open>A delete that counts as done: it succeeded, or there never was an instance.\<close>

definition delete_done :: "(go_error, unit) outcome \<Rightarrow> Machine \<Rightarrow> bool" where
  "delete_done d m \<longleftrightarrow> d = Ok () \<or> (\<exists>e. d = Err e \<and> isInvalidMachineConfigurationError e \<and> m_Addresses m = [])"

lemma reconcile_deleted_removes:
  assumes run: "reconcile_deleted K oc I s = (r, s')" and rem: "\<not> steps_rel keeps_finalizer s s'"
  shows "\<exists>u d a a'. updateStatus K oc PhaseDeleting None s = (Ok (), u) \<and> may_delete (kt_meta u) \<and>
     i_Delete I (kt_act u) = (d, a) \<and> delete_done d (ac_machine a) \<and> i_Exists I a = (Ok False, a')"
proof -
  obtain q u where up: "updateStatus K oc PhaseDeleting None s = (q, u)" by fastforce
  have su: "steps_rel keeps_finalizer s u" by (rule keepsD [OF status_keeps_finalizer(1) up])
  have q: "q = Ok ()"
    using run up su rem by (cases q) (auto simp: reconcile_deleted_def bnd_eq_Err op_defs)
  have may: "may_delete (kt_meta u)"
    using run up q su rem by (auto simp: reconcile_deleted_def may_delete_def gets_def bnd_eq_Ok ret_def split: if_splits)
  obtain d t where d: "call_Delete K I u = (d, t)" by fastforce
  have st: "steps_rel keeps_finalizer s t" by (rule steps_frame.trans [OF su keepsD [OF calls_keep_finalizer(2) d]])
  have stay: "steps_rel keeps_finalizer s s'" if "delayIfRequeueAfterError e t = (r, s')" for e
    using that by (rule steps_frame.trans [OF st keepsD [OF status_keeps_finalizer(4)]])
  have "finish_delete K I t = (r, s') \<and> delete_done d (ctl_machine t)"
    using run up q may d st rem stay
    by (cases d) (auto simp: reconcile_deleted_def may_delete_def delete_done_def gets_def bnd_eq_Ok handle_def ret_def split: if_splits)
  moreover from this have "\<not> steps_rel keeps_finalizer t s'" using st rem by (blast intro: steps_frame.trans)
  ultimately show ?thesis
    using finish_delete_removes call_run(2) [OF d] up q may by blast
qed

end
