(* ===== verification/MachineSet.thy ===== *)
theory MachineSet
  imports Utils
begin

text \<open>
  \<^verbatim>\<open>pkg/actuators/machineset/controller.go\<close>: the controller that annotates a MachineSet with the
  compute capacity of its machines, which the autoscaler reads to scale from zero.  The vCPU
  product is an int32 product, widened afterwards.
\<close>

section \<open>Definitions\<close>

definition cpuKey :: string where "cpuKey = ''machine.openshift.io/vCPU''"
definition memoryKey :: string where "memoryKey = ''machine.openshift.io/memoryMb''"

text \<open>\<^verbatim>\<open>reconcile\<close> writes through the pointer: the new object is returned beside the error.\<close>

definition reconcile :: "'e api \<Rightarrow> MachineSet \<Rightarrow> (go_error, unit) outcome \<times> MachineSet" where
  "reconcile A machineSet = (case NutanixMachineProviderSpecFromRawExtension A (ms_ProviderSpec machineSet) of
       Panic \<Rightarrow> (Panic, machineSet)
     | Err e \<Rightarrow> (Err (InvalidMachineConfiguration (''failed to get providerConfig: '' @ err_Error e)), machineSet)
     | Ok providerConfig \<Rightarrow>
         (Ok (), machineSet\<lparr>ms_Annotations := Some ((map_make (ms_Annotations machineSet))(
            cpuKey \<mapsto> strconv_Itoa (sint (int64_of_int32 (ps_VCPUsPerSocket providerConfig * ps_VCPUSockets providerConfig))),
            memoryKey \<mapsto> strconv_Itoa (GetMibValueOfQuantity (ps_MemorySize providerConfig))))\<rparr>))"

text \<open>A type switch on the error itself, not on its chain.\<close>

definition isInvalidConfigurationError :: "go_error option \<Rightarrow> bool" where
  "isInvalidConfigurationError err = (case err of
       Some (MachineError reason _) \<Rightarrow> reason = InvalidConfigurationMachineError
     | _ \<Rightarrow> False)"

text \<open>A failed reconcile is recorded and remembered while the object is patched anyway.\<close>

definition ms_Reconcile :: "'e api \<Rightarrow> string \<Rightarrow> string \<Rightarrow> (('e, 'z) world_scheme, go_error, unit) op" where
  "ms_Reconcile A ns name =
     handle (call_api (C_Get_MachineSet ns name) (a_Get_MachineSet A ns name))
       (\<lambda>machineSet.
         if ms_Deleted machineSet then ret ()
         else case reconcile A machineSet of
           (Panic, _) \<Rightarrow> panic
         | (Ok _, machineSet') \<Rightarrow>
             handle (call_api (C_Patch_MachineSet machineSet') (a_Patch_MachineSet A machineSet' machineSet))
               (\<lambda>_. ret ())
               (\<lambda>e. raise (fmt_Errorf_w ''failed to patch machineSet: '' e))
         | (Err err, machineSet') \<Rightarrow>
             bnd (record_event \<lparr>ev_Type = EventTypeWarning, ev_Reason = ''ReconcileError'', ev_Message = err_Error err\<rparr>) (\<lambda>_.
             handle (call_api (C_Patch_MachineSet machineSet') (a_Patch_MachineSet A machineSet' machineSet))
               (\<lambda>_. if isInvalidConfigurationError (Some err) then ret () else raise err)
               (\<lambda>e. raise (fmt_Errorf_w ''failed to patch machineSet: '' e))))
       (\<lambda>e. if apierrors_IsNotFound e then ret () else raise e)"

section \<open>Lemmas\<close>

lemma reconcile_cases:
  obtains (ok) sp where "NutanixMachineProviderSpecFromRawExtension A (ms_ProviderSpec m) = Ok sp"
      "fst (reconcile A m) = Ok ()"
    | (err) e where "reconcile A m = (Err (InvalidMachineConfiguration e), m)"
    | (panic) "reconcile A m = (Panic, m)"
  by (cases "NutanixMachineProviderSpecFromRawExtension A (ms_ProviderSpec m)")
    (auto simp: reconcile_def)

lemma reconcile_err_invalid:
  "fst (reconcile A m) = Err e \<Longrightarrow> isInvalidConfigurationError (Some e) \<and> snd (reconcile A m) = m"
  by (auto simp: reconcile_def isInvalidConfigurationError_def InvalidMachineConfiguration_def
      split: outcome.splits)

text \<open>The annotated product wraps like an int32; in range it is the product.\<close>

lemma int32_product:
  fixes a b :: int32
  assumes "- (2 ^ 31) \<le> sint a * sint b" and "sint a * sint b < 2 ^ 31"
  shows "sint (int64_of_int32 (a * b)) = sint a * sint b"
  using assms by (simp add: sint_int64_of_int32 sint_word_ariths signed_take_bit_int_eq_self)

end
