(* ===== verification/Example_Server.thy ===== *)
theory Example_Server
  imports Machine_Controller MachineSet
begin

text \<open>
  A small server to run the model on: Prism Central with a list of VMs, one cluster, one image,
  one subnet and one category per name, and a Kubernetes API with one node, a list of
  cordoned nodes and one stored Machine.  The codecs decode fixed texts.  The witnesses of the properties evaluate the operations on it.
\<close>

lemma is_Ok_run: "is_Ok (fst p) \<Longrightarrow> \<exists>x y. p = (Ok x, y)"
  by (cases p; cases "fst p") auto

lemma run_eq: "p = (fst p, snd p)"
  by simp

lemma run_as: "fst p = r \<Longrightarrow> p = (r, snd p)"
  by auto

lemma create_call_of: "list_ex is_create cs \<Longrightarrow> (\<And>v. C_VMs_Create v \<in> set cs \<Longrightarrow> thesis) \<Longrightarrow> thesis"
  by (auto simp: list_ex_iff elim!: is_create.elims)

lemma delete_call_of: "list_ex is_delete cs \<Longrightarrow> (\<And>u. C_VMs_DeleteAsync u \<in> set cs \<Longrightarrow> thesis) \<Longrightarrow> thesis"
  by (auto simp: list_ex_iff elim!: is_delete.elims)

record server =
  sv_vms :: "Vm list"
  sv_node :: "Node option"
  sv_clock :: nat
  sv_cordoned :: "string list"
  sv_object :: "machine_object option"

definition not_found :: go_error where
  "not_found = NewError ''VM_NOT_FOUND''"

definition node_not_found :: go_error where
  "node_not_found = StatusError ''NotFound'' ''node is gone''"

definition ex_cluster :: Cluster where
  "ex_cluster = \<lparr>cl_ExtId = Some ''c-1'', cl_Name = Some ''pe'', cl_Config = Some [CLUSTERFUNCTIONREF_PRISM_CENTRAL]\<rparr>"

definition ex_spec :: NutanixMachineProviderConfig where
  "ex_spec = empty_spec\<lparr>
     ps_Cluster := \<lparr>ri_Type = NutanixIdentifierName, ri_UUID = None, ri_Name = Some ''pe''\<rparr>,
     ps_Image := \<lparr>ri_Type = NutanixIdentifierName, ri_UUID = None, ri_Name = Some ''rhcos''\<rparr>,
     ps_Subnets := [\<lparr>ri_Type = NutanixIdentifierUUID, ri_UUID = Some ''s-1'', ri_Name = None\<rparr>],
     ps_VCPUsPerSocket := 2, ps_VCPUSockets := 4, ps_MemorySize := 17179869184, ps_SystemDiskSize := 128849018880,
     ps_BootType := NutanixUEFIBoot, ps_CredentialsSecret := Some ''creds'', ps_UserDataSecret := Some ''ud''\<rparr>"

definition find_vm :: "string \<Rightarrow> Vm list \<Rightarrow> Vm option" where
  "find_vm u vms = List.find (\<lambda>v. vm_ExtId v = Some u) vms"

definition start_vm :: "string \<Rightarrow> Vm \<Rightarrow> Vm" where
  "start_vm u v = (if vm_ExtId v = Some u then v\<lparr>vm_PowerState := Some POWERSTATE_ON\<rparr> else v)"

definition ex_api :: "server api" where
  "ex_api = \<lparr>
     a_VMs_Get = (\<lambda>u e. (case find_vm u (sv_vms e) of Some v \<Rightarrow> Inr v | None \<Rightarrow> Inl not_found, e)),
     a_VMs_List = (\<lambda>f e. (Inr (filter (\<lambda>v. vm_ExtId v \<noteq> None \<and> f = name_filter (ptr_Deref (vm_Name v) [])) (sv_vms e)), e)),
     a_VMs_Create = (\<lambda>v e. (Inr (v\<lparr>vm_ExtId := Some ''vm-1''\<rparr>), e\<lparr>sv_vms := sv_vms e @ [v\<lparr>vm_ExtId := Some ''vm-1''\<rparr>]\<rparr>)),
     a_VMs_DeleteAsync = (\<lambda>u e. (Inr ''task-d'', e\<lparr>sv_vms := filter (\<lambda>v. vm_ExtId v \<noteq> Some u) (sv_vms e)\<rparr>)),
     a_VMs_PowerOnVM = (\<lambda>u e. (Inr ''task-p'', e\<lparr>sv_vms := map (start_vm u) (sv_vms e)\<rparr>)),
     a_Wait = (\<lambda>t e. (Inr (), e)),
     a_ListNicsByVmId = (\<lambda>u e. (Inr [], e)),
     a_Images_Get = (\<lambda>u e. (Inr \<lparr>en_ExtId = Some u\<rparr>, e)),
     a_Images_List = (\<lambda>f e. (Inr [\<lparr>en_ExtId = Some ''i-1''\<rparr>], e)),
     a_Clusters_Get = (\<lambda>u e. (Inr ex_cluster, e)),
     a_Clusters_List = (\<lambda>f e. (Inr [ex_cluster], e)),
     a_ListClusterPhysicalGPUs = (\<lambda>u e. (Inr [], e)),
     a_Subnets_Get = (\<lambda>u e. (Inr \<lparr>en_ExtId = Some u\<rparr>, e)),
     a_Subnets_List = (\<lambda>f e. (Inr [\<lparr>en_ExtId = Some ''s-1''\<rparr>], e)),
     a_Categories_List = (\<lambda>f e. (Inr [\<lparr>en_ExtId = Some ''k-1''\<rparr>], e)),
     a_ListProject = (\<lambda>f e. (Inr [], e)),
     a_GetProject = (\<lambda>u e. (Inr \<lparr>pj_Metadata = Some (Some u)\<rparr>, e)),
     a_NewClient = (\<lambda>c e. (Inr (), e)),
     a_NewV3Client = (\<lambda>c e. (Inr (), e)),
     a_Get_Infrastructure = (\<lambda>n e. (Inr \<lparr>in_Nutanix = Some \<lparr>np_Address = ''pc.example'', np_Port = 80, np_FailureDomains = []\<rparr>\<rparr>, e)),
     a_Get_Secret = (\<lambda>ns n e. (Inr [''credentials'' \<mapsto> ''creds'', userDataSecretKey \<mapsto> ''{}''], e)),
     a_Get_Node = (\<lambda>n e. (case sv_node e of Some nd \<Rightarrow> Inr nd | None \<Rightarrow> Inl node_not_found, e)),
     a_Update_Node = (\<lambda>n e. (Inr (), e\<lparr>sv_node := Some n\<rparr>)),
     a_Patch_Machine = (\<lambda>m orig e. (Inr (m\<lparr>m_ResourceVersion := ''2''\<rparr>), e)),
     a_Patch_MachineStatus = (\<lambda>m orig e. (Inr (m\<lparr>m_ResourceVersion := ''3''\<rparr>), e)),
     a_Get_MachineSet = (\<lambda>ns n e. (Inr \<lparr>ms_Name = n, ms_Namespace = ns, ms_Annotations = None, ms_Deleted = False,
        ms_ProviderSpec = Some ''spec''\<rparr>, e)),
     a_Patch_MachineSet = (\<lambda>m orig e. (Inr m, e)),
     a_LookupEnv = (\<lambda>k e. None),
     a_Now = (\<lambda>e. (sv_clock e, e\<lparr>sv_clock := Suc (sv_clock e)\<rparr>)),
     a_Unmarshal_Spec = (\<lambda>b. if b = ''spec'' then Inr (Some ex_spec) else Inl (NewError ''bad json'')),
     a_Marshal_Spec = (\<lambda>sp. Inr ''spec''),
     a_Unmarshal_Status = (\<lambda>b. Inr (empty_status\<lparr>st_VmUUID := if b = [] then None else Some b\<rparr>)),
     a_Marshal_Status = (\<lambda>st. Inr (ptr_Deref (st_VmUUID st) [])),
     a_Unmarshal_Credentials = (\<lambda>b. Inr [\<lparr>cred_Type = BasicAuthCredentialType, cred_Data = Some b\<rparr>]),
     a_Unmarshal_BasicAuth = (\<lambda>b. Inr \<lparr>ba_Username = ''admin'', ba_Password = ''secret''\<rparr>),
     a_Unmarshal_Ignition = (\<lambda>b. Inr \<lparr>ig_Files = [], ig_Rest = b\<rparr>),
     a_Marshal_Ignition = (\<lambda>c. Inr (ig_Rest c)),
     a_dataurl_EncodeBytes = (\<lambda>b. ''data:,'' @ b)\<rparr>"

definition ex_machine :: Machine where
  "ex_machine = \<lparr>m_Name = ''m1'', m_Namespace = ''ns'', m_Labels = Some [MachineClusterIDLabel \<mapsto> ''cl''],
     m_Annotations = None, m_ResourceVersion = ''1'', m_ProviderSpec = Some ''spec'', m_ProviderID = None,
     m_ProviderStatus = None, m_Addresses = [], m_NodeRef = None\<rparr>"

definition ex_world :: "Vm list \<Rightarrow> Node option \<Rightarrow> server world" where
  "ex_world vms node = \<lparr>w_ext = \<lparr>sv_vms = vms, sv_node = node, sv_clock = 0, sv_cordoned = [], sv_object = None\<rparr>, w_calls = [], w_events = [], w_metrics = []\<rparr>"

definition ex_scope :: "Machine \<Rightarrow> NutanixMachineProviderStatus \<Rightarrow> Vm list \<Rightarrow> Node option \<Rightarrow> server machineScope" where
  "ex_scope m st vms node = world.extend (ex_world vms node) (initial_scope m ex_spec st)"

definition ex_vm :: Vm where
  "ex_vm = NewVm\<lparr>vm_ExtId := Some ''vm-1'', vm_Name := Some ''m1'', vm_PowerState := Some POWERSTATE_OFF\<rparr>"

definition ex_node :: Node where
  "ex_node = \<lparr>n_Name = ''n1'', n_Labels = None, n_ProviderID = [], n_VolumesAttached = [''vol'']\<rparr>"

definition ex_start :: "server machineScope" where
  "ex_start = ex_scope ex_machine empty_status [] None"

definition ex_attached :: "server machineScope" where
  "ex_attached = ex_scope (ex_machine\<lparr>m_NodeRef := Some ''n1''\<rparr>) (empty_status\<lparr>st_VmUUID := Some ''vm-1''\<rparr>) [ex_vm] (Some ex_node)"

definition ex_act :: "Machine \<Rightarrow> Vm list \<Rightarrow> Node option \<Rightarrow> server actuatorState" where
  "ex_act m vms node = world.extend (ex_world vms node) (actuatorState.fields m)"

lemma ex_act_machine [simp]: "ac_machine (ex_act m vms node) = m"
  by (simp add: ex_act_def world.extend_def actuatorState.fields_def)

text \<open>A run of the validation on the example, and the scope it leaves.\<close>

definition ex_validated :: "server machineScope" where
  "ex_validated = snd (validateVMConfig ex_api ex_start)"

lemma ex_validate_run: "validateVMConfig ex_api ex_start = (Ok [], ex_validated)"
proof -
  have "fst (validateVMConfig ex_api ex_start) = Ok []" by code_simp
  then show ?thesis by (simp add: ex_validated_def prod_eq_iff)
qed

lemma ex_validated_name: "m_Name (s_machine ex_validated) = ''m1''"
  using keepsD [OF validateVMConfig_rel ex_validate_run]
  by (simp add: scope_rel_def ex_start_def ex_scope_def ex_machine_def)

lemma ex_build_run: "\<exists>vm s'. buildV4VMFromScope ex_api [] ex_validated = (Ok vm, s')"
proof (rule is_Ok_run)
  show "is_Ok (fst (buildV4VMFromScope ex_api [] ex_validated))" by code_simp
qed

text \<open>A run of the creation.\<close>

definition ex_created :: "server machineScope" where
  "ex_created = snd (create ex_api ex_start)"

lemma ex_create_run: "create ex_api ex_start = (Ok (), ex_created)"
proof -
  have "fst (create ex_api ex_start) = Ok ()" by code_simp
  then show ?thesis unfolding ex_created_def by (rule run_as)
qed

lemma ex_create_sends: "\<exists>v. C_VMs_Create v \<in> set (new_calls ex_start ex_created)"
proof -
  have "list_ex is_create (new_calls ex_start ex_created)" by code_simp
  then show ?thesis by (rule create_call_of) blast
qed

definition ex_machineset :: MachineSet where
  "ex_machineset = \<lparr>ms_Name = ''ms'', ms_Namespace = ''ns'', ms_Annotations = None, ms_Deleted = False,
     ms_ProviderSpec = Some ''spec''\<rparr>"

lemma ex_machineset_spec: "NutanixMachineProviderSpecFromRawExtension ex_api (ms_ProviderSpec ex_machineset) = Ok ex_spec"
  by (simp add: NutanixMachineProviderSpecFromRawExtension_def ex_machineset_def ex_api_def)

lemma ex_spec_sizes:
  "sint (ps_VCPUsPerSocket ex_spec) = 2" "sint (ps_VCPUSockets ex_spec) = 4"
  by (simp_all add: ex_spec_def)

text \<open>The same server with a provider spec of 65536 sockets of 65536 vCPUs.\<close>

definition ex_spec_huge :: NutanixMachineProviderConfig where
  "ex_spec_huge = ex_spec\<lparr>ps_VCPUsPerSocket := 65536, ps_VCPUSockets := 65536\<rparr>"

definition ex_api_huge :: "server api" where
  "ex_api_huge = ex_api\<lparr>a_Unmarshal_Spec := \<lambda>b. Inr (Some ex_spec_huge)\<rparr>"

lemma ex_machineset_huge:
  "NutanixMachineProviderSpecFromRawExtension ex_api_huge (ms_ProviderSpec ex_machineset) = Ok ex_spec_huge"
  by (simp add: NutanixMachineProviderSpecFromRawExtension_def ex_machineset_def ex_api_huge_def)

lemma ex_spec_huge_sizes:
  "signed_take_bit 31 (sint (ps_VCPUsPerSocket ex_spec_huge) * sint (ps_VCPUSockets ex_spec_huge)) = 0"
  by (simp add: ex_spec_huge_def)

end
