(* ===== verification/Data_Properties.thy ===== *)
theory Data_Properties
  imports Example_Server
begin

text \<open>
  Properties of the pure parts: addresses, conditions, credentials, GPUs, annotations.  Each
  property with a hypothesis is followed by a witness that applies it on a concrete input.
\<close>

section \<open>Addresses\<close>

text \<open>
  \<open>isLinkLocal\<close> holds of the dotted quad of four bytes exactly when it lies in
  169.254.0.0/16.
\<close>

theorem isLinkLocal_iff:
  assumes "a < 256" "b < 256" "c < 256" "d < 256"
  shows "isLinkLocal (dotted a b c d) \<longleftrightarrow> a = 169 \<and> b = 254"
  using assms by (rule isLinkLocal_dotted)

theorem isLinkLocal_iff_witness:
  "isLinkLocal (dotted 169 254 3 4) \<and> \<not> isLinkLocal (dotted 10 254 3 4)"
  using isLinkLocal_iff [of 169 254 3 4] isLinkLocal_iff [of 10 254 3 4] by simp

text \<open>
  C34: \<open>buildNodeAddresses\<close> returns for every VM and every answer of the NIC listing.  The IP
  addresses it returns are the addresses of some list of NICs, sorted, and none of them is
  empty or link-local.
\<close>

theorem buildNodeAddresses_sorted_usable:
  "\<exists>as nics. fst (buildNodeAddresses A vm s) = Ok as \<and> as = node_addresses (getIPsFromNics nics) (vm_Name vm) \<and>
     ip_addresses as = sort (getIPsFromNics nics) \<and> sorted (ip_addresses as) \<and>
     list_all (\<lambda>ip. ip \<noteq> [] \<and> \<not> isLinkLocal ip) (ip_addresses as)"
proof -
  obtain nics t where run: "buildNodeAddresses A vm s = (Ok (node_addresses (getIPsFromNics nics) (vm_Name vm)), t)"
    by (rule buildNodeAddresses_Ok [of A vm s])
  have "list_all (\<lambda>ip. ip \<noteq> [] \<and> \<not> isLinkLocal ip) (sort (getIPsFromNics nics))"
    using getIPsFromNics_usable by (auto simp: list_all_iff usable_ip_def)
  with run show ?thesis
    by (intro exI [of _ "node_addresses (getIPsFromNics nics) (vm_Name vm)"] exI [of _ nics]) (simp add: node_addresses_ips)
qed

section \<open>Conditions\<close>


text \<open>
  The merge loop, whose result is thrown away, does what its comment says: a condition of a
  type not seen before is appended, with a transition time; one of a known type is updated in
  place, keeps its position, and its transition time moves only if its status changes.
\<close>

theorem providerConditions_loop_step:
  "\<exists>cur'. fst (providerConditions_loop A [c] cur s) = Ok cur' \<and>
     (case findProviderCondition cur (co_Type c) of
        None \<Rightarrow> \<exists>t. cur' = cur @ [c\<lparr>co_LastTransitionTime := Some t\<rparr>]
      | Some i \<Rightarrow> \<exists>d. cur' = cur[i := d] \<and> i < length cur \<and> co_Type d = co_Type c \<and> \<not> shouldUpdateCondition c d \<and>
          (\<exists>t. co_LastTransitionTime d =
             (if co_Status (cur ! i) = co_Status c then co_LastTransitionTime (cur ! i) else Some t)))"
proof (cases "findProviderCondition cur (co_Type c)")
  case None
  obtain t s' where "metav1_Now A s = (Ok t, s')" using metav1_Now_Ok by blast
  with None show ?thesis by (auto simp: bnd_eq_Ok ret_def)
next
  case (Some i)
  obtain d s' t where "updateExistingCondition A c (cur ! i) s = (Ok d, s')" "co_Type d = co_Type (cur ! i)"
    "\<not> shouldUpdateCondition c d"
    "co_LastTransitionTime d = (if co_Status (cur ! i) = co_Status c then co_LastTransitionTime (cur ! i) else Some t)"
    using updateExistingCondition_Ok by blast
  with Some findProviderCondition_Some [OF Some] show ?thesis by (auto simp: bnd_eq_Ok ret_def)
qed

section \<open>Credentials\<close>

text \<open>
  \<open>setClientCredentials\<close> succeeds exactly when the first credential is a basic-auth entry
  whose data decodes to a user name and a password that are not empty; it sets these two fields
  and no other.
\<close>

theorem setClientCredentials_iff:
  "setClientCredentials A d creds = Ok creds' \<longleftrightarrow>
     (\<exists>cred rest raw ba. a_Unmarshal_Credentials A d = Inr (cred # rest) \<and> cred_Type cred = BasicAuthCredentialType \<and>
        cred_Data cred = Some raw \<and> a_Unmarshal_BasicAuth A raw = Inr ba \<and> ba_Username ba \<noteq> [] \<and> ba_Password ba \<noteq> [] \<and>
        creds' = creds\<lparr>cr_Username := ba_Username ba, cr_Password := ba_Password ba\<rparr>)"
  by (auto simp: setClientCredentials_def split: sum.splits list.splits option.splits if_splits)

text \<open>
  Resolving the credentials of client options is idempotent, also across a change of the
  environment: the URL a first client resolved is the one every later client uses.
\<close>

theorem resolveCredentials_twice:
  "resolveCredentials A e' (resolveCredentials A e options) = resolveCredentials A e options \<and>
     (\<exists>c. opt_Credentials (resolveCredentials A e options) = Some c \<and> cr_URL c \<noteq> [])"
  by (intro conjI resolveCredentials_idem resolveCredentials_set)

section \<open>GPUs\<close>

text \<open>
  The GPU chosen for a request is the first device of the list that matches it, and there
  is an error exactly when none does.
\<close>

theorem getGPUFromListConverged_first:
  "getGPUFromListConverged gpu ds = Ok d \<longleftrightarrow>
     (\<exists>pre post. ds = pre @ d # post \<and> gpu_matches gpu d \<and> list_all (\<lambda>x. \<not> gpu_matches gpu x) pre)"
  by (rule getGPUFromListConverged_split)

section \<open>Machine sets\<close>

text \<open>
  C36: \<open>reconcile\<close> of a machine set whose spec decodes writes both capacity annotations and
  nothing else; the annotated values read back as the vCPU product, provided it fits in 32 bits,
  and the memory in MiB.
\<close>

theorem reconcile_annotations:
  assumes "NutanixMachineProviderSpecFromRawExtension A (ms_ProviderSpec m) = Ok sp"
    and "- (2 ^ 31) \<le> sint (ps_VCPUsPerSocket sp) * sint (ps_VCPUSockets sp)"
    and "sint (ps_VCPUsPerSocket sp) * sint (ps_VCPUSockets sp) < 2 ^ 31"
  shows "fst (reconcile A m) = Ok () \<and>
     snd (reconcile A m) = m\<lparr>ms_Annotations := ms_Annotations (snd (reconcile A m))\<rparr> \<and>
     strconv_Atoi (map_get (ms_Annotations (snd (reconcile A m))) cpuKey) =
       Some (sint (ps_VCPUsPerSocket sp) * sint (ps_VCPUSockets sp)) \<and>
     strconv_Atoi (map_get (ms_Annotations (snd (reconcile A m))) memoryKey) =
       Some (GetMibValueOfQuantity (ps_MemorySize sp)) \<and>
     (k = cpuKey \<or> k = memoryKey \<or>
        map_lookup (ms_Annotations (snd (reconcile A m))) k = map_lookup (ms_Annotations m) k)"
  using assms
  by (auto simp: reconcile_def map_get_def strconv_Atoi_Itoa int32_product cpuKey_def memoryKey_def)

theorem reconcile_annotations_witness:
  "strconv_Atoi (map_get (ms_Annotations (snd (reconcile ex_api ex_machineset))) cpuKey) = Some 8"
  using reconcile_annotations [of ex_api ex_machineset ex_spec cpuKey] ex_machineset_spec
  by (simp add: ex_spec_sizes)

text \<open>
  C37: the vCPU annotation of a machine set wraps: the product is taken in 32 bits before it is
  widened, so it is the true product modulo 2^32, read as a signed number.
\<close>

theorem reconcile_cpu_wraps:
  assumes "NutanixMachineProviderSpecFromRawExtension A (ms_ProviderSpec m) = Ok sp"
  shows "strconv_Atoi (map_get (ms_Annotations (snd (reconcile A m))) cpuKey) =
    Some (signed_take_bit 31 (sint (ps_VCPUsPerSocket sp) * sint (ps_VCPUSockets sp)))"
  using assms
  by (simp add: reconcile_def map_get_def strconv_Atoi_Itoa cpuKey_def memoryKey_def sint_int64_of_int32 sint_word_ariths)

theorem reconcile_cpu_wraps_witness:
  "strconv_Atoi (map_get (ms_Annotations (snd (reconcile ex_api_huge ex_machineset))) cpuKey) = Some 0"
  using reconcile_cpu_wraps [of ex_api_huge ex_machineset ex_spec_huge] by (simp add: ex_machineset_huge ex_spec_huge_sizes)

text \<open>
  The machine-set controller never returns an error for a bad provider spec, but records
  one warning; it patches the object in that case too.
\<close>

theorem ms_Reconcile_invalid_spec:
  assumes "a_Get_MachineSet A ns n (w_ext s) = (Inr m, e1)" and "\<not> ms_Deleted m"
    and "NutanixMachineProviderSpecFromRawExtension A (ms_ProviderSpec m) = Err err"
    and "a_Patch_MachineSet A m m e1 = (Inr m', e2)"
  shows "\<exists>s'. ms_Reconcile A ns n s = (Ok (), s') \<and>
     w_calls s' = w_calls s @ [C_Get_MachineSet ns n, C_Patch_MachineSet m] \<and>
     w_events s' = w_events s @ [\<lparr>ev_Type = EventTypeWarning, ev_Reason = ''ReconcileError'',
        ev_Message = ''failed to get providerConfig: '' @ err_Error err\<rparr>]"
  using assms
  by (simp add: ms_Reconcile_def reconcile_def call_api_def record_event_def isInvalidConfigurationError_def
      InvalidMachineConfiguration_def op_defs)

theorem ms_Reconcile_invalid_spec_witness:
  "\<exists>s'. ms_Reconcile (ex_api\<lparr>a_Unmarshal_Spec := \<lambda>b. Inl (NewError ''bad'')\<rparr>) ''ns'' ''ms'' (ex_world [] None) = (Ok (), s') \<and>
     w_calls s' = [C_Get_MachineSet ''ns'' ''ms'', C_Patch_MachineSet ex_machineset]"
  using ms_Reconcile_invalid_spec [of "ex_api\<lparr>a_Unmarshal_Spec := \<lambda>b. Inl (NewError ''bad'')\<rparr>" "''ns''" "''ms''"
      "ex_world [] None" ex_machineset "w_ext (ex_world [] None)" "fmt_Errorf_w ''error unmarshalling providerSpec: '' (NewError ''bad'')"
      ex_machineset "w_ext (ex_world [] None)"]
  by (auto simp: ex_api_def ex_machineset_def NutanixMachineProviderSpecFromRawExtension_def ex_world_def)

end
