(* ===== verification/Spec_Properties.thy ===== *)
theory Spec_Properties
  imports Example_Server
begin

text \<open>
  Properties of lookups, of the validation of a provider spec, of the VM built from it, and of
  the machine scope.  Each property with a hypothesis is followed by a witness on the example
  server.
\<close>

section \<open>Lookups\<close>

text \<open>
  \<open>findVMByName\<close> succeeds exactly when the listing for the name has one entry, that entry has
  an id, and the VM with this id can be read; the VM returned is the one read.
\<close>

theorem findVMByName_iff:
  "findVMByName A n s = (Ok vm, s') \<longleftrightarrow>
     (\<exists>v u s1. call_api (C_VMs_List (name_filter n)) (a_VMs_List A (name_filter n)) s = (Ok [v], s1) \<and>
        vm_ExtId v = Some u \<and> findVMByUUID A u s1 = (Ok vm, s'))"
  by (rule findVMByName_Ok_iff)

text \<open>
  Several VMs of one name are never taken for a missing VM: with a name the API server
  admits, the error of \<open>findVMByName\<close> is not a not-found error, while an empty listing gives one.
\<close>

theorem findVMByName_ambiguous:
  assumes "dns_name n" and "call_api (C_VMs_List (name_filter n)) (a_VMs_List A (name_filter n)) s = (Ok vms, s')"
    and "length vms \<noteq> 1"
  shows "\<exists>e. findVMByName A n s = (Err e, s') \<and> (isNotFoundError (Some e) \<longleftrightarrow> vms = [])"
proof (cases "vms = []")
  case True
  with assms(2) findVMByName_none show ?thesis by blast
next
  case False
  with assms(3) have "length vms \<ge> 2" by (cases vms; cases "tl vms") auto
  with findVMByName_several [OF assms(2)] several_vms_message [OF assms(1)] False show ?thesis by blast
qed

theorem findVMByName_ambiguous_witness:
  "\<exists>e s'. findVMByName ex_api ''m1'' (ex_world [ex_vm, ex_vm] None) = (Err e, s') \<and> \<not> isNotFoundError (Some e)"
  using findVMByName_ambiguous [of "''m1''" ex_api "ex_world [ex_vm, ex_vm] None" "[ex_vm, ex_vm]"
      "(ex_world [ex_vm, ex_vm] None)\<lparr>w_calls := [C_VMs_List (name_filter ''m1'')]\<rparr>"]
  by (auto simp: dns_name_def is_digit_def call_api_def ex_world_def ex_api_def ex_vm_def)

text \<open>
  C31: \<open>findClusterUuidByName\<close> returns \<open>u\<close> exactly when, among the listed clusters with that name,
  the last has id \<open>u\<close> and no earlier one has an id.  In particular two clusters of the name that
  both have ids are always an error.
\<close>

theorem findClusterUuidByName_iff:
  "findClusterUuidByName A n s = (Ok u, s') \<longleftrightarrow>
     (\<exists>cs. call_api (C_Clusters_List (Some (name_filter n))) (a_Clusters_List A (Some (name_filter n))) s = (Ok cs, s') \<and>
        (let ms = filter (\<lambda>c. cl_Name c = Some n) cs
         in ms \<noteq> [] \<and> cl_ExtId (last ms) = Some u \<and> list_all (\<lambda>d. cl_ExtId d = None) (butlast ms)))"
  unfolding findClusterUuidByName_Ok_iff cluster_match_Ok_iff list_all_iff ..

text \<open>
  C32: \<open>getPrismCentralCluster\<close> picks the first listed cluster that has an id and the Prism Central
  function, and otherwise a sole listed cluster that has an id; in all other cases it fails.
\<close>

theorem getPrismCentralCluster_spec:
  "getPrismCentralCluster A s = (Ok c, s') \<longleftrightarrow>
     (\<exists>cs. call_api (C_Clusters_List None) (a_Clusters_List A None) s = (Ok cs, s') \<and> prism_central_of cs = Some c)"
proof -
  obtain r t where l: "call_api (C_Clusters_List None) (a_Clusters_List A None) s = (r, t)" by fastforce
  show ?thesis
  proof (cases r)
    case (Ok cs)
    obtain f fb where p: "pc_cluster_loop (length cs) None cs = (f, fb)" by fastforce
    from l Ok p pc_cluster_loop_spec [OF p] show ?thesis
      by (auto simp: getPrismCentralCluster_def bnd_eq_Ok ret_def raise_def split: option.splits)
  qed (use l in \<open>auto simp: getPrismCentralCluster_def bnd_eq_Err call_api_not_Panic\<close>)
qed

text \<open>
  The image lookup answers with the id of the image exactly when the listing has one entry,
  and fails on none and on several.
\<close>

theorem findImageUuidByName_iff:
  "findImageUuidByName A n s = (Ok u, s') \<longleftrightarrow>
     (\<exists>x. call_api (C_Images_List (name_filter n)) (a_Images_List A (name_filter n)) s = (Ok [x], s') \<and> u = en_ExtId x)"
  using image_lookup.find_Ok_iff [of A n s u s'] by (simp add: list_images_def)

section \<open>Validation\<close>



text \<open>
  Validation only reads and touches only the validated copy: the provider spec, the machine
  and the status are as before, whatever the outcome, and it never ends in a Go error.
\<close>

theorem validateVMConfig_frame:
  "scope_rel is_read s (snd (validateVMConfig A s)) \<and> (\<nexists>e. fst (validateVMConfig A s) = Err e)"
proof -
  obtain r s' where run: "validateVMConfig A s = (r, s')" by fastforce
  with keepsD [OF validateVMConfig_rel run] validateVMConfig_no_Err show ?thesis
    by (auto dest: validateVMConfig_no_Err [THEN notE, rotated])
qed

text \<open>
  A cluster named in the spec is accepted exactly when its name is not empty and the lookup
  finds it, and its uuid is then written into the validated copy.
\<close>

theorem validateClusterConfig_named:
  assumes "s_providerSpecValidated s = Some sp" and "ri_Type (ps_Cluster sp) = NutanixIdentifierName"
    and "ri_Name (ps_Cluster sp) = Some n" and "n \<noteq> []"
    and "findClusterUuidByName A n s = (q, t)"
  shows "case q of
      Ok u \<Rightarrow> validateClusterConfig A p s =
        (Ok None, t\<lparr>s_providerSpecValidated := Some (sp\<lparr>ps_Cluster := uuid_ref (Some u) (ps_Cluster sp)\<rparr>)\<rparr>)
    | _ \<Rightarrow> \<exists>e. validateClusterConfig A p s = (Ok (Some e), t)"
proof (cases q)
  case (Ok u)
  with assms have "find_cluster A n s = (Ok (Some u), t)" by (simp add: find_cluster_def bnd_eq_Ok ret_def)
  with Ok cluster_check.name_found [OF assms(1,2)] assms(3,4) show ?thesis by simp
next
  case (Err e)
  with assms have "find_cluster A n s = (Err e, t)" by (simp add: find_cluster_def bnd_eq_Err)
  with Err cluster_check.name_lost [OF assms(1,2)] assms(3,4) show ?thesis by fastforce
next
  case Panic
  with assms(5) show ?thesis
    by (auto simp: findClusterUuidByName_def op_defs call_api_not_Panic split: prod.splits outcome.splits option.splits)
qed

theorem validateClusterConfig_named_witness:
  "\<exists>t. validateClusterConfig ex_api [] (ex_start\<lparr>s_providerSpecValidated := Some ex_spec\<rparr>) =
     (Ok None, t\<lparr>s_providerSpecValidated := Some (ex_spec\<lparr>ps_Cluster := uuid_ref (Some ''c-1'') (ps_Cluster ex_spec)\<rparr>)\<rparr>)"
proof -
  let ?s = "ex_start\<lparr>s_providerSpecValidated := Some ex_spec\<rparr>"
  have f: "findClusterUuidByName ex_api ''pe'' ?s =
      (Ok ''c-1'', snd (findClusterUuidByName ex_api ''pe'' ?s))"
    by (simp add: findClusterUuidByName_def call_api_def op_defs ex_api_def ex_cluster_def)
  show ?thesis
    using validateClusterConfig_named [OF _ _ _ _ f, of ex_spec "[]"] by (auto simp: ex_spec_def)
qed

section \<open>The VM that is built\<close>

text \<open>
  C12: the VM entity \<open>buildV4VMFromScope\<close> builds from a validated spec is the one the specification
  \<open>vm_of_spec\<close> gives: NICs, disks and CD-ROMs are maps and filters of the spec's lists, each GPU is
  a matching device, and the categories are those found for the configured pairs and the
  ownership pair of the cluster.
\<close>

theorem buildV4VMFromScope_refines:
  assumes "buildV4VMFromScope A ud s = (Ok vm, s')" and "s_providerSpecValidated s = Some sp"
  shows "\<exists>gpus es. vm = vm_of_spec (m_Name (s_machine s)) sp ud gpus (List.map_filter en_ExtId es) \<and>
     gpus_match (ps_GPUs sp) gpus \<and> list_all2 (category_found A) (wanted_categories (s_machine s) sp) es"
  using assms by (rule buildV4VMFromScope_Ok) blast

theorem buildV4VMFromScope_refines_witness:
  "\<exists>vm sp. fst (buildV4VMFromScope ex_api [] ex_validated) = Ok vm \<and> s_providerSpecValidated ex_validated = Some sp \<and>
     vm_BootConfig vm = boot_of (ps_BootType sp) \<and> vm_Cluster vm = Some (ri_UUID (ps_Cluster sp))"
proof -
  obtain sp where sp: "s_providerSpecValidated ex_validated = Some sp"
    by (rule validateVMConfig_effect [OF ex_validate_run])
  obtain vm s' where run: "buildV4VMFromScope ex_api [] ex_validated = (Ok vm, s')"
    using ex_build_run by auto
  from buildV4VMFromScope_refines [OF run sp] run sp show ?thesis by (auto simp: vm_of_spec_def)
qed

text \<open>
  No device is lost: the VM has one system disk plus one disk or CD-ROM per data disk, and
  one NIC per subnet that has a uuid.
\<close>

theorem base_vm_devices:
  "length (vm_Disks (base_vm n sp c i)) + length (vm_CdRoms (base_vm n sp c i)) = Suc (length (ps_DataDisks sp)) \<and>
     length (vm_Nics (base_vm n sp c i)) = length (filter (\<lambda>r. ri_UUID r \<noteq> None) (ps_Subnets sp))"
  using sum_length_filter_compl [of is_cdrom "ps_DataDisks sp"]
  by (simp add: base_vm_def Let_def data_disks_loop_eq set_boot_type_eq nics_loop_eq NewVm_def List.map_filter_def)

text \<open>
  C33: what the guest reads back is what was meant: the cloud-init user data of a VM built with
  encoded user data decodes to that user data, and the metadata to the JSON with the host name.
\<close>

theorem user_data_roundtrip:
  assumes "buildV4VMFromScope A (base64_EncodeToString ud) s = (Ok vm, s')" and "s_providerSpecValidated s = Some sp"
  shows "\<exists>ci. vm_GuestCustomization vm = Some ci \<and> base64_DecodeString (ci_Userdata ci) = Some ud \<and>
     base64_DecodeString (ci_Metadata ci) = Some (metadata_json (m_Name (s_machine s)))"
  using assms by (rule buildV4VMFromScope_Ok) (simp add: vm_of_spec_def cloud_init_def base64_Decode_Encode)

theorem user_data_roundtrip_witness:
  "\<exists>vm ci. fst (buildV4VMFromScope ex_api [] ex_validated) = Ok vm \<and> vm_GuestCustomization vm = Some ci \<and>
     base64_DecodeString (ci_Metadata ci) = Some (metadata_json ''m1'')"
proof -
  obtain sp where sp: "s_providerSpecValidated ex_validated = Some sp"
    by (rule validateVMConfig_effect [OF ex_validate_run])
  obtain vm s' where run: "buildV4VMFromScope ex_api (base64_EncodeToString []) ex_validated = (Ok vm, s')"
    using ex_build_run by auto
  from user_data_roundtrip [OF run sp] run ex_validated_name show ?thesis by auto
qed

section \<open>The machine scope\<close>

text \<open>
  C22: a scope that is handed out is good: it holds the machine and its decoded spec and status,
  the failure domain the spec names (and none if it names none), a client made from complete
  credentials with a port between 1 and 65535, and no validated spec; making it only read.
\<close>

theorem newMachineScope_good:
  assumes "newMachineScope A \<lparr>p_Context = ctx, p_machine = Some m\<rparr> w = (Ok x, w')"
  shows "scope_ok A m (world.extend w' x) \<and> list_all is_read (new_calls w w')"
  using newMachineScope_Ok [OF assms] by (simp add: log_rel_new_calls)

theorem newMachineScope_good_witness:
  "\<exists>x w'. newMachineScope ex_api \<lparr>p_Context = True, p_machine = Some ex_machine\<rparr> (ex_world [] None) = (Ok x, w') \<and>
     scope_ok ex_api ex_machine (world.extend w' x)"
proof -
  have "is_Ok (fst (newMachineScope ex_api \<lparr>p_Context = True, p_machine = Some ex_machine\<rparr> (ex_world [] None)))"
    by code_simp
  from is_Ok_run [OF this] obtain x w' where
    run: "newMachineScope ex_api \<lparr>p_Context = True, p_machine = Some ex_machine\<rparr> (ex_world [] None) = (Ok x, w')" by blast
  from newMachineScope_good [OF run] run show ?thesis by blast
qed

text \<open>
  A provider spec that does not decode makes no call at all and is reported as an invalid
  configuration, which the machine controller does not retry.
\<close>

theorem newMachineScope_bad_spec:
  assumes "m_ProviderSpec m = Some raw" and "a_Unmarshal_Spec A raw = Inl e"
  shows "\<exists>err. newMachineScope A \<lparr>p_Context = True, p_machine = Some m\<rparr> w = (Err err, w) \<and>
     as_MachineError err = Some (InvalidConfigurationMachineError, err_Error err)"
  using assms
  by (simp add: newMachineScope_def NutanixMachineProviderSpecFromRawExtension_def lift_out_def handle_def raise_def
      InvalidMachineConfiguration_def)

theorem newMachineScope_bad_spec_witness:
  "\<exists>err. newMachineScope ex_api \<lparr>p_Context = True, p_machine = Some (ex_machine\<lparr>m_ProviderSpec := Some ''{''\<rparr>)\<rparr> (ex_world [] None) =
     (Err err, ex_world [] None)"
  using newMachineScope_bad_spec [of "ex_machine\<lparr>m_ProviderSpec := Some ''{''\<rparr>" "''{''" ex_api "NewError ''bad json''" "ex_world [] None"]
  by (auto simp: ex_api_def)



text \<open>
  The user data of a machine that is not a Windows machine is its ignition config with the
  file /etc/hostname appended, whose content is the machine name; the other files are kept.
\<close>

theorem getUserData_hostname:
  assumes "getUserData A s = (Ok ud, s')" and "ps_UserDataSecret (s_providerSpec s) = Some n"
    and "map_get (m_Labels (s_machine s)) os_id_label \<noteq> ''Windows''"
  shows "\<exists>d cfg. a_Unmarshal_Ignition A d = Inr cfg \<and>
     a_Marshal_Ignition A (cfg\<lparr>ig_Files := ig_Files cfg @
       [\<lparr>if_Path = ''/etc/hostname'', if_Overwrite = Some True, if_Mode = Some 420,
         if_Source = Some (a_dataurl_EncodeBytes A (m_Name (s_machine s)))\<rparr>]\<rparr>) = Inr ud"
  using assms by (rule getUserData_Ok) (auto simp: hostname_file_def)

theorem getUserData_hostname_witness:
  "\<exists>d cfg. a_Unmarshal_Ignition ex_api d = Inr cfg \<and>
     a_Marshal_Ignition ex_api (cfg\<lparr>ig_Files := ig_Files cfg @
       [\<lparr>if_Path = ''/etc/hostname'', if_Overwrite = Some True, if_Mode = Some 420, if_Source = Some ''data:,m1''\<rparr>]\<rparr>) = Inr ''{}''"
proof -
  have run: "getUserData ex_api ex_start = (Ok ''{}'', snd (getUserData ex_api ex_start))"
    by (simp add: getUserData_def call_api_def op_defs ex_api_def ex_start_def ex_scope_def ex_spec_def ex_machine_def
        map_get_def os_id_label_def MachineClusterIDLabel_def hostname_file_def)
  from getUserData_hostname [OF run, of "''ud''"] show ?thesis
    by (simp add: ex_start_def ex_scope_def ex_spec_def ex_machine_def map_get_def os_id_label_def MachineClusterIDLabel_def
        ex_api_def)
qed

end
