(* ===== verification/Actuator_Contract.thy ===== *)
theory Actuator_Contract
  imports Machine_Controller
begin

text \<open>
  What the machine controller relies on of an actuator, as locales over its four methods, what a
  reconcile then does (it creates at most one instance, and deletes one only for a machine that may
  be deleted), and that the provider of this repository meets both contracts.
\<close>

section \<open>The contract of an actuator\<close>

text \<open>\<open>sends_no P s s'\<close>: no call satisfying \<open>P\<close> was made.\<close>

definition sends_no :: "(call \<Rightarrow> bool) \<Rightarrow> 'e ctlState \<Rightarrow> 'e ctlState \<Rightarrow> bool" where
  "sends_no P s s' \<longleftrightarrow> log_rel (\<lambda>c. \<not> P c) (kt_act s) (kt_act s')"

interpretation call_free: op_frame "sends_no P" for P
proof
  show "sends_no P s s" for s :: "'a ctlState" by (simp add: sends_no_def log_frame.refl)
next
  fix s t u :: "'a ctlState"
  assume "sends_no P s t" and "sends_no P t u"
  then show "sends_no P s u" unfolding sends_no_def by (rule log_frame.trans)
qed

lemma sends_noD: "sends_no P s s' \<Longrightarrow> c \<in> set (new_calls (kt_act s) (kt_act s')) \<Longrightarrow> \<not> P c"
  by (auto simp: sends_no_def log_rel_def list_all_iff)

lemma quiet_sends_no: "quiet Q s s' \<Longrightarrow> sends_no P s s'"
  by (simp add: quiet_def sends_no_def log_rel_def)

lemma keeps_quiet_sends_no: "keeps (quiet Q) m \<Longrightarrow> keeps (sends_no P) m"
  by (erule keeps_mono) (rule quiet_sends_no)

lemma deleteNode_quiet: "keeps (quiet (\<lambda>_. True)) (deleteNode K n)"
  unfolding deleteNode_def by (intro frame_rules; simp)

lemmas own_sends_no [frame_rules] =
  keeps_quiet_sends_no [OF updateStatus_quiet(1)] keeps_quiet_sends_no [OF updateStatus_quiet(2)]
  keeps_quiet_sends_no [OF modify_meta_quiet [where P = "\<lambda>_. True"]] keeps_quiet_sends_no [OF delay_quiet [where P = "\<lambda>_. True"]]
  keeps_quiet_sends_no [OF deleteNode_quiet]

lemma send_sends_no [frame_rules]: "keeps (sends_no P) (send k f)"
  by (rule keeps_quiet_sends_no [OF send_quiet [where P = "\<lambda>_. True"]]) simp

lemma call_actuator_sends_no:
  "keeps (log_rel (\<lambda>c. \<not> P c)) f \<Longrightarrow> keeps (sends_no P) (call_actuator K x step f)"
  by (rule keepsI) (auto simp: sends_no_def dest!: call_actuator_run dest: keepsD)

lemma calls_send_no:
  "keeps (log_rel (\<lambda>c. \<not> P c)) (i_Create I) \<Longrightarrow> keeps (sends_no P) (call_Create K I)"
  "keeps (log_rel (\<lambda>c. \<not> P c)) (i_Delete I) \<Longrightarrow> keeps (sends_no P) (call_Delete K I)"
  "keeps (log_rel (\<lambda>c. \<not> P c)) (i_Update I) \<Longrightarrow> keeps (sends_no P) (call_Update K I)"
  "keeps (log_rel (\<lambda>c. \<not> P c)) (i_Exists I) \<Longrightarrow> keeps (sends_no P) (call_Exists K I)"
  unfolding call_Create_def call_Delete_def call_Update_def call_Exists_def by (erule call_actuator_sends_no)+

lemma filter_only: "x \<in> set xs \<Longrightarrow> P x \<Longrightarrow> length (filter P xs) \<le> 1 \<Longrightarrow> filter P xs = [x]"
  by (induction xs) (auto simp: filter_empty_conv)

text \<open>
  What the controller relies on to create at most one instance: \<open>Create\<close> asks for at most one, and the
  other methods for none.
\<close>

locale actuator_contract =
  fixes I :: "'e Actuator_impl"
  assumes create_logs: "keeps (log_rel (\<lambda>_. True)) (i_Create I)"
    and create_once: "i_Create I a = (r, a') \<Longrightarrow> length (filter is_create (new_calls a a')) \<le> 1"
    and others_create_none: "keeps (log_rel (\<lambda>c. \<not> is_create c)) (i_Delete I)"
      "keeps (log_rel (\<lambda>c. \<not> is_create c)) (i_Update I)" "keeps (log_rel (\<lambda>c. \<not> is_create c)) (i_Exists I)"
begin

lemmas calls_create_none [frame_rules] =
  calls_send_no(2) [OF others_create_none(1)] calls_send_no(3) [OF others_create_none(2)] calls_send_no(4) [OF others_create_none(3)]

lemma deleted_creates_none: "keeps (sends_no is_create) (reconcile_deleted K oc I)"
  unfolding reconcile_deleted_def finish_delete_def by (intro frame_rules)

lemma existing_creates_none: "keeps (sends_no is_create) (reconcile_existing K oc I)"
  unfolding reconcile_existing_def by (intro frame_rules)

lemma missing_creates:
  assumes run: "reconcile_missing K oc I s = (r, s')" and new: "\<not> sends_no is_create s s'"
  shows "\<not> machineIsProvisioned (ctl_machine s) \<and> ptr_Deref (mt_Phase (kt_meta s)) [] \<noteq> [] \<and>
     w_calls (kt_act s') = w_calls (snd (i_Create I (kt_act s)))"
proof (intro conjI)
  have "keeps (sends_no is_create) (instance_missing K oc)" unfolding instance_missing_def by (intro frame_rules)
  with run new show np: "\<not> machineIsProvisioned (ctl_machine s)"
    by (auto simp: reconcile_missing_def gets_def bnd_eq_Ok dest: keepsD split: if_splits)
  let ?t = "s\<lparr>kt_meta := set_condition ''InstanceExists''
      (FalseCondition ''InstanceNotCreated'' ''Warning'' ''Instance has not been created'') (kt_meta s)\<rparr>"
  have act: "kt_act ?t = kt_act s" by simp
  let ?wait = "bnd (updateStatus K oc PhaseProvisioning None) (\<lambda>_. ret no_requeue)"
  have "keeps (sends_no is_create) ?wait" by (intro frame_rules)
  then have wait: "sends_no is_create s s'" if "?wait ?t = (r, s')"
    using that act unfolding sends_no_def keeps_def by (metis snd_conv)
  from run np have branch: "(if ptr_Deref (mt_Phase (kt_meta s)) [] = [] then ?wait else create_instance K oc I) ?t = (r, s')"
    by (simp add: reconcile_missing_def gets_def modify_meta_def modify_def bnd_eq_Ok set_condition_def)
  with wait new show ph: "ptr_Deref (mt_Phase (kt_meta s)) [] \<noteq> []" by (auto split: if_splits)
  obtain q u where c: "call_Create K I ?t = (q, u)" by fastforce
  have tail: "keeps (quiet status_step) (if b then bnd (updateStatus K oc PhaseFailed (Some err)) (\<lambda>_. ret no_requeue)
            else delayIfRequeueAfterError err)" for b err by (intro frame_rules)
  have "w_calls (kt_act s') = w_calls (kt_act u)"
  proof (cases q)
    case (Err e)
    with branch ph c have "quiet status_step u s'" by (auto simp: create_instance_def handle_eq_Err intro: keepsD [OF tail])
    then show ?thesis by (simp add: quiet_def)
  qed (use branch ph c in \<open>auto simp: create_instance_def handle_def ret_def\<close>)
  with call_run(1) [OF c] show "w_calls (kt_act s') = w_calls (snd (i_Create I (kt_act s)))" by simp
qed

lemma live_creates:
  assumes run: "reconcile_live K oc I s = (r, s')" and new: "\<not> sends_no is_create s s'"
  shows "\<not> machineIsFailed (kt_meta s) \<and> (\<exists>a. i_Exists I (kt_act s) = (Ok False, a) \<and> \<not> machineIsProvisioned (ac_machine a) \<and>
     ptr_Deref (mt_Phase (k_after K MExists (w_ext a) (kt_meta s))) [] \<noteq> [] \<and> w_calls (kt_act s') = w_calls (snd (i_Create I a)))"
proof
  show nf: "\<not> machineIsFailed (kt_meta s)"
    using run new by (auto simp: reconcile_live_def gets_def bnd_eq_Ok ret_def call_free.refl)
  obtain q t where ex: "call_Exists K I s = (q, t)" by fastforce
  have st: "sends_no is_create s t" by (rule keepsD [OF calls_create_none(3) ex])
  have not: "\<not> sends_no is_create t s'" using st new by (blast intro: call_free.trans)
  have err: "keeps (sends_no is_create) (bnd (modify_meta f) (\<lambda>_. handle (updateStatus_same K oc c) (\<lambda>_. raise e) (\<lambda>_. raise e)))"
    for f c and e :: go_error by (intro frame_rules)
  have "q = Ok False \<and> reconcile_missing K oc I t = (r, s')"
  proof (cases q)
    case (Err e)
    with run nf ex have "\<exists>f c. bnd (modify_meta f) (\<lambda>_. handle (updateStatus_same K oc c) (\<lambda>_. raise e) (\<lambda>_. raise e)) t = (r, s')"
      by (simp add: reconcile_live_def gets_def bnd_eq_Ok handle_eq_Err) blast
    with not show ?thesis by (blast dest: keepsD [OF err])
  qed (use run nf ex not keepsD [OF existing_creates_none] call_free.refl [of _ t] in
      \<open>auto simp: reconcile_live_def gets_def bnd_eq_Ok handle_def split: if_splits\<close>)
  moreover have "kt_meta t = k_after K MExists (w_ext (kt_act t)) (kt_meta s)"
    using ex by (auto simp: call_Exists_def call_actuator_def split: prod.splits)
  ultimately show "\<exists>a. i_Exists I (kt_act s) = (Ok False, a) \<and> \<not> machineIsProvisioned (ac_machine a) \<and>
     ptr_Deref (mt_Phase (k_after K MExists (w_ext a) (kt_meta s))) [] \<noteq> [] \<and> w_calls (kt_act s') = w_calls (snd (i_Create I a))"
    using missing_creates [of K oc t r s'] not call_run(4) [OF ex] by (intro exI [of _ "kt_act t"]) simp
qed

lemma Reconcile_creates:
  assumes run: "ctl_Reconcile K I ns n s = (r, s')" and new: "C_VMs_Create v \<in> set (new_calls (kt_act s) (kt_act s'))"
  shows "filter is_create (new_calls (kt_act s) (kt_act s')) = [C_VMs_Create v] \<and>
     (\<exists>t a. quiet status_step s t \<and> \<not> mt_Deleted (kt_meta t) \<and> MachineFinalizer \<in> set (mt_Finalizers (kt_meta t)) \<and>
        ctl_validateMachine (ctl_machine t) \<and> \<not> machineIsFailed (kt_meta t) \<and> i_Exists I (kt_act t) = (Ok False, a) \<and>
        \<not> machineIsProvisioned (ac_machine a) \<and> C_VMs_Create v \<in> set (new_calls a (snd (i_Create I a))))"
proof -
  have some: "\<not> sends_no is_create s s'"
    using new sends_noD by fastforce
  obtain t oc where q: "quiet status_step s t" and br: "in_branch K oc I t r s'"
    using run some by (cases rule: ctl_Reconcile_branches) (auto dest: quiet_sends_no)
  have not: "\<not> sends_no is_create t s'" using quiet_sends_no [OF q] some by (blast intro: call_free.trans)
  have t: "\<not> mt_Deleted (kt_meta t)" "MachineFinalizer \<in> set (mt_Finalizers (kt_meta t))" "ctl_validateMachine (ctl_machine t)"
    "reconcile_live K oc I t = (r, s')"
    using br not keepsD [OF deleted_creates_none] by (auto simp: in_branch_def split: if_splits)
  from live_creates [OF t(4) not] obtain a where a: "\<not> machineIsFailed (kt_meta t)" "i_Exists I (kt_act t) = (Ok False, a)"
    "\<not> machineIsProvisioned (ac_machine a)" "w_calls (kt_act s') = w_calls (snd (i_Create I a))" by blast
  obtain q2 a2 where c: "i_Create I a = (q2, a2)" by fastforce
  obtain cs where cs: "w_calls a = w_calls (kt_act s) @ cs" "list_all (\<lambda>c. \<not> is_create c) cs"
    using keepsD [OF others_create_none(3) a(2)] q by (auto simp: log_rel_def quiet_def)
  obtain ds where ds: "w_calls a2 = w_calls a @ ds" using keepsD [OF create_logs c] by (auto simp: log_rel_def)
  have calls: "new_calls (kt_act s) (kt_act s') = cs @ ds" "new_calls a a2 = ds" using cs ds a(4) c by simp_all
  have "filter is_create cs = []" using cs(2) by (simp add: list_all_filter_Nil)
  moreover have sent: "C_VMs_Create v \<in> set ds" using new calls cs(2) by (auto simp: list_all_iff)
  moreover have "filter is_create ds = [C_VMs_Create v]"
    by (rule filter_only [OF sent]) (use create_once [OF c] calls in simp_all)
  ultimately have "filter is_create (new_calls (kt_act s) (kt_act s')) = [C_VMs_Create v] \<and> C_VMs_Create v \<in> set ds"
    using calls by simp
  with q t a c calls show ?thesis by auto
qed

end

section \<open>Deletion\<close>

text \<open>And to delete an instance only when it may: no method but \<open>Delete\<close> deletes.\<close>

locale delete_contract =
  fixes I :: "'e Actuator_impl"
  assumes others_delete_none: "keeps (log_rel (\<lambda>c. \<not> is_delete c)) (i_Create I)"
      "keeps (log_rel (\<lambda>c. \<not> is_delete c)) (i_Update I)" "keeps (log_rel (\<lambda>c. \<not> is_delete c)) (i_Exists I)"
    and delete_logs: "keeps (log_rel (\<lambda>_. True)) (i_Delete I)"
begin

lemmas calls_delete_none [frame_rules] =
  calls_send_no(1) [OF others_delete_none(1)] calls_send_no(3) [OF others_delete_none(2)] calls_send_no(4) [OF others_delete_none(3)]

lemma live_deletes_none: "keeps (sends_no is_delete) (reconcile_live K oc I)"
  unfolding reconcile_live_def reconcile_existing_def reconcile_missing_def instance_missing_def create_instance_def
  by (intro frame_rules)

lemma finish_deletes_none: "keeps (sends_no is_delete) (finish_delete K I)"
  unfolding finish_delete_def by (intro frame_rules)

lemma deleted_deletes:
  assumes run: "reconcile_deleted K oc I s = (r, s')" and del: "\<not> sends_no is_delete s s'"
  shows "\<exists>u d a. updateStatus K oc PhaseDeleting None s = (Ok (), u) \<and> may_delete (kt_meta u) \<and> i_Delete I (kt_act u) = (d, a) \<and>
     log_rel (\<lambda>c. \<not> is_delete c) (kt_act s) (kt_act u) \<and> log_rel (\<lambda>c. \<not> is_delete c) a (kt_act s')"
proof -
  obtain q u where up: "updateStatus K oc PhaseDeleting None s = (q, u)" by fastforce
  have su: "sends_no is_delete s u" by (rule quiet_sends_no [OF keepsD [OF updateStatus_quiet(1) up]])
  have q: "q = Ok ()"
    using run up su del by (cases q) (auto simp: reconcile_deleted_def bnd_eq_Err op_defs)
  have may: "may_delete (kt_meta u)"
    using run up q su del by (auto simp: reconcile_deleted_def may_delete_def gets_def bnd_eq_Ok ret_def split: if_splits)
  obtain d t where d: "call_Delete K I u = (d, t)" by fastforce
  have tail: "keeps (sends_no is_delete) (if b then delayIfRequeueAfterError e else finish_delete K I)" for b e
    by (intro frame_rules finish_deletes_none)
  have "sends_no is_delete t s'"
    using run up q may d
    by (cases d) (auto simp: reconcile_deleted_def may_delete_def gets_def bnd_eq_Ok handle_def call_free.refl
        intro: keepsD [OF finish_deletes_none] keepsD [OF tail])
  with call_run(2) [OF d] up q may su show ?thesis unfolding sends_no_def by blast
qed

lemma Reconcile_deletes:
  assumes run: "ctl_Reconcile K I ns n s = (r, s')" and new: "C_VMs_DeleteAsync v \<in> set (new_calls (kt_act s) (kt_act s'))"
  shows "\<exists>t oc u. quiet status_step s t \<and> mt_Deleted (kt_meta t) \<and> ctl_validateMachine (ctl_machine t) \<and>
     updateStatus K oc PhaseDeleting None t = (Ok (), u) \<and> may_delete (kt_meta u) \<and>
     filter is_delete (new_calls (kt_act s) (kt_act s')) = filter is_delete (new_calls (kt_act u) (snd (i_Delete I (kt_act u))))"
proof -
  have some: "\<not> sends_no is_delete s s'" using new sends_noD by fastforce
  obtain t oc where q: "quiet status_step s t" and br: "in_branch K oc I t r s'"
    using run some by (cases rule: ctl_Reconcile_branches) (auto dest: quiet_sends_no)
  have not: "\<not> sends_no is_delete t s'" using quiet_sends_no [OF q] some by (blast intro: call_free.trans)
  have t: "mt_Deleted (kt_meta t)" "ctl_validateMachine (ctl_machine t)" "reconcile_deleted K oc I t = (r, s')"
    using br not by (auto simp: in_branch_def dest: keepsD [OF live_deletes_none] split: if_splits)
  from deleted_deletes [OF t(3) not] obtain u d a where u: "updateStatus K oc PhaseDeleting None t = (Ok (), u)"
    "may_delete (kt_meta u)" "i_Delete I (kt_act u) = (d, a)" and
    logs: "log_rel (\<lambda>c. \<not> is_delete c) (kt_act t) (kt_act u)" "log_rel (\<lambda>c. \<not> is_delete c) a (kt_act s')" by blast
  obtain ds where ds: "w_calls a = w_calls (kt_act u) @ ds" using keepsD [OF delete_logs u(3)] by (auto simp: log_rel_def)
  from logs obtain cs es where "w_calls (kt_act u) = w_calls (kt_act t) @ cs" "w_calls (kt_act s') = w_calls a @ es"
    "filter is_delete cs = []" "filter is_delete es = []" by (auto simp: log_rel_def list_all_filter_Nil)
  moreover from this have "new_calls (kt_act s) (kt_act s') = cs @ ds @ es" using q ds by (simp add: quiet_def)
  moreover have "new_calls (kt_act u) a = ds" using ds by simp
  ultimately have "filter is_delete (new_calls (kt_act s) (kt_act s')) = filter is_delete (new_calls (kt_act u) (snd (i_Delete I (kt_act u))))"
    using u(3) by simp
  with q t u(1,2) show ?thesis by blast
qed

end

section \<open>The provider meets the contract\<close>

lemma traced_logs: "keeps (traced A) m \<Longrightarrow> keeps (log_rel (\<lambda>_. True)) m"
  by (erule keeps_mono) (auto simp: traced_def log_rel_def list_all_iff)

lemma with_scope_log: "keeps (log_rel P) m \<Longrightarrow> keeps (log_rel P) (with_scope m x)"
proof (rule keepsI)
  fix a r a' assume m: "keeps (log_rel P) m" and run: "with_scope m x a = (r, a')"
  obtain q s where q: "m (world.extend (world.truncate a) x) = (q, s)" by fastforce
  from keepsD [OF m q] run q show "log_rel P a a'" by (auto simp: with_scope_def log_rel_def)
qed

lemma scope_for_log: "keeps (log_rel is_read) (scope_for A)"
proof (rule keepsI)
  fix a r a' assume run: "scope_for A a = (r, a')"
  obtain q w where q: "newMachineScope A \<lparr>p_Context = True, p_machine = Some (ac_machine a)\<rparr> (world.truncate a) = (q, w)" by fastforce
  from keepsD [OF newMachineScope_log q] run q show "log_rel is_read a a'" by (auto simp: scope_for_def log_rel_def)
qed

lemma patch_no_create: "keeps (log_rel (\<lambda>c. \<not> is_create c)) (patchMachine A)"
  by (rule keeps_log_mono [OF patchMachine_log]) (auto elim: is_patch.elims)

lemma update_no_create: "keeps (log_rel (\<lambda>c. \<not> is_create c)) (update A)"
  by (rule keeps_log_mono [OF update_log]) (auto elim!: is_node_update.elims)

lemma body_no_create:
  "keeps (log_rel (\<lambda>c. \<not> is_create c)) (update_body A)" "keeps (log_rel (\<lambda>c. \<not> is_create c)) (delete_body A)"
  unfolding update_body_def delete_body_def reconcile_failed_def handleMachineError_def
  by (intro set_conditions_log patch_no_create delete_no_create update_no_create frame_rules)+

interpretation nutanix: actuator_contract "nutanix_actuator A" for A
proof
  show "keeps (log_rel (\<lambda>_. True)) (i_Create (nutanix_actuator A))"
    using traced_logs [OF actuator_traced(1)] by (simp add: nutanix_actuator_def)
next
  fix a r a' assume "i_Create (nutanix_actuator A) a = (r, a')"
  then have run: "Create A a = (r, a')" by (simp add: nutanix_actuator_def)
  show "length (filter is_create (new_calls a a')) \<le> 1"
  proof (cases "filter is_create (new_calls a a')")
    case (Cons c cs)
    then have "is_create c" "c \<in> set (new_calls a a')" by (auto dest: filter_eq_ConsD)
    then obtain v where "C_VMs_Create v \<in> set (new_calls a a')" by (cases c) auto
    with Create_vm_call [OF run] show ?thesis by simp
  qed simp
next
  have scope: "keeps (log_rel (\<lambda>c. \<not> is_create c)) (scope_for A)"
    by (rule keeps_log_mono [OF scope_for_log]) simp
  show "keeps (log_rel (\<lambda>c. \<not> is_create c)) (i_Delete (nutanix_actuator A))"
    "keeps (log_rel (\<lambda>c. \<not> is_create c)) (i_Update (nutanix_actuator A))"
    "keeps (log_rel (\<lambda>c. \<not> is_create c)) (i_Exists (nutanix_actuator A))"
    unfolding nutanix_actuator_def Actuator_impl.simps Delete_def Update_def Exists_def handleMachineError_def
    by (intro frame_rules scope with_scope_log body_no_create keeps_log_mono [OF exists_log]; simp)+
qed

lemma patch_no_delete: "keeps (log_rel (\<lambda>c. \<not> is_delete c)) (patchMachine A)"
  by (rule keeps_log_mono [OF patchMachine_log]) (auto elim: is_patch.elims)

lemma create_no_delete: "keeps (log_rel (\<lambda>c. \<not> is_delete c)) (create A)"
  unfolding create_def
  by (intro frame_rules keeps_log [OF getUserData_rel, THEN keeps_log_mono] keeps_log_mono [OF validateVMConfig_log]
      keeps_log [OF createVM_rel, THEN keeps_log_mono] keeps_log_mono [OF updateMachineWithVMState_log]
      keeps_log_mono [OF setProviderStatus_log]) (auto elim: is_node_update.elims is_create.elims is_power_on.elims)

lemma update_no_delete: "keeps (log_rel (\<lambda>c. \<not> is_delete c)) (update A)"
  by (rule keeps_log_mono [OF update_log]) (auto elim!: is_node_update.elims)

lemma body_no_delete:
  "keeps (log_rel (\<lambda>c. \<not> is_delete c)) (create_body A)" "keeps (log_rel (\<lambda>c. \<not> is_delete c)) (update_body A)"
  unfolding create_body_def update_body_def reconcile_failed_def handleMachineError_def
  by (intro set_conditions_log patch_no_delete create_no_delete update_no_delete frame_rules)+

interpretation nutanix_delete: delete_contract "nutanix_actuator A" for A
proof
  have scope: "keeps (log_rel (\<lambda>c. \<not> is_delete c)) (scope_for A)"
    by (rule keeps_log_mono [OF scope_for_log]) simp
  show "keeps (log_rel (\<lambda>c. \<not> is_delete c)) (i_Create (nutanix_actuator A))"
    "keeps (log_rel (\<lambda>c. \<not> is_delete c)) (i_Update (nutanix_actuator A))"
    "keeps (log_rel (\<lambda>c. \<not> is_delete c)) (i_Exists (nutanix_actuator A))"
    unfolding nutanix_actuator_def Actuator_impl.simps Create_def Update_def Exists_def handleMachineError_def
    by (intro frame_rules scope with_scope_log body_no_delete keeps_log_mono [OF exists_log]; simp)+
  show "keeps (log_rel (\<lambda>_. True)) (i_Delete (nutanix_actuator A))"
    using traced_logs [OF actuator_traced(4)] by (simp add: nutanix_actuator_def)
qed

end
