(* ===== verification/Drain.thy ===== *)
theory Drain
  imports Machine_Controller
begin

text \<open>
  The drain controller of the machine API operator (vendored,
  \<^verbatim>\<open>pkg/controller/machine/drain_controller.go\<close>), which the process runs beside the machine controller: it
  drains the node of a Machine that is being deleted and sets the condition \<^verbatim>\<open>Drained\<close> the machine
  controller waits for.  It shares the controller's state, its log and its calls \<open>ctl_api\<close>; the
  calls it makes itself, and the eviction of the pods of a node (\<^verbatim>\<open>RunNodeDrain\<close> of kubectl), are the
  parameter \<open>drain_api\<close>.
\<close>

section \<open>Nodes and calls\<close>

record drain_node = Node +
  nd_Unschedulable :: bool
  nd_Conditions :: "(string \<times> ConditionStatus) list"

text \<open>The fields of kubectl's \<^verbatim>\<open>Helper\<close> the controller sets; times in seconds.\<close>

record Helper =
  dh_Force :: bool
  dh_IgnoreAllDaemonSets :: bool
  dh_DeleteEmptyDirData :: bool
  dh_GracePeriodSeconds :: int
  dh_Timeout :: nat
  dh_SkipWaitForDeleteTimeoutSeconds :: int

record 'e drain_api =
  d_NewForConfig :: "('e, unit) ext_call"
  d_GetNode :: "string \<Rightarrow> ('e, drain_node) ext_call"
  d_ListNodes :: "('e, drain_node list) ext_call"
  d_PatchNode :: "drain_node \<Rightarrow> bool \<Rightarrow> ('e, unit) ext_call"
  d_RunNodeDrain :: "Helper \<Rightarrow> string \<Rightarrow> ('e, unit) ext_call"

definition ExcludeNodeDrainingAnnotation :: string where
  "ExcludeNodeDrainingAnnotation = ''machine.openshift.io/exclude-node-draining''"
definition nodeControlPlaneLabel :: string where "nodeControlPlaneLabel = ''node-role.kubernetes.io/control-plane''"
definition nodeMasterLabel :: string where "nodeMasterLabel = ''node-role.kubernetes.io/master''"
definition skipWaitForDeleteTimeoutSeconds :: int where "skipWaitForDeleteTimeoutSeconds = 1"

definition isControlPlaneNode :: "drain_node \<Rightarrow> bool" where
  "isControlPlaneNode node \<longleftrightarrow>
     map_lookup (n_Labels node) nodeControlPlaneLabel \<noteq> None \<or> map_lookup (n_Labels node) nodeMasterLabel \<noteq> None"

fun unreachable_loop :: "(string \<times> ConditionStatus) list \<Rightarrow> bool" where
  "unreachable_loop [] = False"
| "unreachable_loop ((type, status) # rest) =
     (if type = ''Ready'' \<and> status = ConditionUnknown then True else unreachable_loop rest)"

definition nodeIsUnreachable :: "drain_node \<Rightarrow> bool" where
  "nodeIsUnreachable node = unreachable_loop (nd_Conditions node)"

section \<open>Operations\<close>

text \<open>The loop over the other nodes: a cordoned control plane node stops it.\<close>

fun other_nodes_loop :: "drain_node list \<Rightarrow> ('e, unit) ctl_op" where
  "other_nodes_loop [] = ret ()"
| "other_nodes_loop (otherNode # rest) =
     (if isControlPlaneNode otherNode \<and> nd_Unschedulable otherNode then raise (RequeueAfterError 20)
      else other_nodes_loop rest)"

definition isDrainAllowed :: "'e drain_api \<Rightarrow> drain_node \<Rightarrow> ('e, unit) ctl_op" where
  "isDrainAllowed D node =
     (if nd_Unschedulable node then ret ()
      else if \<not> isControlPlaneNode node then ret ()
      else handle (k_call D_ListNodes (d_ListNodes D))
        other_nodes_loop
        (\<lambda>err. raise (NewError (''could not list control plane nodes: '' @ err_Error err))))"

definition RunCordonOrUncordon :: "'e drain_api \<Rightarrow> drain_node \<Rightarrow> bool \<Rightarrow> ('e, unit) ctl_op" where
  "RunCordonOrUncordon D node desired =
     (if nd_Unschedulable node = desired then ret ()
      else handle (k_call (D_Cordon (n_Name node)) (d_PatchNode D node desired))
        ret
        (\<lambda>err. raise (fmt_Errorf_w ''cordon error: '' err)))"

text \<open>The helper for a node: an unreachable kubelet is not waited for.\<close>

definition drainer :: "drain_node \<Rightarrow> Helper" where
  "drainer node =
     (let h = \<lparr>dh_Force = True, dh_IgnoreAllDaemonSets = True, dh_DeleteEmptyDirData = True, dh_GracePeriodSeconds = -1,
               dh_Timeout = 20, dh_SkipWaitForDeleteTimeoutSeconds = 0\<rparr>
      in if nodeIsUnreachable node
         then h\<lparr>dh_SkipWaitForDeleteTimeoutSeconds := skipWaitForDeleteTimeoutSeconds, dh_GracePeriodSeconds := 1\<rparr>
         else h)"

definition drain_found :: "'e drain_api \<Rightarrow> drain_node \<Rightarrow> ('e, unit) ctl_op" where
  "drain_found D node =
     handle (isDrainAllowed D node)
       (\<lambda>_. handle (RunCordonOrUncordon D node True)
          (\<lambda>_. bnd (k_call (D_Drain (n_Name node)) (d_RunNodeDrain D (drainer node) (n_Name node))) (\<lambda>_.
             ctl_event EventTypeNormal ''Deleted'' (''Node '' @ strconv_Quote (n_Name node) @ '' drained'')))
          (\<lambda>_. raise (RequeueAfterError 20)))
       (\<lambda>err. raise (fmt_Errorf_w ''drain not permitted: '' err))"

definition drainNode :: "'e drain_api \<Rightarrow> Machine \<Rightarrow> ('e, unit) ctl_op" where
  "drainNode D machine =
     handle (k_call D_NewClient (d_NewForConfig D))
       (\<lambda>_. bnd (deref (m_NodeRef machine)) (\<lambda>name.
          handle (k_call (D_GetNode name) (d_GetNode D name))
            (drain_found D)
            (\<lambda>err. if apierrors_IsNotFound err then ret ()
               else raise (NewError (''unable to get node '' @ strconv_Quote name @ '': '' @ err_Error err)))))
       (\<lambda>err. raise (NewError (''unable to build kube client: '' @ err_Error err)))"

text \<open>The condition is set and sent, against the object as it was read.\<close>

definition drain_finished :: "'e ctl_api \<Rightarrow> machine_object \<Rightarrow> string \<Rightarrow> ('e, ctl_Result) ctl_op" where
  "drain_finished K machineCopy msg =
     bnd (modify_meta (set_condition ''Drained'' (TrueCondition\<lparr>mc_Message := msg\<rparr>))) (\<lambda>_.
     handle (send D_Status (\<lambda>obj. k_PatchStatus K obj machineCopy))
       (\<lambda>_. ret no_requeue)
       (\<lambda>err. raise (fmt_Errorf_w ''could not patch machine status: '' err)))"

definition drain_failed :: "go_error \<Rightarrow> ('e, ctl_Result) ctl_op" where
  "drain_failed err =
     bnd (modify_meta (set_condition ''Drained''
            (FalseCondition ''DrainError'' ''Warning'' (''could not drain machine: '' @ err_Error err)))) (\<lambda>_.
     bnd (ctl_event EventTypeNormal ''DrainRequeued'' (''Node drain requeued: '' @ err_Error err)) (\<lambda>_.
     delayIfRequeueAfterError err))"

definition alreadyDrained :: "machine_meta \<Rightarrow> bool" where
  "alreadyDrained mt \<longleftrightarrow> map_option mc_Status (mt_Conditions mt ''Drained'') = Some ConditionTrue"

definition has_drainable_node :: "Machine \<Rightarrow> bool" where
  "has_drainable_node m \<longleftrightarrow> map_lookup (m_Annotations m) ExcludeNodeDrainingAnnotation = None \<and> m_NodeRef m \<noteq> None"

text \<open>A machine that is to be drained.\<close>

definition drain_machine :: "'e ctl_api \<Rightarrow> 'e drain_api \<Rightarrow> machine_object \<Rightarrow> ('e, ctl_Result) ctl_op" where
  "drain_machine K D machineCopy = (case machineCopy of (m, mt) \<Rightarrow>
     if has_drainable_node m then
       (if mt_PreDrain mt \<noteq> [] then
          bnd (ctl_event EventTypeNormal ''DrainBlocked'' ''Drain blocked by pre-drain hook'') (\<lambda>_. ret no_requeue)
        else
          bnd (ctl_event EventTypeNormal ''DrainProceeds'' ''Node drain proceeds'') (\<lambda>_.
          handle (drainNode D m)
            (\<lambda>_. bnd (ctl_event EventTypeNormal ''DrainSucceeded'' ''Node drain succeeded'') (\<lambda>_.
               drain_finished K machineCopy ''Drain finished successfully''))
            drain_failed))
     else
       bnd (ctl_event EventTypeNormal ''DrainSkipped'' ''Node drain skipped'') (\<lambda>_.
       drain_finished K machineCopy ''Node drain skipped''))"

definition drain_due :: "machine_meta \<Rightarrow> bool" where
  "drain_due mt \<longleftrightarrow> mt_Deleted mt \<and> ptr_Deref (mt_Phase mt) [] = PhaseDeleting \<and> \<not> alreadyDrained mt"

definition drain_Reconcile :: "'e ctl_api \<Rightarrow> 'e drain_api \<Rightarrow> string \<Rightarrow> string \<Rightarrow> ('e, ctl_Result) ctl_op" where
  "drain_Reconcile K D ns name =
     handle (k_call K_Get (k_Get K ns name))
       (\<lambda>obj. bnd (set_object obj) (\<lambda>_. if drain_due (snd obj) then drain_machine K D obj else ret no_requeue))
       (\<lambda>e. if apierrors_IsNotFound e then ret no_requeue else raise e)"

section \<open>What the operations do\<close>

lemma unreachable_loop_iff: "unreachable_loop cs \<longleftrightarrow> (''Ready'', ConditionUnknown) \<in> set cs"
  by (induction cs rule: unreachable_loop.induct) auto

abbreviation cordoned_control_plane :: "drain_node \<Rightarrow> bool" where
  "cordoned_control_plane node \<equiv> isControlPlaneNode node \<and> nd_Unschedulable node"

lemma other_nodes_loop_eq:
  "other_nodes_loop nodes s = (if list_ex cordoned_control_plane nodes then Err (RequeueAfterError 20) else Ok (), s)"
  by (induction nodes) (auto simp: raise_def ret_def)

text \<open>A logged call and its answer.\<close>

lemma k_call_cases:
  assumes "k_call st f s = (r, t)"
  obtains (ok) x where "f (w_ext (kt_act s)) = (Inr x, w_ext (kt_act t))" "r = Ok x" "kt_log t = kt_log s @ [st]"
    | (err) e where "f (w_ext (kt_act s)) = (Inl e, w_ext (kt_act t))" "r = Err e" "kt_log t = kt_log s @ [st]"
  using assms by (auto simp: k_call_def split: prod.splits sum.splits)

lemma k_call_Ok: "k_call st f s = (Ok x, t) \<Longrightarrow> f (w_ext (kt_act s)) = (Inr x, w_ext (kt_act t)) \<and> kt_log t = kt_log s @ [st]"
  by (erule k_call_cases) auto

lemma k_call_Err: "k_call st f s = (Err e, t) \<Longrightarrow> f (w_ext (kt_act s)) = (Inl e, w_ext (kt_act t)) \<and> kt_log t = kt_log s @ [st]"
  by (erule k_call_cases) auto

lemma ctl_event_log: "ctl_event ty reason note s = (r, t) \<Longrightarrow> r = Ok () \<and> kt_log t = kt_log s \<and> w_ext (kt_act t) = w_ext (kt_act s)"
  by (auto simp: ctl_event_def modify_def)

text \<open>The node may be drained: it is cordoned, or a worker, or no control plane node is cordoned.\<close>

lemma isDrainAllowed_Ok:
  assumes "isDrainAllowed D node s = (Ok (), t)"
  obtains "nd_Unschedulable node \<or> \<not> isControlPlaneNode node" "t = s"
    | nodes where "\<not> nd_Unschedulable node" "isControlPlaneNode node"
        "d_ListNodes D (w_ext (kt_act s)) = (Inr nodes, w_ext (kt_act t))" "\<not> list_ex cordoned_control_plane nodes"
        "kt_log t = kt_log s @ [D_ListNodes]"
  using assms unfolding isDrainAllowed_def
  by (auto simp: ret_def raise_def other_nodes_loop_eq elim!: handle_OkE dest!: k_call_Ok split: if_splits)

lemma RunCordon_Ok:
  assumes "RunCordonOrUncordon D node True s = (Ok (), t)"
  obtains "nd_Unschedulable node" "t = s"
    | "\<not> nd_Unschedulable node" "d_PatchNode D node True (w_ext (kt_act s)) = (Inr (), w_ext (kt_act t))"
        "kt_log t = kt_log s @ [D_Cordon (n_Name node)]"
  using assms unfolding RunCordonOrUncordon_def
  by (auto simp: ret_def raise_def elim!: handle_OkE dest!: k_call_Ok split: if_splits)

text \<open>The steps of a drain that goes through, for a node as it was read.\<close>

definition drain_steps :: "drain_node \<Rightarrow> ctl_step list" where
  "drain_steps node = (if nd_Unschedulable node then [] else (if isControlPlaneNode node then [D_ListNodes] else []) @ [D_Cordon (n_Name node)]) @
     [D_Drain (n_Name node)]"

lemma drain_found_Ok:
  assumes "drain_found D node s = (Ok (), t)"
  shows "kt_log t = kt_log s @ drain_steps node \<and> (\<exists>e. d_RunNodeDrain D (drainer node) (n_Name node) e = (Inr (), w_ext (kt_act t)))"
proof -
  from assms obtain u v w where allow: "isDrainAllowed D node s = (Ok (), u)"
    and cordon: "RunCordonOrUncordon D node True u = (Ok (), v)"
    and run: "k_call (D_Drain (n_Name node)) (d_RunNodeDrain D (drainer node) (n_Name node)) v = (Ok (), w)"
    and ev: "ctl_event EventTypeNormal ''Deleted'' (''Node '' @ strconv_Quote (n_Name node) @ '' drained'') w = (Ok (), t)"
    unfolding drain_found_def by (auto simp: raise_def elim!: handle_OkE bnd_OkE)
  have "kt_log v = kt_log s @ (if nd_Unschedulable node then [] else (if isControlPlaneNode node then [D_ListNodes] else []) @ [D_Cordon (n_Name node)])"
    by (rule isDrainAllowed_Ok [OF allow]; rule RunCordon_Ok [OF cordon]) auto
  with k_call_Ok [OF run] ctl_event_log [OF ev] show ?thesis by (auto simp: drain_steps_def)
qed

lemma drainNode_Ok:
  assumes "drainNode D m s = (Ok (), t)"
  obtains (gone) name err e e' where "m_NodeRef m = Some name" "d_GetNode D name e = (Inl err, e')" "apierrors_IsNotFound err"
      "kt_log t = kt_log s @ [D_NewClient, D_GetNode name]"
    | (drained) name node e e' e1 e2 where "m_NodeRef m = Some name" "d_GetNode D name e = (Inr node, e')"
      "d_RunNodeDrain D (drainer node) (n_Name node) e1 = (Inr (), e2)"
      "kt_log t = kt_log s @ [D_NewClient, D_GetNode name] @ drain_steps node"
proof -
  from assms obtain u where new: "k_call D_NewClient (d_NewForConfig D) s = (Ok (), u)"
    and rest: "bnd (deref (m_NodeRef m)) (\<lambda>name. handle (k_call (D_GetNode name) (d_GetNode D name)) (drain_found D)
            (\<lambda>err. if apierrors_IsNotFound err then ret ()
               else raise (NewError (''unable to get node '' @ strconv_Quote name @ '': '' @ err_Error err)))) u = (Ok (), t)"
    unfolding drainNode_def by (auto simp: raise_def elim!: handle_OkE)
  then obtain name where name: "m_NodeRef m = Some name"
    and get: "handle (k_call (D_GetNode name) (d_GetNode D name)) (drain_found D)
            (\<lambda>err. if apierrors_IsNotFound err then ret ()
               else raise (NewError (''unable to get node '' @ strconv_Quote name @ '': '' @ err_Error err))) u = (Ok (), t)"
    by (cases "m_NodeRef m") (auto simp: deref_def panic_def elim!: bnd_OkE)
  note u = k_call_Ok [OF new, THEN conjunct2]
  from get show thesis
  proof (cases rule: handle_OkE)
    case (ok node v)
    from drain_found_Ok [OF ok(2)] obtain e1 where "d_RunNodeDrain D (drainer node) (n_Name node) e1 = (Inr (), w_ext (kt_act t))" by blast
    with k_call_Ok [OF ok(1)] drain_found_Ok [OF ok(2)] u name show thesis by (intro drained) auto
  next
    case (err e v)
    with k_call_Err [OF err(1)] u name show thesis by (intro gone) (auto simp: ret_def raise_def split: if_splits)
  qed
qed

section \<open>Marking a machine as drained\<close>

text \<open>The condition is sent only for a machine that needs it, after a drain that went through or had nothing to do.\<close>

lemma no_status_steps:
  "keeps (quiet (\<lambda>k. k \<noteq> D_Status)) (drainNode D m)" "keeps (quiet (\<lambda>k. k \<noteq> D_Status)) (drain_failed err)"
proof -
  have "keeps (quiet (\<lambda>k. k \<noteq> D_Status)) (other_nodes_loop nodes)" for nodes :: "drain_node list"
    by (rule keepsI) (simp add: other_nodes_loop_eq quiet_frame.refl)
  then show "keeps (quiet (\<lambda>k. k \<noteq> D_Status)) (drainNode D m)"
    unfolding drainNode_def drain_found_def isDrainAllowed_def RunCordonOrUncordon_def by (intro frame_rules; simp)
  show "keeps (quiet (\<lambda>k. k \<noteq> D_Status)) (drain_failed err)" unfolding drain_failed_def by (intro frame_rules)
qed

lemma bnd_event:
  "bnd (ctl_event ty reason note) f s = f () (s\<lparr>kt_act := (kt_act s)\<lparr>w_events := w_events (kt_act s) @
     [\<lparr>ev_Type = ty, ev_Reason = reason, ev_Message = note\<rparr>]\<rparr>\<rparr>)"
  by (simp add: ctl_event_def modify_def bnd_eq_Ok)

lemma drain_machine_cases:
  assumes run: "drain_machine K D (m, mt) s = (r, s')"
  obtains (idle) "steps_rel (\<lambda>k. k \<noteq> D_Status) s s'"
    | (skipped) t where "\<not> has_drainable_node m" "kt_log t = kt_log s" "drain_finished K (m, mt) ''Node drain skipped'' t = (r, s')"
    | (drained) t u v where "has_drainable_node m" "mt_PreDrain mt = []" "kt_log t = kt_log s" "drainNode D m t = (Ok (), u)"
        "kt_log v = kt_log u" "drain_finished K (m, mt) ''Drain finished successfully'' v = (r, s')"
proof (cases "has_drainable_node m")
  case False
  with run show thesis by (intro skipped) (auto simp: drain_machine_def bnd_event)
next
  case node: True
  show thesis
  proof (cases "mt_PreDrain mt")
    case (Cons h hs)
    with node run show thesis by (intro idle) (auto simp: drain_machine_def bnd_event ret_def steps_rel_def)
  next
    case Nil
    obtain q t where ev: "ctl_event EventTypeNormal ''DrainProceeds'' ''Node drain proceeds'' s = (q, t)" by fastforce
    note t = ctl_event_log [OF ev]
    from run node Nil ev t have d: "handle (drainNode D m)
            (\<lambda>_. bnd (ctl_event EventTypeNormal ''DrainSucceeded'' ''Node drain succeeded'') (\<lambda>_.
               drain_finished K (m, mt) ''Drain finished successfully'')) drain_failed t = (r, s')"
      by (simp add: drain_machine_def bnd_eq_Ok)
    have log: "steps_rel (\<lambda>k. k \<noteq> D_Status) s u" if "quiet (\<lambda>k. k \<noteq> D_Status) t u" for u
      using that t by (auto simp: steps_rel_def quiet_def)
    from d show thesis
    proof (cases rule: handle_cases)
      case (ok x u)
      with node Nil t show thesis by (intro drained) (auto simp: bnd_event)
    next
      case (error e u)
      from keepsD [OF no_status_steps(1) error(1)] keepsD [OF no_status_steps(2) error(2)] show thesis
        by (intro idle log) (rule quiet_frame.trans)
    next
      case panic
      from keepsD [OF no_status_steps(1) panic(1)] show thesis by (intro idle log)
    qed
  qed
qed

lemma drain_Reconcile_cases:
  assumes run: "drain_Reconcile K D ns n s = (r, s')"
  obtains (idle) "steps_rel (\<lambda>k. k \<noteq> D_Status) s s'"
    | (due) m mt e t where "k_Get K ns n (w_ext (kt_act s)) = (Inr (m, mt), e)" "drain_due mt" "kt_log t = kt_log s @ [K_Get]"
        "drain_machine K D (m, mt) t = (r, s')"
  using run unfolding drain_Reconcile_def
proof (cases rule: handle_cases)
  case (error e t)
  with k_call_Err [OF error(1)] show thesis by (intro idle) (auto simp: ret_def raise_def steps_rel_def split: if_splits)
next
  case panic
  then show thesis by (auto elim: k_call_cases)
next
  case (ok obj t)
  obtain m mt where obj: "obj = (m, mt)" by fastforce
  note get = k_call_Ok [OF ok(1), unfolded obj]
  show thesis
  proof (cases "drain_due mt")
    case True
    with ok(2) obj get show thesis by (intro due) (auto simp: set_object_def modify_def bnd_eq_Ok)
  next
    case False
    with ok(2) obj get show thesis by (intro idle) (auto simp: set_object_def modify_def bnd_eq_Ok ret_def steps_rel_def)
  qed
qed

lemma drain_finished_log: "drain_finished K c msg s = (r, s') \<Longrightarrow> kt_log s' = kt_log s @ [D_Status]"
  by (auto simp: drain_finished_def modify_meta_def modify_def gets_def ret_def raise_def send_def set_object_def bnd_eq_Ok
      elim!: k_call_cases elim: handle_cases simp: bnd_def handle_def k_call_def split: prod.splits outcome.splits sum.splits)

end
