(* ===== verification/Cluster.thy ===== *)
theory Cluster
  imports Actuator_Contract Drain
begin

text \<open>
  The whole process at work: the machine controller with an actuator and the drain controller
  reconcile Machines, in any order, while others change the outside in between.  \<open>cluster\<close> is that
  step relation.  A count of things outside that every step keeps at most one stays at most one:
  the VMs of a name, and the cordoned control plane nodes.
\<close>

section \<open>Runs\<close>

text \<open>Each controller has one worker, and a reconcile starts by reading its Machine object.\<close>

inductive cluster ::
  "'e ctl_api \<Rightarrow> 'e Actuator_impl \<Rightarrow> 'e drain_api \<Rightarrow> ('e \<Rightarrow> 'e \<Rightarrow> bool) \<Rightarrow> 'e ctlState \<Rightarrow> 'e ctlState \<Rightarrow> bool"
  for K I D env s where
  start: "cluster K I D env s s"
| machine: "cluster K I D env s t \<Longrightarrow> cluster K I D env s (snd (ctl_Reconcile K I ns n t))"
| drain: "cluster K I D env s t \<Longrightarrow> cluster K I D env s (snd (drain_Reconcile K D ns n t))"
| others: "cluster K I D env s t \<Longrightarrow> env (w_ext (kt_act t)) e \<Longrightarrow> cluster K I D env s (t\<lparr>kt_act := (kt_act t)\<lparr>w_ext := e\<rparr>\<rparr>)"

text \<open>What both controllers and the others keep, a run keeps.\<close>

lemma cluster_keeps:
  assumes "cluster K I D env s s'" and "op_frame R"
    and "\<And>ns n. keeps R (ctl_Reconcile K I ns n)" and "\<And>ns n. keeps R (drain_Reconcile K D ns n)"
    and "\<And>t e. env (w_ext (kt_act t)) e \<Longrightarrow> R t (t\<lparr>kt_act := (kt_act t)\<lparr>w_ext := e\<rparr>\<rparr>)"
  shows "R s s'"
  using assms(1)
proof (induction rule: cluster.induct)
  case start
  show ?case by (rule op_frame.refl [OF assms(2)])
next
  case (machine t ns n)
  with assms(3) show ?case by (auto simp: keeps_def intro: op_frame.trans [OF assms(2)])
next
  case (drain t ns n)
  with assms(4) show ?case by (auto simp: keeps_def intro: op_frame.trans [OF assms(2)])
next
  case (others t e)
  with assms(5) show ?case by (blast intro: op_frame.trans [OF assms(2)])
qed

section \<open>Counts\<close>

definition ctl_capped :: "('e \<Rightarrow> nat) \<Rightarrow> 'e ctlState \<Rightarrow> 'e ctlState \<Rightarrow> bool" where
  "ctl_capped V s s' \<longleftrightarrow> capped V (kt_act s) (kt_act s')"

interpretation ctl_cap: op_frame "ctl_capped V" for V
  by unfold_locales (auto simp: ctl_capped_def capped_def)

text \<open>A call that does not raise the count.\<close>

definition inert :: "('e \<Rightarrow> nat) \<Rightarrow> ('e, 'a) ext_call \<Rightarrow> bool" where
  "inert V f \<longleftrightarrow> (\<forall>e. V (snd (f e)) \<le> V e)"

lemma inertD: "inert V f \<Longrightarrow> f e = (r, e') \<Longrightarrow> V e' \<le> V e"
  by (metis inert_def snd_conv)

definition inert_ctl :: "('e \<Rightarrow> nat) \<Rightarrow> 'e ctl_api \<Rightarrow> bool" where
  "inert_ctl V K \<longleftrightarrow> (\<forall>ns n. inert V (k_Get K ns n)) \<and> (\<forall>obj. inert V (k_Update K obj)) \<and> (\<forall>obj base. inert V (k_Patch K obj base)) \<and>
     (\<forall>obj base. inert V (k_PatchStatus K obj base)) \<and> (\<forall>n. inert V (k_GetNode K n)) \<and> (\<forall>n. inert V (k_DeleteNode K n))"

text \<open>The calls of the drain controller, except for cordoning a node.\<close>

definition inert_drain :: "('e \<Rightarrow> nat) \<Rightarrow> 'e drain_api \<Rightarrow> bool" where
  "inert_drain V D \<longleftrightarrow> inert V (d_NewForConfig D) \<and> (\<forall>n. inert V (d_GetNode D n)) \<and> inert V (d_ListNodes D) \<and>
     (\<forall>h n. inert V (d_RunNodeDrain D h n))"

lemma inert_ctlD:
  assumes "inert_ctl V K"
  shows "inert V (k_Get K ns n)" "inert V (k_Update K obj)" "inert V (k_Patch K obj base)" "inert V (k_PatchStatus K obj base)"
    "inert V (k_GetNode K n)" "inert V (k_DeleteNode K n)"
  using assms unfolding inert_ctl_def by blast+

lemma inert_drainD:
  assumes "inert_drain V D"
  shows "inert V (d_NewForConfig D)" "inert V (d_GetNode D n)" "inert V (d_ListNodes D)" "inert V (d_RunNodeDrain D h n)"
  using assms by (simp_all add: inert_drain_def)

lemma k_call_capped [frame_rules]: "inert V f \<Longrightarrow> keeps (ctl_capped V) (k_call st f)"
  by (rule keepsI, erule k_call_cases) (use le_trans in \<open>fastforce simp: ctl_capped_def capped_def dest: inertD\<close>)+

lemma modify_meta_capped [frame_rules]: "keeps (ctl_capped V) (modify_meta f)"
  by (simp add: keeps_def modify_meta_def modify_def ctl_capped_def capped_def)

lemma set_object_capped [frame_rules]: "keeps (ctl_capped V) (set_object obj)"
  by (simp add: keeps_def set_object_def modify_def ctl_capped_def capped_def)

lemma ctl_event_capped [frame_rules]: "keeps (ctl_capped V) (ctl_event ty reason note)"
  by (simp add: keeps_def ctl_event_def modify_def ctl_capped_def capped_def)

lemma modify_capped [frame_rules]: "(\<And>s. w_ext (kt_act (f s)) = w_ext (kt_act s)) \<Longrightarrow> keeps (ctl_capped V) (modify f)"
  by (simp add: keeps_def modify_def ctl_capped_def capped_def)

lemma lift_sum_capped [frame_rules]: "keeps (ctl_capped V) (lift_sum r)"
  by (cases r) (simp_all add: lift_sum_def ctl_cap.frame_raise ctl_cap.frame_ret)

lemma send_capped [frame_rules]: "(\<And>obj. inert V (f obj)) \<Longrightarrow> keeps (ctl_capped V) (send st f)"
  unfolding send_def by (intro frame_rules)

lemma delay_capped [frame_rules]: "keeps (ctl_capped V) (delayIfRequeueAfterError e)"
  unfolding delayIfRequeueAfterError_def by (intro frame_rules)

lemma status_capped:
  assumes "inert_ctl V K"
  shows "keeps (ctl_capped V) (updateStatus K oc ph c)" "keeps (ctl_capped V) (updateStatus_same K oc c)"
    "keeps (ctl_capped V) (deleteNode K n)" "keeps (ctl_capped V) (check_authority K)" "keeps (ctl_capped V) (check_valid K)"
    "keeps (ctl_capped V) (add_finalizer K)"
  unfolding updateStatus_same_def updateStatus_def patchFailedMachineInstanceAnnotation_def overrideFailedMachineProviderStatusState_def
    deleteNode_def check_authority_def ensureUpdatedPausedCondition_def check_valid_def add_finalizer_def Let_def
  by (intro frame_rules inert_ctlD [OF assms]; simp)+

lemma call_actuator_capped: "keeps (capped V) f \<Longrightarrow> keeps (ctl_capped V) (call_actuator K x step f)"
  by (rule keepsI) (auto simp: ctl_capped_def dest!: call_actuator_run dest: keepsD)

text \<open>An actuator that keeps the count capped keeps it capped under the machine controller.\<close>

lemma ctl_Reconcile_capped:
  assumes "inert_ctl V K"
    and "keeps (capped V) (i_Create I)" "keeps (capped V) (i_Delete I)" "keeps (capped V) (i_Update I)" "keeps (capped V) (i_Exists I)"
  shows "keeps (ctl_capped V) (ctl_Reconcile K I ns n)"
  unfolding ctl_Reconcile_def reconcile_deleted_def reconcile_live_def reconcile_existing_def reconcile_missing_def
    instance_missing_def create_instance_def finish_delete_def call_Create_def call_Delete_def call_Update_def call_Exists_def Let_def
  by (intro frame_rules status_capped [OF assms(1)] inert_ctlD [OF assms(1)] call_actuator_capped assms(2-))

lemma drain_status_capped: "inert_ctl V K \<Longrightarrow> keeps (ctl_capped V) (drain_finished K c msg)" "keeps (ctl_capped V) (drain_failed err)"
  unfolding drain_finished_def drain_failed_def by (intro frame_rules inert_ctlD; assumption)+

lemma drain_Reconcile_capped:
  assumes "inert_ctl V K" and "inert_drain V D" and "\<And>node. keeps (ctl_capped V) (drain_found D node)"
  shows "keeps (ctl_capped V) (drain_Reconcile K D ns n)"
  unfolding drain_Reconcile_def drain_machine_def drainNode_def
  by (intro frame_rules drain_status_capped(1) [OF assms(1)] drain_status_capped(2) inert_ctlD [OF assms(1)] inert_drainD [OF assms(2)] assms(3))

section \<open>One VM per name\<close>

lemma isDrainAllowed_capped:
  assumes "inert_drain V D"
  shows "keeps (ctl_capped V) (isDrainAllowed D node)"
proof -
  have "keeps (ctl_capped V) (other_nodes_loop nodes)" for nodes
    by (rule keepsI) (simp add: other_nodes_loop_eq ctl_cap.refl)
  then show ?thesis unfolding isDrainAllowed_def by (intro frame_rules inert_drainD [OF assms])
qed

lemma drain_found_inert:
  assumes "inert_drain V D" and "\<And>node b. inert V (d_PatchNode D node b)"
  shows "keeps (ctl_capped V) (drain_found D node)"
  unfolding drain_found_def RunCordonOrUncordon_def
  by (intro frame_rules isDrainAllowed_capped inert_drainD [OF assms(1)] assms)

lemma cluster_capped_vms:
  assumes "cluster K (nutanix_actuator A) D env s s'" and "honest_about A n V" and "dns_name n"
    and "inert_ctl V K" and "inert_drain V D" and "\<And>node b. inert V (d_PatchNode D node b)" and "\<And>e e'. env e e' \<Longrightarrow> V e' \<le> V e"
  shows "ctl_capped V s s'"
  using assms(1)
proof (rule cluster_keeps)
  have "keeps (capped V) (Create A)" "keeps (capped V) (Delete A)" "keeps (capped V) (Update A)" "keeps (capped V) (Exists A)"
    using invoke_capped [OF assms(2,3), of _ MCreate] invoke_capped [OF assms(2,3), of _ MDelete]
      invoke_capped [OF assms(2,3), of _ MUpdate] invoke_capped [OF assms(2,3), of _ MExists] by (simp_all add: keeps_def)
  then show "keeps (ctl_capped V) (ctl_Reconcile K (nutanix_actuator A) ns n)" for ns n
    by (intro ctl_Reconcile_capped assms(4)) (simp_all add: nutanix_actuator_def)
  show "keeps (ctl_capped V) (drain_Reconcile K D ns n)" for ns n
    by (intro drain_Reconcile_capped assms(4,5) drain_found_inert assms(6))
  show "ctl_capped V t (t\<lparr>kt_act := (kt_act t)\<lparr>w_ext := e\<rparr>\<rparr>)" if "env (w_ext (kt_act t)) e" for t e
    using assms(7) [OF that] by (simp add: ctl_capped_def capped_def)
qed (rule ctl_cap.op_frame_axioms)

section \<open>One control plane node at a time\<close>

text \<open>
  \<open>V\<close> counts the cordoned control plane nodes: a listing that shows none is true, and cordoning raises
  the count by at most one, and only for a control plane node.
\<close>

definition honest_nodes :: "('e \<Rightarrow> nat) \<Rightarrow> 'e drain_api \<Rightarrow> bool" where
  "honest_nodes V D \<longleftrightarrow> inert_drain V D \<and>
     (\<forall>e nodes e'. d_ListNodes D e = (Inr nodes, e') \<and> \<not> list_ex cordoned_control_plane nodes \<longrightarrow> V e' = 0) \<and>
     (\<forall>node e. V (snd (d_PatchNode D node True e)) \<le> V e + (if isControlPlaneNode node then 1 else 0))"

lemma honest_nodesD:
  assumes "honest_nodes V D"
  shows "inert_drain V D" and "d_ListNodes D e = (Inr nodes, e') \<Longrightarrow> \<not> list_ex cordoned_control_plane nodes \<Longrightarrow> V e' = 0"
    and "d_PatchNode D node True e = (r, e') \<Longrightarrow> V e' \<le> V e + (if isControlPlaneNode node then 1 else 0)"
  using assms unfolding honest_nodes_def by (blast, blast, metis snd_conv)

text \<open>Cordoning a node that may be drained keeps the count capped.\<close>

lemma RunCordon_count:
  assumes h: "honest_nodes V D" and run: "RunCordonOrUncordon D node True s = (r, t)"
  shows "V (w_ext (kt_act t)) \<le> V (w_ext (kt_act s)) + (if isControlPlaneNode node \<and> \<not> nd_Unschedulable node then 1 else 0)"
proof (cases "nd_Unschedulable node")
  case True
  with run show ?thesis by (simp add: RunCordonOrUncordon_def ret_def)
next
  case False
  obtain q u where c: "k_call (D_Cordon (n_Name node)) (d_PatchNode D node True) s = (q, u)" by fastforce
  with run False have "t = u" by (cases q) (auto simp: RunCordonOrUncordon_def handle_def ret_def raise_def)
  with c False show ?thesis by (auto elim!: k_call_cases dest: honest_nodesD(3) [OF h])
qed

lemma allowed_count:
  assumes h: "honest_nodes V D" and run: "isDrainAllowed D node s = (Ok (), t)" and "V (w_ext (kt_act s)) \<le> 1"
  shows "V (w_ext (kt_act t)) + (if isControlPlaneNode node \<and> \<not> nd_Unschedulable node then 1 else 0) \<le> 1"
  using run assms(3) by (cases rule: isDrainAllowed_Ok) (auto dest: honest_nodesD(2) [OF h])

lemma cordon_and_drain_capped:
  assumes h: "honest_nodes V D" and u: "RunCordonOrUncordon D node True t = (q, u)" and "V (w_ext (kt_act u)) \<le> 1"
    and run: "handle (RunCordonOrUncordon D node True)
          (\<lambda>_. bnd (k_call (D_Drain (n_Name node)) (d_RunNodeDrain D (drainer node) (n_Name node))) (\<lambda>_. ctl_event ty reason note))
          (\<lambda>_. raise e) t = (r, s')"
  shows "V (w_ext (kt_act s')) \<le> 1"
proof -
  have "keeps (ctl_capped V) (bnd (k_call (D_Drain (n_Name node)) (d_RunNodeDrain D (drainer node) (n_Name node))) (\<lambda>_. ctl_event ty reason note))"
    by (intro frame_rules inert_drainD [OF honest_nodesD(1) [OF h]])
  from keepsD [OF this, of u r s'] u run assms(3) show ?thesis
    by (cases q) (auto simp: handle_def raise_def ctl_capped_def capped_def)
qed

lemma drain_found_capped:
  assumes h: "honest_nodes V D"
  shows "keeps (ctl_capped V) (drain_found D node)"
proof (rule keepsI)
  fix s r s' assume run: "drain_found D node s = (r, s')"
  note allow = keepsD [OF isDrainAllowed_capped [OF honest_nodesD(1) [OF h]]]
  show "ctl_capped V s s'"
    using run unfolding drain_found_def
  proof (cases rule: handle_cases)
    case (ok x t)
    obtain q u where c: "RunCordonOrUncordon D node True t = (q, u)" by fastforce
    have "V (w_ext (kt_act u)) \<le> 1" if "V (w_ext (kt_act s)) \<le> 1"
      using allowed_count [OF h _ that] ok(1) RunCordon_count [OF h c] by fastforce
    with cordon_and_drain_capped [OF h c _ ok(2)] show ?thesis by (simp add: ctl_capped_def capped_def)
  next
    case (error e t)
    with allow [OF error(1)] show ?thesis by (simp add: raise_def)
  qed (use allow in blast)
qed

text \<open>The actuator does not raise a count that none of its calls raises.\<close>

definition inert_api :: "('e \<Rightarrow> nat) \<Rightarrow> 'e api \<Rightarrow> bool" where
  "inert_api V A \<longleftrightarrow> (\<forall>c e e'. answered A c e e' \<longrightarrow> V e' \<le> V e) \<and> (\<forall>e. V (snd (a_Now A e)) \<le> V e)"

lemma traced_inert: "inert_api V A \<Longrightarrow> traced A s s' \<Longrightarrow> capped V s s'"
  using evolves_count [where P = "\<lambda>_. False" and K = V, OF tracedD [THEN conjunct2, of A s s']]
  by (fastforce simp: inert_api_def capped_def)

lemma actuator_inert:
  assumes "inert_api V A"
  shows "keeps (capped V) (Create A)" "keeps (capped V) (Delete A)" "keeps (capped V) (Update A)" "keeps (capped V) (Exists A)"
  by (rule keeps_mono, rule actuator_traced, erule traced_inert [OF assms])+

lemma cluster_capped_nodes:
  assumes "cluster K (nutanix_actuator A) D env s s'" and "honest_nodes V D" and "inert_ctl V K"
    and "inert_api V A" and "\<And>e e'. env e e' \<Longrightarrow> V e' \<le> V e"
  shows "ctl_capped V s s'"
  using assms(1)
proof (rule cluster_keeps)
  show "keeps (ctl_capped V) (ctl_Reconcile K (nutanix_actuator A) ns n)" for ns n
    using actuator_inert [OF assms(4)] by (intro ctl_Reconcile_capped assms(3)) (simp_all add: nutanix_actuator_def)
  show "keeps (ctl_capped V) (drain_Reconcile K D ns n)" for ns n
    by (intro drain_Reconcile_capped assms(3) honest_nodesD(1) [OF assms(2)] drain_found_capped [OF assms(2)])
  show "ctl_capped V t (t\<lparr>kt_act := (kt_act t)\<lparr>w_ext := e\<rparr>\<rparr>)" if "env (w_ext (kt_act t)) e" for t e
    using assms(5) [OF that] by (simp add: ctl_capped_def capped_def)
qed (rule ctl_cap.op_frame_axioms)

end
