(* ===== verification/Life_Cycle.thy ===== *)
theory Life_Cycle
  imports Cluster
begin

text \<open>
  The phases of a Machine.  \<open>next_phase\<close> is the life cycle the machine controller promises; every
  phase a reconcile sends is a step of it from the Machine as it was read.
\<close>

abbreviation phase_of :: "machine_meta \<Rightarrow> string" where
  "phase_of mt \<equiv> ptr_Deref (mt_Phase mt) []"

inductive next_phase :: "machine_meta \<Rightarrow> string \<Rightarrow> bool" for mt where
  same: "next_phase mt (phase_of mt)"
| deleting: "mt_Deleted mt \<Longrightarrow> next_phase mt PhaseDeleting"
| provisioning: "\<not> mt_Deleted mt \<Longrightarrow> phase_of mt = [] \<Longrightarrow> next_phase mt PhaseProvisioning"
| provisioned: "\<not> mt_Deleted mt \<Longrightarrow> \<not> machineIsFailed mt \<Longrightarrow> next_phase mt PhaseProvisioned"
| running: "\<not> mt_Deleted mt \<Longrightarrow> \<not> machineIsFailed mt \<Longrightarrow> next_phase mt PhaseRunning"
| failed: "\<not> mt_Deleted mt \<Longrightarrow> \<not> machineIsFailed mt \<Longrightarrow> next_phase mt PhaseFailed"

inductive_simps next_phase_iff: "next_phase mt ph"

lemma next_phase_cong: "phase_of mt = phase_of mt' \<Longrightarrow> mt_Deleted mt = mt_Deleted mt' \<Longrightarrow> next_phase mt = next_phase mt'"
  by (simp add: fun_eq_iff next_phase_iff machineIsFailed_def)

text \<open>
  The answer to a write has the phase that was sent and the deletion mark the object had, and the actuator's patches do
  not touch the phase.
\<close>

definition stable_phase :: "'e ctl_api \<Rightarrow> bool" where
  "stable_phase K \<longleftrightarrow>
     (\<forall>obj base e obj' e'. k_PatchStatus K obj base e = (Inr obj', e') \<longrightarrow>
        phase_of (snd obj') = phase_of (snd obj) \<and> mt_Deleted (snd obj') = mt_Deleted (snd obj)) \<and>
     (\<forall>obj base e obj' e'. k_Patch K obj base e = (Inr obj', e') \<longrightarrow>
        phase_of (snd obj') = phase_of (snd obj) \<and> mt_Deleted (snd obj') = mt_Deleted (snd obj)) \<and>
     (\<forall>obj e obj' e'. k_Update K obj e = (Inr obj', e') \<longrightarrow>
        phase_of (snd obj') = phase_of (snd obj) \<and> mt_Deleted (snd obj') = mt_Deleted (snd obj)) \<and>
     (\<forall>x e mt. phase_of (k_after K x e mt) = phase_of mt \<and> mt_Deleted (k_after K x e mt) = mt_Deleted mt)"

lemma stable_phaseD:
  assumes "stable_phase K"
  shows "k_PatchStatus K obj base e = (Inr obj', e') \<Longrightarrow> phase_of (snd obj') = phase_of (snd obj) \<and> mt_Deleted (snd obj') = mt_Deleted (snd obj)"
    and "k_Patch K obj base e = (Inr obj', e') \<Longrightarrow> phase_of (snd obj') = phase_of (snd obj) \<and> mt_Deleted (snd obj') = mt_Deleted (snd obj)"
    and "k_Update K obj e = (Inr obj', e') \<Longrightarrow> phase_of (snd obj') = phase_of (snd obj) \<and> mt_Deleted (snd obj') = mt_Deleted (snd obj)"
    and "phase_of (k_after K x w mt) = phase_of mt" "mt_Deleted (k_after K x w mt) = mt_Deleted mt"
  using assms unfolding stable_phase_def by (blast, blast, blast, blast, blast)

section \<open>The frame\<close>

text \<open>
  If the state's phase satisfies \<open>Q\<close> before, it does after and so does every phase sent; the deletion mark stays.
\<close>

fun is_status :: "ctl_step \<Rightarrow> bool" where
  "is_status (K_Status ph) = True"
| "is_status _ = False"

definition phases :: "(string \<Rightarrow> bool) \<Rightarrow> 'e ctlState \<Rightarrow> 'e ctlState \<Rightarrow> bool" where
  "phases Q s s' \<longleftrightarrow> (Q (phase_of (kt_meta s)) \<longrightarrow>
     Q (phase_of (kt_meta s')) \<and> mt_Deleted (kt_meta s') = mt_Deleted (kt_meta s) \<and>
     (\<exists>ks. kt_log s' = kt_log s @ ks \<and> (\<forall>ph. K_Status ph \<in> set ks \<longrightarrow> Q ph)))"

interpretation phase_frame: op_frame "phases Q" for Q
proof
  show "phases Q s s" for s :: "'a ctlState" by (simp add: phases_def)
next
  fix s t u :: "'a ctlState"
  assume "phases Q s t" and "phases Q t u"
  then show "phases Q s u" unfolding phases_def by fastforce
qed

lemma phases_modify_meta [frame_rules]:
  "(\<And>m. phase_of (f m) = phase_of m) \<Longrightarrow> (\<And>m. mt_Deleted (f m) = mt_Deleted m) \<Longrightarrow> keeps (phases Q) (modify_meta f)"
  by (simp add: keeps_def modify_meta_def modify_def phases_def)

lemma phases_modify [frame_rules]:
  "(\<And>s. kt_meta (f s) = kt_meta s) \<Longrightarrow> (\<And>s. kt_log (f s) = kt_log s) \<Longrightarrow> keeps (phases Q) (modify f)"
  by (simp add: keeps_def modify_def phases_def)

lemma phases_event [frame_rules]: "keeps (phases Q) (ctl_event ty reason note)"
  unfolding ctl_event_def by (intro frame_rules) simp_all

lemma phases_lift_sum [frame_rules]: "keeps (phases Q) (lift_sum r)"
  by (cases r) (simp_all add: lift_sum_def phase_frame.frame_raise phase_frame.frame_ret)

lemma k_call_meta: "k_call st f s = (r, t) \<Longrightarrow> kt_meta t = kt_meta s"
  by (auto simp: k_call_def split: prod.splits)

lemma phases_k_call [frame_rules]: "\<not> is_status st \<Longrightarrow> keeps (phases Q) (k_call st f)"
  by (rule keepsI, frule k_call_meta, erule k_call_cases) (auto simp: phases_def)

lemma phases_delay [frame_rules]: "keeps (phases Q) (delayIfRequeueAfterError e)"
  unfolding delayIfRequeueAfterError_def by (intro frame_rules)

text \<open>What a send of the whole object leaves.\<close>

lemma send_run:
  assumes "send st f s = (r, t)"
  shows "kt_log t = kt_log s @ [st]" and "kt_meta t = kt_meta s \<or>
    (\<exists>e m' e'. f (ctl_object s) e = (Inr (m', kt_meta t), e'))"
  using assms by (auto simp: send_def gets_def bnd_eq_Ok set_object_def modify_def bnd_def handle_def k_call_def raise_def
      split: prod.splits outcome.splits sum.splits)

lemma setLifecycleHookConditions_fields [simp]:
  "mt_Phase (setLifecycleHookConditions m) = mt_Phase m" "mt_Deleted (setLifecycleHookConditions m) = mt_Deleted m"
  by (simp_all add: setLifecycleHookConditions_def set_condition_def Let_def)

lemma set_condition_fields [simp]: "mt_Phase (set_condition t c m) = mt_Phase m" "mt_Deleted (set_condition t c m) = mt_Deleted m"
  by (simp_all add: set_condition_def)

lemma status_fields_fields [simp]: "phase_of (status_fields ph c m) = ph" "mt_Deleted (status_fields ph c m) = mt_Deleted m"
  by (simp_all add: status_fields_def Let_def split: option.split)

lemma phases_send:
  assumes "\<And>obj e obj' e'. f obj e = (Inr obj', e') \<Longrightarrow> phase_of (snd obj') = phase_of (snd obj) \<and> mt_Deleted (snd obj') = mt_Deleted (snd obj)"
    and "\<not> is_status st"
  shows "keeps (phases Q) (send st f)"
proof (rule keepsI)
  fix s r t assume run: "send st f s = (r, t)"
  from send_run(2) [OF run] have "phase_of (kt_meta t) = phase_of (kt_meta s) \<and> mt_Deleted (kt_meta t) = mt_Deleted (kt_meta s)"
    using assms(1) by fastforce
  with send_run(1) [OF run] assms(2) show "phases Q s t" by (auto simp: phases_def)
qed

section \<open>Operations\<close>

lemma phases_status_last:
  assumes "stable_phase K" and "Q ph"
  shows "keeps (phases Q) (bnd (modify_meta (status_fields ph c)) (\<lambda>_. send (K_Status ph) (\<lambda>obj. k_PatchStatus K obj base)))"
proof (rule keepsI)
  fix s r s'
  assume "bnd (modify_meta (status_fields ph c)) (\<lambda>_. send (K_Status ph) (\<lambda>obj. k_PatchStatus K obj base)) s = (r, s')"
  then have run: "send (K_Status ph) (\<lambda>obj. k_PatchStatus K obj base) (s\<lparr>kt_meta := status_fields ph c (kt_meta s)\<rparr>) = (r, s')"
    by (simp add: modify_meta_def modify_def bnd_eq_Ok)
  from send_run(2) [OF run] have "phase_of (kt_meta s') = ph \<and> mt_Deleted (kt_meta s') = mt_Deleted (kt_meta s)"
    using stable_phaseD(1) [OF assms(1)] by fastforce
  with send_run(1) [OF run] assms(2) show "phases Q s s'" by (simp add: phases_def)
qed

lemma phases_updateStatus:
  assumes "stable_phase K" and "Q ph"
  shows "keeps (phases Q) (updateStatus K oc ph c)"
proof -
  have "keeps (phases Q) (patchFailedMachineInstanceAnnotation K)"
    unfolding patchFailedMachineInstanceAnnotation_def
    by (intro frame_rules phases_send) (simp_all add: stable_phaseD(2) [OF assms(1)])
  moreover have "keeps (phases Q) (overrideFailedMachineProviderStatusState K)"
    unfolding overrideFailedMachineProviderStatusState_def by (intro frame_rules) simp_all
  ultimately show ?thesis
    unfolding updateStatus_def Let_def by (intro frame_rules phases_status_last [where Q = Q, OF assms]) simp_all
qed

lemma phases_updateStatus_same:
  assumes "stable_phase K"
  shows "keeps (phases Q) (updateStatus_same K oc c)"
proof (rule keepsI)
  fix s r s' assume "updateStatus_same K oc c s = (r, s')"
  then have run: "updateStatus K oc (phase_of (kt_meta s)) c s = (r, s')"
    by (simp add: updateStatus_same_def gets_def bnd_eq_Ok)
  show "phases Q s s'"
    using keepsD [OF phases_updateStatus [OF assms] run, of Q] by (auto simp: phases_def)
qed

lemma phases_check:
  assumes "stable_phase K"
  shows "keeps (phases Q) (check_authority K)" "keeps (phases Q) (check_valid K)"
proof -
  have send: "keeps (phases Q) (send K_Authority (\<lambda>obj. k_PatchStatus K obj base))" for base
    by (rule phases_send) (simp_all add: stable_phaseD(1) [OF assms])
  show "keeps (phases Q) (check_authority K)"
    unfolding check_authority_def ensureUpdatedPausedCondition_def Let_def
    by (intro frame_rules send phases_updateStatus_same [OF assms]) simp_all
  show "keeps (phases Q) (check_valid K)"
    unfolding check_valid_def Let_def by (intro frame_rules)
qed

lemma phases_call_actuator:
  "stable_phase K \<Longrightarrow> (\<And>y. \<not> is_status (step y)) \<Longrightarrow> keeps (phases Q) (call_actuator K x step f)"
  by (rule keepsI) (auto simp: call_actuator_def phases_def stable_phaseD split: prod.splits dest!: arg_cong [of "K_Status _" _ is_status])

lemma phases_calls:
  assumes "stable_phase K"
  shows "keeps (phases Q) (call_Create K I)" "keeps (phases Q) (call_Delete K I)" "keeps (phases Q) (call_Update K I)"
    "keeps (phases Q) (call_Exists K I)"
  unfolding call_Create_def call_Delete_def call_Update_def call_Exists_def
  by (rule phases_call_actuator [OF assms]; simp)+

lemma phases_deleteNode [frame_rules]: "keeps (phases Q) (deleteNode K n)"
  unfolding deleteNode_def by (intro frame_rules) simp_all

lemmas phases_parts = phases_updateStatus phases_updateStatus_same phases_calls phases_check

lemma phases_deleted:
  assumes "stable_phase K" and "Q PhaseDeleting"
  shows "keeps (phases Q) (reconcile_deleted K oc I)"
proof -
  have "keeps (phases Q) (send K_RemoveFinalizer (k_Update K))"
    by (rule phases_send) (simp_all add: stable_phaseD(3) [OF assms(1)])
  then show ?thesis
    unfolding reconcile_deleted_def finish_delete_def by (intro frame_rules phases_parts assms) simp_all
qed

lemma phases_existing:
  assumes "stable_phase K" and "Q PhaseProvisioned" and "Q PhaseRunning"
  shows "keeps (phases Q) (reconcile_existing K oc I)"
  unfolding reconcile_existing_def by (intro frame_rules phases_parts assms) simp_all

text \<open>Only a machine without a phase gets the phase \<^verbatim>\<open>Provisioning\<close>.\<close>

lemma phases_missing:
  assumes "stable_phase K" and "Q PhaseFailed" and "phase_of (kt_meta s) = [] \<Longrightarrow> Q PhaseProvisioning"
    and run: "reconcile_missing K oc I s = (r, s')"
  shows "phases Q s s'"
proof -
  have parts: "keeps (phases Q) (instance_missing K oc)" "keeps (phases Q) (create_instance K oc I)"
    unfolding instance_missing_def create_instance_def by (intro frame_rules phases_parts assms(1,2); simp)+
  let ?c = "set_condition ''InstanceExists'' (FalseCondition ''InstanceNotCreated'' ''Warning'' ''Instance has not been created'')"
  let ?t = "s\<lparr>kt_meta := ?c (kt_meta s)\<rparr>"
  have t: "phases Q s ?t" "phase_of (kt_meta ?t) = phase_of (kt_meta s)" by (simp_all add: phases_def)
  from run consider "instance_missing K oc s = (r, s')"
    | "phase_of (kt_meta s) = []" "bnd (updateStatus K oc PhaseProvisioning None) (\<lambda>_. ret no_requeue) ?t = (r, s')"
    | "create_instance K oc I ?t = (r, s')"
    by (auto simp: reconcile_missing_def gets_def bnd_eq_Ok modify_meta_def modify_def split: if_splits)
  then show ?thesis
  proof cases
    case 2
    then have "keeps (phases Q) (bnd (updateStatus K oc PhaseProvisioning None) (\<lambda>_. ret no_requeue))"
      by (intro frame_rules phases_parts assms(1,3))
    from phase_frame.trans [OF t(1) keepsD [OF this 2(2)]] show ?thesis .
  qed (use t(1) in \<open>blast intro: phase_frame.trans keepsD [OF parts(1)] keepsD [OF parts(2)]\<close>)+
qed

lemma phases_live:
  assumes "stable_phase K" and "Q PhaseFailed" "Q PhaseProvisioned" "Q PhaseRunning" and "phase_of (kt_meta s) = [] \<Longrightarrow> Q PhaseProvisioning"
    and run: "reconcile_live K oc I s = (r, s')"
  shows "phases Q s s'"
proof (cases "machineIsFailed (kt_meta s)")
  case True
  with run show ?thesis by (simp add: reconcile_live_def gets_def bnd_eq_Ok ret_def phase_frame.refl)
next
  case False
  with run have h: "handle (call_Exists K I) (\<lambda>instanceExists. if instanceExists then reconcile_existing K oc I else reconcile_missing K oc I)
       (\<lambda>err. bnd (modify_meta (set_condition ''InstanceExists''
            (UnknownCondition ''ErrorCheckingProvider'' (''Failed to check if machine exists: '' @ err_Error err)))) (\<lambda>_.
          handle (updateStatus_same K oc (Some err)) (\<lambda>_. raise err) (\<lambda>_. raise err))) s = (r, s')"
    by (simp add: reconcile_live_def gets_def bnd_eq_Ok)
  from h show ?thesis
  proof (cases rule: handle_cases)
    case (ok b t)
    have st: "phases Q s t" by (rule keepsD [OF phases_calls(4) [OF assms(1)] ok(1)])
    have "phase_of (kt_meta t) = phase_of (kt_meta s)"
      using ok(1) by (auto simp: call_Exists_def call_actuator_def stable_phaseD(4) [OF assms(1)] split: prod.splits)
    then have "phases Q t s'"
      using ok(2) phases_missing [where Q = Q, OF assms(1,2)] assms(5) keepsD [OF phases_existing [where Q = Q, OF assms(1,3,4)]] by (auto split: if_splits)
    with st show ?thesis by (rule phase_frame.trans)
  next
    case (error e t)
    have "keeps (phases Q) (bnd (modify_meta (set_condition ''InstanceExists'' c)) (\<lambda>_. handle (updateStatus_same K oc x) (\<lambda>_. raise e) (\<lambda>_. raise e)))"
      for c x by (intro frame_rules phases_parts assms(1)) simp_all
    from phase_frame.trans [OF keepsD [OF phases_calls(4) [OF assms(1)] error(1)] keepsD [OF this error(2)]] show ?thesis .
  next
    case panic
    then show ?thesis by (blast intro: keepsD [OF phases_calls(4) [OF assms(1)]])
  qed
qed

section \<open>A whole reconcile\<close>

lemma phases_add_finalizer:
  assumes "stable_phase K"
  shows "keeps (phases Q) (add_finalizer K)"
proof -
  have "keeps (phases Q) (send K_AddFinalizer (k_Update K))"
    by (rule phases_send) (simp_all add: stable_phaseD(3) [OF assms])
  then show ?thesis unfolding add_finalizer_def by (intro frame_rules) simp_all
qed

abbreviation by_deletion :: "'e ctl_api \<Rightarrow> conditions \<Rightarrow> 'e Actuator_impl \<Rightarrow> ('e, ctl_Result) ctl_op" where
  "by_deletion K oc I \<equiv> bnd (gets (\<lambda>s. mt_Deleted (kt_meta s))) (\<lambda>deleted.
     if deleted then reconcile_deleted K oc I else reconcile_live K oc I)"

abbreviation after_valid :: "'e ctl_api \<Rightarrow> conditions \<Rightarrow> 'e Actuator_impl \<Rightarrow> ('e, ctl_Result) ctl_op" where
  "after_valid K oc I \<equiv> bnd (add_finalizer K) (\<lambda>added. if added then ret no_requeue else by_deletion K oc I)"

text \<open>The two branches, in a state with the phase and the deletion mark of the Machine that was read.\<close>

lemma phases_branch:
  assumes "stable_phase K" and "phase_of (kt_meta s) = phase_of mt" and "mt_Deleted (kt_meta s) = mt_Deleted mt"
    and run: "by_deletion K oc I s = (r, s')"
  shows "phases (next_phase mt) s s'"
proof (cases "mt_Deleted mt")
  case True
  with run assms(3) have "reconcile_deleted K oc I s = (r, s')" by (simp add: gets_def bnd_eq_Ok)
  with True show ?thesis by (blast intro: keepsD [OF phases_deleted [OF assms(1)]] next_phase.deleting)
next
  case False
  with run assms(3) have live: "reconcile_live K oc I s = (r, s')" by (simp add: gets_def bnd_eq_Ok)
  show ?thesis
  proof (cases "machineIsFailed mt")
    case True
    with live assms(2) show ?thesis
      by (simp add: reconcile_live_def machineIsFailed_def gets_def bnd_eq_Ok ret_def phase_frame.refl)
  next
    case nf: False
    with False show ?thesis
      by (intro phases_live [OF assms(1) _ _ _ _ live]) (auto simp: assms(2) intro: next_phase.intros)
  qed
qed

text \<open>Everything before the branches sends only the phase the machine has.\<close>

lemma phases_fetched:
  assumes "stable_phase K" and "kt_meta s = mt"
    and run: "bnd (check_authority K) (\<lambda>ours. if \<not> ours then ret no_requeue
          else bnd (check_valid K) (\<lambda>_. after_valid K oc I)) s = (r, s')"
  shows "phases (next_phase mt) s s'"
proof -
  let ?Q = "\<lambda>ph. ph = phase_of mt"
  have weaken: "phases (next_phase mt) s t" if "phases ?Q s t" for t
    using that assms(2) by (auto simp: phases_def intro: next_phase.same)
  have branch: "phases (next_phase mt) s s'" if "phases ?Q s t" "by_deletion K oc I t = (r, s')" for t
    using that(1) assms(2) by (intro phase_frame.trans [OF weaken [OF that(1)] phases_branch [OF assms(1) _ _ that(2)]]) (auto simp: phases_def)
  have keep: "keeps (phases ?Q) (check_authority K)" "keeps (phases ?Q) (check_valid K)" "keeps (phases ?Q) (add_finalizer K)"
    by (intro phases_check phases_add_finalizer assms(1))+
  have add: "phases (next_phase mt) s s'" if t: "phases ?Q s t" and "after_valid K oc I t = (r, s')" for t
    using that(2) unfolding bnd_def [of "add_finalizer K"]
    by (cases rule: handle_cases)
      (use phase_frame.trans [OF t keepsD [OF keep(3)]] weaken branch in \<open>auto simp: ret_def raise_def split: if_splits\<close>)
  have valid: "phases (next_phase mt) s s'" if t: "phases ?Q s t" and "bnd (check_valid K) (\<lambda>_. after_valid K oc I) t = (r, s')" for t
    using that(2) unfolding bnd_def [of "check_valid K"]
    by (cases rule: handle_cases)
      (use phase_frame.trans [OF t keepsD [OF keep(2)]] weaken add in \<open>auto simp: raise_def\<close>)
  show ?thesis
    using run unfolding bnd_def [of "check_authority K"]
  proof (cases rule: handle_cases)
    case (ok ours t)
    from keepsD [OF keep(1) ok(1)] ok(2) weaken valid show ?thesis by (cases ours) (auto simp: ret_def)
  qed (use keepsD [OF keep(1)] weaken in \<open>auto simp: raise_def\<close>)
qed

lemma ctl_Reconcile_phases:
  assumes "stable_phase K" and run: "ctl_Reconcile K I ns n s = (r, s')" and sent: "K_Status ph \<in> set (new_steps s s')"
  shows "\<exists>m mt e. k_Get K ns n (w_ext (kt_act s)) = (Inr (m, mt), e) \<and> next_phase mt ph"
  using run unfolding ctl_Reconcile_def
proof (cases rule: handle_cases)
  case (ok obj t)
  obtain m mt where obj: "obj = (m, mt)" by fastforce
  let ?u = "t\<lparr>kt_act := (kt_act t)\<lparr>ac_machine := m\<rparr>, kt_meta := mt\<rparr>"
  note get = k_call_Ok [OF ok(1), unfolded obj]
  have "phases (next_phase mt) ?u s'"
    by (rule phases_fetched [OF assms(1)])
      (use ok(2) in \<open>simp_all add: obj Let_def set_object_def modify_def bnd_eq_Ok\<close>)
  then obtain ks where "kt_log s' = kt_log t @ ks" "\<And>ph. K_Status ph \<in> set ks \<Longrightarrow> next_phase mt ph"
    using next_phase.same by (auto simp: phases_def)
  with get sent show ?thesis by (auto simp: new_steps_def)
next
  case (error e t)
  with k_call_Err [OF error(1)] sent show ?thesis by (auto simp: new_steps_def ret_def raise_def split: if_splits)
qed (auto elim: k_call_cases)

end
