(* ===== verification/Progress.thy ===== *)
theory Progress
  imports Life_Cycle
begin

text \<open>
  Progress of a Machine over several reconciles, with an API server that stores what the controllers
  send: from a new Machine to the call that creates its instance, and from the deletion mark through
  the drain to the removal of the finalizer.  Each stage is one reconcile, stated as a total triple:
  the run returns, and what the server holds afterwards.
\<close>

section \<open>Runs that return\<close>

definition ends :: "('s, 'e, 'a) op \<Rightarrow> 's \<Rightarrow> ('a \<Rightarrow> 's \<Rightarrow> bool) \<Rightarrow> bool" where
  "ends m s Q \<longleftrightarrow> (\<exists>x t. m s = (Ok x, t) \<and> Q x t)"

named_theorems ends_simps

lemma ends_basic [ends_simps]:
  "ends (ret x) s Q \<longleftrightarrow> Q x s" "ends (gets f) s Q' \<longleftrightarrow> Q' (f s) s" "ends (modify g) s Q'' \<longleftrightarrow> Q'' () (g s)"
  by (simp_all add: ends_def ret_def gets_def modify_def)

lemma ends_bnd [ends_simps]: "ends (bnd m f) s Q \<longleftrightarrow> ends m s (\<lambda>x t. ends (f x) t Q)"
  by (auto simp: ends_def bnd_def handle_def raise_def split: prod.splits outcome.splits)

lemma ends_state [ends_simps]:
  "ends (modify_meta f) s Q \<longleftrightarrow> Q () (s\<lparr>kt_meta := f (kt_meta s)\<rparr>)"
  "ends (set_object obj) s Q \<longleftrightarrow> Q () (s\<lparr>kt_act := (kt_act s)\<lparr>ac_machine := fst obj\<rparr>, kt_meta := snd obj\<rparr>)"
  "ends (ctl_event ty reason note) s Q \<longleftrightarrow> Q () (s\<lparr>kt_act := (kt_act s)\<lparr>w_events := w_events (kt_act s) @
     [\<lparr>ev_Type = ty, ev_Reason = reason, ev_Message = note\<rparr>]\<rparr>\<rparr>)"
  by (simp_all add: modify_meta_def set_object_def ctl_event_def ends_simps)

lemma ends_handle: "ends m s (\<lambda>x t. ends (f x) t Q) \<Longrightarrow> ends (handle m f g) s Q"
  by (auto simp: ends_def handle_eq_Ok)

lemma ends_handle_Err: "m s = (Err e, t) \<Longrightarrow> ends (g e) t Q \<Longrightarrow> ends (handle m f g) s Q"
  by (simp add: ends_def handle_def)

lemma ends_conseq: "ends m s P \<Longrightarrow> (\<And>x t. P x t \<Longrightarrow> Q x t) \<Longrightarrow> ends m s Q"
  by (auto simp: ends_def)

lemma ends_bndI: "ends m s P \<Longrightarrow> (\<And>x t. P x t \<Longrightarrow> ends (f x) t Q) \<Longrightarrow> ends (bnd m f) s Q"
  unfolding ends_bnd by (rule ends_conseq)

lemma ends_k_call [ends_simps]: "ends (k_call st f) s Q \<longleftrightarrow> (\<exists>x e. f (w_ext (kt_act s)) = (Inr x, e) \<and>
    Q x (s\<lparr>kt_act := (kt_act s)\<lparr>w_ext := e\<rparr>, kt_log := kt_log s @ [st]\<rparr>))"
  by (auto simp: ends_def k_call_def split: prod.splits sum.splits)

section \<open>A server that stores\<close>

text \<open>
  \<open>obj\<close> reads the Machine the server holds and \<open>V\<close> whatever else the provider's answers depend on.  A read
  gives the Machine; a write stores what was sent, with a new resource version, and answers with it.
\<close>

definition version :: "string \<Rightarrow> machine_object \<Rightarrow> machine_object" where
  "version ver x = ((fst x)\<lparr>m_ResourceVersion := ver\<rparr>, snd x)"

definition stores :: "'e ctl_api \<Rightarrow> string \<Rightarrow> string \<Rightarrow> ('e \<Rightarrow> machine_object) \<Rightarrow> ('e \<Rightarrow> 'v) \<Rightarrow> bool" where
  "stores K ns n obj V \<longleftrightarrow> \<not> k_Migration K \<and> (\<forall>e mt. k_after K MExists e mt = mt) \<and>
     (\<forall>e. \<exists>e'. k_Get K ns n e = (Inr (obj e), e') \<and> obj e' = obj e \<and> V e' = V e) \<and>
     (\<forall>x base e. \<exists>ver e'. k_PatchStatus K x base e = (Inr (version ver x), e') \<and> obj e' = version ver x \<and> V e' = V e) \<and>
     (\<forall>x e. \<exists>ver e'. k_Update K x e = (Inr (version ver x), e') \<and> obj e' = version ver x \<and> V e' = V e)"

lemma storesD:
  assumes "stores K ns n obj V"
  shows "\<not> k_Migration K" "k_after K MExists e mt = mt"
    and "\<exists>e'. k_Get K ns n e = (Inr (obj e), e') \<and> obj e' = obj e \<and> V e' = V e"
    and "\<exists>ver e'. k_PatchStatus K x base e = (Inr (version ver x), e') \<and> obj e' = version ver x \<and> V e' = V e"
    and "\<exists>ver e'. k_Update K x e = (Inr (version ver x), e') \<and> obj e' = version ver x \<and> V e' = V e"
  using assms unfolding stores_def by blast+

definition in_store :: "('e \<Rightarrow> machine_object) \<Rightarrow> ('e \<Rightarrow> 'v) \<Rightarrow> Machine \<Rightarrow> machine_meta \<Rightarrow> 'v \<Rightarrow> 'e ctlState \<Rightarrow> bool" where
  "in_store obj V m mt v s \<longleftrightarrow> (\<exists>ver. obj (w_ext (kt_act s)) = version ver (m, mt)) \<and> V (w_ext (kt_act s)) = v"

text \<open>The local object is the one in the store.\<close>

definition in_sync :: "('e \<Rightarrow> machine_object) \<Rightarrow> ('e \<Rightarrow> 'v) \<Rightarrow> Machine \<Rightarrow> machine_meta \<Rightarrow> 'v \<Rightarrow> 'e ctlState \<Rightarrow> bool" where
  "in_sync obj V m mt v s \<longleftrightarrow> in_store obj V m mt v s \<and> obj (w_ext (kt_act s)) = ctl_object s"

text \<open>The local object alone.\<close>

definition at_hand :: "('e \<Rightarrow> 'v) \<Rightarrow> Machine \<Rightarrow> machine_meta \<Rightarrow> 'v \<Rightarrow> 'e ctlState \<Rightarrow> bool" where
  "at_hand V m mt v s \<longleftrightarrow> (\<exists>ver. ctl_machine s = m\<lparr>m_ResourceVersion := ver\<rparr>) \<and> kt_meta s = mt \<and> V (w_ext (kt_act s)) = v"

lemma at_handE:
  assumes "at_hand V m mt v s"
  obtains ver where "ctl_machine s = m\<lparr>m_ResourceVersion := ver\<rparr>" "kt_meta s = mt" "V (w_ext (kt_act s)) = v"
  using assms by (auto simp: at_hand_def)

lemma in_syncD:
  assumes "in_sync obj V m mt v s"
  shows "at_hand V m mt v s" "kt_meta s = mt" "V (w_ext (kt_act s)) = v" "in_store obj V m mt v s"
  using assms by (auto simp: in_sync_def in_store_def at_hand_def version_def)

lemma in_sync_cong:
  assumes "in_sync obj V m mt v s" and "ctl_object t = ctl_object s"
    and "(obj (w_ext (kt_act t)), V (w_ext (kt_act t))) = (obj (w_ext (kt_act s)), V (w_ext (kt_act s)))"
  shows "in_sync obj V m mt v t"
  using assms by (auto simp: in_sync_def in_store_def)

text \<open>What is read of a Machine does not depend on its version.\<close>

lemma version_reads [simp]:
  "ctl_validateMachine (m\<lparr>m_ResourceVersion := ver\<rparr>) = ctl_validateMachine m"
  "machineIsProvisioned (m\<lparr>m_ResourceVersion := ver\<rparr>) = machineIsProvisioned m"
  "has_drainable_node (m\<lparr>m_ResourceVersion := ver\<rparr>) = has_drainable_node m"
  by (simp_all add: ctl_validateMachine_def machineIsProvisioned_def has_drainable_node_def)

lemma ends_send:
  assumes "\<And>x e. \<exists>ver e'. f x e = (Inr (version ver x), e') \<and> obj e' = version ver x \<and> V e' = V e" and "at_hand V m mt v s"
  shows "ends (send st f) s (\<lambda>_ t. in_sync obj V m mt v t \<and> kt_log t = kt_log s @ [st])"
  using assms(2)
proof (rule at_handE)
  obtain w e' where "f (ctl_object s) (w_ext (kt_act s)) = (Inr (version w (ctl_object s)), e')"
    "obj e' = version w (ctl_object s)" "V e' = V (w_ext (kt_act s))"
    using assms(1) by blast
  moreover fix ver assume "ctl_machine s = m\<lparr>m_ResourceVersion := ver\<rparr>" "kt_meta s = mt" "V (w_ext (kt_act s)) = v"
  ultimately show ?thesis
    unfolding send_def by (auto simp: ends_simps in_sync_def in_store_def version_def)
qed

abbreviation with_phase :: "string \<Rightarrow> machine_meta \<Rightarrow> machine_meta" where
  "with_phase ph mt \<equiv> status_fields ph None (setLifecycleHookConditions mt)"

lemma with_phase_fields [simp]:
  "mt_Phase (with_phase ph mt) = Some ph" "mt_Finalizers (with_phase ph mt) = mt_Finalizers mt"
  "mt_PreDrain (with_phase ph mt) = mt_PreDrain mt" "mt_PreTerminate (with_phase ph mt) = mt_PreTerminate mt"
  "mt_Conditions (with_phase ph mt) ''Drained'' = mt_Conditions mt ''Drained''"
  by (simp_all add: status_fields_def setLifecycleHookConditions_def set_condition_def Let_def)

text \<open>A status update stores the phase, and what follows it runs in sync.\<close>

lemma ends_status:
  assumes "stores K ns n obj V" and "ph \<noteq> PhaseFailed" and t: "at_hand V m mt v t"
    and rest: "\<And>u. in_sync obj V m (with_phase ph mt) v u \<Longrightarrow> ends f u Q"
  shows "ends (bnd (updateStatus K oc ph None) (\<lambda>_. f)) t Q"
proof -
  have "at_hand V m (with_phase ph mt) v (t\<lparr>kt_meta := with_phase ph mt\<rparr>)" using t by (auto simp: at_hand_def)
  from ends_send [OF storesD(4) [OF assms(1)] this]
  have "ends (send (K_Status ph) (\<lambda>x. k_PatchStatus K x base)) (t\<lparr>kt_meta := with_phase ph mt\<rparr>) (\<lambda>_ u. ends f u Q)" for base
    by (rule ends_conseq) (use rest in blast)
  with assms(2) t show ?thesis unfolding updateStatus_def by (auto simp: ends_simps Let_def at_hand_def)
qed

lemma phase_distinct [simp]: "PhaseDeleting \<noteq> PhaseFailed" "PhaseProvisioning \<noteq> PhaseFailed" "PhaseProvisioning \<noteq> []"
  by (simp_all add: PhaseDeleting_def PhaseFailed_def PhaseProvisioning_def)

text \<open>A reconcile of a valid Machine starts with its object as stored.\<close>

lemma ends_Reconcile:
  assumes "stores K ns n obj V" and "in_store obj V m mt v s" and "ctl_validateMachine m"
    and "\<And>t. in_sync obj V m mt v t \<Longrightarrow> kt_log t = kt_log s @ [K_Get] \<Longrightarrow>
       ends (after_valid K (mt_Conditions mt) I) t Q"
  shows "ends (ctl_Reconcile K I ns n) s Q"
proof -
  obtain e where get: "k_Get K ns n (w_ext (kt_act s)) = (Inr (obj (w_ext (kt_act s))), e)"
    "obj e = obj (w_ext (kt_act s))" "V e = V (w_ext (kt_act s))" and mig: "\<not> k_Migration K"
    using storesD(1,3) [OF assms(1)] by blast
  obtain ver where obj: "obj (w_ext (kt_act s)) = version ver (m, mt)" "V (w_ext (kt_act s)) = v"
    using assms(2) by (auto simp: in_store_def)
  let ?t = "s\<lparr>kt_log := kt_log s @ [K_Get], kt_act := (kt_act s)\<lparr>w_ext := e, ac_machine := m\<lparr>m_ResourceVersion := ver\<rparr>\<rparr>, kt_meta := mt\<rparr>"
  have "in_sync obj V m mt v ?t" using get obj by (auto simp: in_sync_def in_store_def version_def)
  from assms(4) [OF this] get obj mig assms(3) show ?thesis
    unfolding ctl_Reconcile_def
    by (intro ends_handle) (simp add: ends_simps version_def check_authority_def check_valid_def Let_def cong: if_cong)
qed

section \<open>Deletion\<close>

text \<open>A node that is gone already, or can be deleted.\<close>

definition frees_nodes :: "'e ctl_api \<Rightarrow> bool" where
  "frees_nodes K \<longleftrightarrow> (\<forall>n e. fst (k_DeleteNode K n e) = Inr ()) \<and>
     (\<forall>n e. case fst (k_GetNode K n e) of Inl err \<Rightarrow> apierrors_IsNotFound err | Inr _ \<Rightarrow> True)"

text \<open>The provider deletes the instance of a machine, while what it depends on is \<open>v\<close>.\<close>

definition deletable :: "'e Actuator_impl \<Rightarrow> ('e \<Rightarrow> 'v) \<Rightarrow> 'v \<Rightarrow> Machine \<Rightarrow> bool" where
  "deletable I V v m \<longleftrightarrow> (\<forall>a ver. V (w_ext a) = v \<and> ac_machine a = m\<lparr>m_ResourceVersion := ver\<rparr> \<longrightarrow>
     (\<exists>a' b. i_Delete I a = (Ok (), a') \<and> i_Exists I a' = (Ok False, b)))"

text \<open>The node of a machine can be drained: every call succeeds, or the node is gone, and none touches the Machine.\<close>

definition drains :: "'e drain_api \<Rightarrow> string \<Rightarrow> ('e \<Rightarrow> 'v) \<Rightarrow> bool" where
  "drains D name V \<longleftrightarrow>
     (\<forall>e. \<exists>e'. d_NewForConfig D e = (Inr (), e') \<and> V e' = V e) \<and>
     (\<forall>e. case d_GetNode D name e of
         (Inl err, e') \<Rightarrow> apierrors_IsNotFound err \<and> V e' = V e
       | (Inr node, e') \<Rightarrow> V e' = V e \<and> (nd_Unschedulable node \<or> \<not> isControlPlaneNode node \<or>
           (\<exists>nodes e''. d_ListNodes D e' = (Inr nodes, e'') \<and> V e'' = V e \<and> \<not> list_ex cordoned_control_plane nodes))) \<and>
     (\<forall>node e. \<exists>e'. d_PatchNode D node True e = (Inr (), e') \<and> V e' = V e) \<and>
     (\<forall>h n e. \<exists>e'. d_RunNodeDrain D h n e = (Inr (), e') \<and> V e' = V e)"

lemma deleteNode_ends:
  assumes "frees_nodes K"
  shows "ends (deleteNode K n) s (\<lambda>_ _. True)"
proof -
  obtain r t where run: "k_call (K_GetNode n) (k_GetNode K n) s = (r, t)" by fastforce
  from run show ?thesis
  proof (cases rule: k_call_cases)
    case (ok x)
    obtain d e where "k_DeleteNode K n (w_ext (kt_act t)) = (d, e)" by fastforce
    with assms have "k_DeleteNode K n (w_ext (kt_act t)) = (Inr (), e)" by (metis fst_conv frees_nodes_def)
    with run ok show ?thesis by (simp add: ends_def deleteNode_def handle_eq_Ok k_call_def)
  next
    case (err e)
    with assms have "apierrors_IsNotFound e" unfolding frees_nodes_def by (metis fst_conv sum.case(1))
    with run err show ?thesis by (simp add: ends_def deleteNode_def handle_def ret_def)
  qed
qed

text \<open>First reconcile: the phase Deleting is stored, and the machine waits for its drain.\<close>

lemma mark_deleting:
  assumes "stores K ns n obj V" and "in_store obj V m mt v s" and "ctl_validateMachine m" and "mt_Deleted mt" and "\<not> alreadyDrained mt"
  shows "ends (ctl_Reconcile K I ns n) s (\<lambda>r t. r = no_requeue \<and> in_store obj V m (with_phase PhaseDeleting mt) v t)"
proof (rule ends_Reconcile [OF assms(1-3)])
  let ?Q = "\<lambda>r t. r = no_requeue \<and> in_store obj V m (with_phase PhaseDeleting mt) v t"
  fix t assume t: "in_sync obj V m mt v t"
  have "ends (reconcile_deleted K oc I) t ?Q" for oc
    unfolding reconcile_deleted_def
  proof (rule ends_status [OF assms(1) phase_distinct(1) in_syncD(1) [OF t]])
    fix u assume "in_sync obj V m (with_phase PhaseDeleting mt) v u"
    from in_syncD(2,4) [OF this] assms(5)
    show "ends (bnd (gets kt_meta) (\<lambda>m. if MachineFinalizer \<notin> set (mt_Finalizers m) then ret no_requeue
       else if map_option mc_Status (mt_Conditions m ''Drained'') \<noteq> Some ConditionTrue then ret no_requeue
       else f m)) u ?Q" for f
      by (simp add: ends_simps alreadyDrained_def)
  qed
  with in_syncD(2) [OF t] assms(4) show "ends (after_valid K (mt_Conditions mt) I) t ?Q" by (simp add: add_finalizer_def ends_simps)
qed

text \<open>Then the drain controller: the node is drained, or there is none to drain, and the mark is stored.\<close>

lemma isDrainAllowed_ends:
  assumes "nd_Unschedulable node \<or> \<not> isControlPlaneNode node \<or>
     (\<exists>nodes e. d_ListNodes D (w_ext (kt_act s)) = (Inr nodes, e) \<and> V e = v \<and> \<not> list_ex cordoned_control_plane nodes)"
    and "V (w_ext (kt_act s)) = v"
  shows "ends (isDrainAllowed D node) s (\<lambda>_ t. ctl_object t = ctl_object s \<and> V (w_ext (kt_act t)) = v)"
proof -
  have loop: "ends (other_nodes_loop nodes) t Q \<longleftrightarrow> \<not> list_ex cordoned_control_plane nodes \<and> Q () t" for nodes t Q
    by (simp add: ends_def other_nodes_loop_eq)
  from assms show ?thesis
    unfolding isDrainAllowed_def by (auto simp: ends_simps loop intro!: ends_handle)
qed

lemma drain_found_ends:
  assumes D: "drains D name V" and get: "d_GetNode D name e = (Inr node, w_ext (kt_act s))"
  shows "ends (drain_found D node) s (\<lambda>_ t. ctl_object t = ctl_object s \<and> V (w_ext (kt_act t)) = V e)"
proof -
  have e: "V (w_ext (kt_act s)) = V e" and allow: "nd_Unschedulable node \<or> \<not> isControlPlaneNode node \<or>
     (\<exists>nodes e'. d_ListNodes D (w_ext (kt_act s)) = (Inr nodes, e') \<and> V e' = V e \<and> \<not> list_ex cordoned_control_plane nodes)"
    using D get unfolding drains_def by (auto dest!: spec [of _ e])
  have patch: "\<exists>e'. d_PatchNode D node True x = (Inr (), e') \<and> V e' = V x" and run: "\<exists>e'. d_RunNodeDrain D h n x = (Inr (), e') \<and> V e' = V x" for x h n
    using D unfolding drains_def by blast+
  have cordon: "ends (RunCordonOrUncordon D node True) t (\<lambda>_ u. ctl_object u = ctl_object t \<and> V (w_ext (kt_act u)) = V (w_ext (kt_act t)))" for t
    using patch [of "w_ext (kt_act t)"] unfolding RunCordonOrUncordon_def by (auto simp: ends_simps intro!: ends_handle)
  have drain: "ends (bnd (k_call st (d_RunNodeDrain D h n)) (\<lambda>_. ctl_event ty reason msg)) t
      (\<lambda>_ u. ctl_object u = ctl_object t \<and> V (w_ext (kt_act u)) = V (w_ext (kt_act t)))" for st h n ty reason msg t
    using run [of h n "w_ext (kt_act t)"] by (auto simp: ends_simps)
  show ?thesis
    unfolding drain_found_def
    by (intro ends_handle ends_conseq [OF isDrainAllowed_ends [OF allow e]] ends_conseq [OF cordon] ends_conseq [OF drain]) auto
qed

lemma drainNode_ends:
  assumes D: "drains D name V" and "m_NodeRef m = Some name"
  shows "ends (drainNode D m) s (\<lambda>_ t. ctl_object t = ctl_object s \<and> V (w_ext (kt_act t)) = V (w_ext (kt_act s)))"
proof -
  obtain e where new: "d_NewForConfig D (w_ext (kt_act s)) = (Inr (), e)" "V e = V (w_ext (kt_act s))"
    using D unfolding drains_def by blast
  let ?t = "s\<lparr>kt_act := (kt_act s)\<lparr>w_ext := e\<rparr>, kt_log := kt_log s @ [D_NewClient]\<rparr>"
  have "ends (handle (k_call (D_GetNode name) (d_GetNode D name)) (drain_found D)
      (\<lambda>err. if apierrors_IsNotFound err then ret () else raise (f err))) ?t
     (\<lambda>_ t. ctl_object t = ctl_object s \<and> V (w_ext (kt_act t)) = V (w_ext (kt_act s)))" for f
  proof (cases "d_GetNode D name e")
    case (Pair r e')
    show ?thesis
    proof (cases r)
      case (Inl err)
      with D Pair new have "apierrors_IsNotFound err" "V e' = V (w_ext (kt_act s))"
        unfolding drains_def by (auto dest!: spec [of _ e])
      with Pair Inl show ?thesis by (intro ends_handle_Err) (auto simp: k_call_def ends_simps)
    next
      case (Inr node)
      with Pair new show ?thesis
        by (intro ends_handle) (auto simp: ends_simps intro!: ends_conseq [OF drain_found_ends [OF D, of e]])
    qed
  qed
  with new assms(2) show ?thesis
    unfolding drainNode_def by (intro ends_handle) (simp add: ends_simps deref_def)
qed

lemma drain_finished_ends:
  assumes "stores K ns n obj V" and "at_hand V m mt v s"
  shows "ends (drain_finished K base msg) s (\<lambda>r t. r = no_requeue \<and> in_store obj V m (set_condition ''Drained'' (TrueCondition\<lparr>mc_Message := msg\<rparr>) mt) v t)"
proof -
  let ?mt = "set_condition ''Drained'' (TrueCondition\<lparr>mc_Message := msg\<rparr>) mt"
  have "at_hand V m ?mt v (s\<lparr>kt_meta := ?mt\<rparr>)" using assms(2) by (auto simp: at_hand_def)
  from ends_send [OF storesD(4) [OF assms(1)] this]
  have "ends (send D_Status (\<lambda>x. k_PatchStatus K x base)) (s\<lparr>kt_meta := ?mt\<rparr>) (\<lambda>_ t. in_store obj V m ?mt v t)"
    by (rule ends_conseq) (blast dest: in_syncD(4))
  with assms(2) show ?thesis
    unfolding drain_finished_def ends_bnd by (auto simp: ends_simps at_hand_def intro!: ends_handle)
qed

lemma mark_drained:
  assumes K: "stores K ns n obj V" and s: "in_store obj V m mt v s" and due: "drain_due mt"
    and D: "has_drainable_node m \<Longrightarrow> mt_PreDrain mt = [] \<and> drains D (the (m_NodeRef m)) (\<lambda>e. (obj e, V e))"
  shows "ends (drain_Reconcile K D ns n) s (\<lambda>r t. r = no_requeue \<and>
     (\<exists>msg. in_store obj V m (set_condition ''Drained'' (TrueCondition\<lparr>mc_Message := msg\<rparr>) mt) v t))"
proof -
  let ?Q = "\<lambda>r t. r = no_requeue \<and> (\<exists>msg. in_store obj V m (set_condition ''Drained'' (TrueCondition\<lparr>mc_Message := msg\<rparr>) mt) v t)"
  have finish: "ends (bnd (ctl_event ty reason what) (\<lambda>_. drain_finished K base msg)) t ?Q" if "in_sync obj V m mt v t" for t ty reason what base msg
    unfolding ends_bnd ends_state
    by (rule ends_conseq [OF drain_finished_ends [OF K in_syncD(1) [OF in_sync_cong [OF that]]]]) auto
  obtain e ver where get: "k_Get K ns n (w_ext (kt_act s)) = (Inr (version ver (m, mt)), e)" "obj e = version ver (m, mt)" "V e = v"
    using storesD(3) [OF K, of "w_ext (kt_act s)"] s by (auto simp: in_store_def)
  let ?t = "s\<lparr>kt_log := kt_log s @ [K_Get], kt_act := (kt_act s)\<lparr>w_ext := e, ac_machine := m\<lparr>m_ResourceVersion := ver\<rparr>\<rparr>, kt_meta := mt\<rparr>"
  have t: "in_sync obj V m mt v ?t" using get by (auto simp: in_sync_def in_store_def version_def)
  have "ends (drain_machine K D (version ver (m, mt))) ?t ?Q"
  proof (cases "has_drainable_node m")
    case False
    with finish [OF t] show ?thesis by (simp add: drain_machine_def version_def)
  next
    case True
    then obtain name where name: "m_NodeRef m = Some name" by (auto simp: has_drainable_node_def)
    with D [OF True] have D: "mt_PreDrain mt = []" "drains D name (\<lambda>e. (obj e, V e))" by auto
    have drained: "ends (drainNode D (m\<lparr>m_ResourceVersion := ver\<rparr>)) u (\<lambda>_. in_sync obj V m mt v)" if "in_sync obj V m mt v u" for u
      by (rule ends_conseq [OF drainNode_ends [OF D(2)]]) (use name in_sync_cong [OF that] in auto)
    have "ends (bnd (ctl_event ty reason what) (\<lambda>_. handle (drainNode D (m\<lparr>m_ResourceVersion := ver\<rparr>))
        (\<lambda>_. bnd (ctl_event ty' reason' what') (\<lambda>_. drain_finished K base msg)) g)) ?t ?Q" for ty reason what ty' reason' what' base msg g
      unfolding ends_bnd [of "ctl_event ty reason what"] ends_state
      by (rule ends_handle, rule ends_conseq [OF drained [OF in_sync_cong [OF t]]]) (use finish in auto)
    with True D(1) show ?thesis by (simp add: drain_machine_def version_def)
  qed
  with get due show ?thesis
    unfolding drain_Reconcile_def by (intro ends_handle) (simp add: ends_simps version_def cong: if_cong)
qed

text \<open>And the machine controller again: the instance is deleted and the finalizer removed.\<close>

lemma finish_delete_ends:
  assumes K: "stores K ns n obj V" and "frees_nodes K" and ex: "i_Exists I (kt_act s) = (Ok False, b)"
  shows "ends (finish_delete K I) s (\<lambda>r t. r = no_requeue \<and> MachineFinalizer \<notin> set (mt_Finalizers (snd (obj (w_ext (kt_act t))))))"
proof -
  let ?Q = "\<lambda>r t. r = no_requeue \<and> MachineFinalizer \<notin> set (mt_Finalizers (snd (obj (w_ext (kt_act t)))))"
  let ?R = "bnd (modify_meta (\<lambda>m. m\<lparr>mt_Finalizers := filter (\<lambda>f. f \<noteq> MachineFinalizer) (mt_Finalizers m)\<rparr>)) (\<lambda>_.
       bnd (send K_RemoveFinalizer (k_Update K)) (\<lambda>_. ret no_requeue))"
  have remove: "ends ?R t ?Q" for t
  proof -
    let ?mt = "(kt_meta t)\<lparr>mt_Finalizers := filter (\<lambda>f. f \<noteq> MachineFinalizer) (mt_Finalizers (kt_meta t))\<rparr>"
    have "at_hand V (ctl_machine t) ?mt (V (w_ext (kt_act t))) (t\<lparr>kt_meta := ?mt\<rparr>)"
      by (auto simp: at_hand_def intro!: exI [of _ "m_ResourceVersion (ctl_machine t)"])
    from ends_send [OF storesD(5) [OF K] this] show ?thesis
      unfolding ends_bnd ends_state by (rule ends_conseq) (auto simp: ends_simps in_sync_def in_store_def version_def)
  qed
  have node: "ends (case ref of None \<Rightarrow> ret () | Some name \<Rightarrow> deleteNode K name) t (\<lambda>_ _. True)" for ref t
    by (cases ref) (simp_all add: ends_simps deleteNode_ends [OF assms(2)])
  have "ends (call_Exists K I) s (\<lambda>x t. x = False)"
    using ex by (auto simp: ends_def call_Exists_def call_actuator_def)
  then show ?thesis
    unfolding finish_delete_def
  proof (rule ends_bndI)
    have "ends (bnd (gets f) (\<lambda>ref. bnd (case ref of None \<Rightarrow> ret () | Some name \<Rightarrow> deleteNode K name) (\<lambda>_. ?R))) t ?Q" for f t
      unfolding ends_bnd [of "gets f"] ends_basic by (rule ends_bndI [OF node remove])
    then show "ends (if x then ret requeue_later else bnd (gets (\<lambda>s. m_NodeRef (ctl_machine s)))
        (\<lambda>ref. bnd (case ref of None \<Rightarrow> ret () | Some name \<Rightarrow> deleteNode K name) (\<lambda>_. ?R))) t ?Q" if "x = False" for x t
      using that by simp
  qed
qed

lemma let_go:
  assumes K: "stores K ns n obj V" and "frees_nodes K" and s: "in_store obj V m mt v s" "ctl_validateMachine m" and "mt_Deleted mt"
    and "may_delete mt" and "deletable I V v m"
  shows "ends (ctl_Reconcile K I ns n) s (\<lambda>r t. r = no_requeue \<and> MachineFinalizer \<notin> set (mt_Finalizers (snd (obj (w_ext (kt_act t))))))"
proof (rule ends_Reconcile [OF K s])
  let ?Q = "\<lambda>r t. r = no_requeue \<and> MachineFinalizer \<notin> set (mt_Finalizers (snd (obj (w_ext (kt_act t)))))"
  fix t assume t: "in_sync obj V m mt v t"
  have "ends (reconcile_deleted K oc I) t ?Q" for oc
    unfolding reconcile_deleted_def
  proof (rule ends_status [OF K phase_distinct(1) in_syncD(1) [OF t]])
    fix u assume "in_sync obj V m (with_phase PhaseDeleting mt) v u"
    note u = in_syncD [OF this]
    with assms(7) obtain a b where del: "i_Delete I (kt_act u) = (Ok (), a)" and ex: "i_Exists I a = (Ok False, b)"
      unfolding deletable_def at_hand_def by metis
    have "ends (call_Delete K I) u (\<lambda>_ w. kt_act w = a)"
      using del by (simp add: ends_def call_Delete_def call_actuator_def)
    then have "ends (handle (call_Delete K I) (\<lambda>_. finish_delete K I) g) u ?Q" for g
      by (intro ends_handle) (erule ends_conseq, rule finish_delete_ends [OF K assms(2)], use ex in auto)
    with u(2) assms(6) show "ends (bnd (gets kt_meta) (\<lambda>m. if MachineFinalizer \<notin> set (mt_Finalizers m) then ret no_requeue
       else if map_option mc_Status (mt_Conditions m ''Drained'') \<noteq> Some ConditionTrue then ret no_requeue
       else if mt_PreTerminate m \<noteq> [] then ret no_requeue
       else handle (call_Delete K I) (\<lambda>_. finish_delete K I) g)) u ?Q" for g
      by (simp add: ends_simps may_delete_def)
  qed
  with in_syncD(2) [OF t] assms(5) show "ends (after_valid K (mt_Conditions mt) I) t ?Q" by (simp add: add_finalizer_def ends_simps)
qed

section \<open>Creation\<close>

text \<open>The provider has no instance of a machine, and asking leaves what it depends on alone; then it can create one.\<close>

definition absent :: "'e Actuator_impl \<Rightarrow> ('e \<Rightarrow> 'v) \<Rightarrow> 'v \<Rightarrow> Machine \<Rightarrow> bool" where
  "absent I V v m \<longleftrightarrow> (\<forall>a ver. V (w_ext a) = v \<and> ac_machine a = m\<lparr>m_ResourceVersion := ver\<rparr> \<longrightarrow>
     (\<exists>a'. i_Exists I a = (Ok False, a') \<and> V (w_ext a') = v \<and> ac_machine a' = ac_machine a))"

definition creatable :: "'e Actuator_impl \<Rightarrow> ('e \<Rightarrow> 'v) \<Rightarrow> 'v \<Rightarrow> Machine \<Rightarrow> bool" where
  "creatable I V v m \<longleftrightarrow> (\<forall>a ver. V (w_ext a) = v \<and> ac_machine a = m\<lparr>m_ResourceVersion := ver\<rparr> \<longrightarrow> (\<exists>a'. i_Create I a = (Ok (), a')))"

text \<open>First reconcile: the finalizer is stored.\<close>

lemma take_over:
  assumes K: "stores K ns n obj V" and s: "in_store obj V m mt v s" "ctl_validateMachine m" and "\<not> mt_Deleted mt"
    and "MachineFinalizer \<notin> set (mt_Finalizers mt)"
  shows "ends (ctl_Reconcile K I ns n) s (\<lambda>r t. r = no_requeue \<and>
     in_store obj V m (mt\<lparr>mt_Finalizers := mt_Finalizers mt @ [MachineFinalizer]\<rparr>) v t)"
proof (rule ends_Reconcile [OF K s])
  let ?mt = "mt\<lparr>mt_Finalizers := mt_Finalizers mt @ [MachineFinalizer]\<rparr>"
  fix t assume "in_sync obj V m mt v t"
  note t = in_syncD [OF this]
  from t(1) have "at_hand V m ?mt v (t\<lparr>kt_meta := ?mt\<rparr>)" by (auto simp: at_hand_def)
  from ends_send [OF storesD(5) [OF K] this]
  have "ends (send K_AddFinalizer (k_Update K)) (t\<lparr>kt_meta := ?mt\<rparr>) (\<lambda>_ u. in_store obj V m ?mt v u)"
    by (rule ends_conseq) (blast dest: in_syncD(4))
  with t(2) assms(4,5) show "ends (after_valid K (mt_Conditions mt) I) t (\<lambda>r t. r = no_requeue \<and> in_store obj V m ?mt v t)"
    by (simp add: add_finalizer_def ends_simps)
qed

text \<open>A live machine without an instance, that never had one, is asked for and then taken care of.\<close>

lemma ends_missing:
  assumes K: "stores K ns n obj V" and s: "in_store obj V m mt v s" "ctl_validateMachine m" and "\<not> mt_Deleted mt"
    and "MachineFinalizer \<in> set (mt_Finalizers mt)" and "\<not> machineIsFailed mt" and "absent I V v m"
    and rest: "\<And>t. at_hand V m mt v t \<Longrightarrow> kt_log t = kt_log s @ [K_Get, K_Exists (Some False)] \<Longrightarrow> ends (reconcile_missing K (mt_Conditions mt) I) t Q"
  shows "ends (ctl_Reconcile K I ns n) s Q"
proof (rule ends_Reconcile [OF K s])
  fix t assume "in_sync obj V m mt v t" and log: "kt_log t = kt_log s @ [K_Get]"
  note t = in_syncD [OF this(1)]
  obtain a where a: "i_Exists I (kt_act t) = (Ok False, a)" "V (w_ext a) = v" "ac_machine a = ctl_machine t"
    using t(1) assms(7) unfolding at_hand_def absent_def by metis
  have "ends (call_Exists K I) t (\<lambda>x u. x = False \<and> at_hand V m mt v u \<and> kt_log u = kt_log t @ [K_Exists (Some False)])"
    using a t(1) storesD(2) [OF K] by (auto simp: ends_def call_Exists_def call_actuator_def at_hand_def)
  then have "ends (handle (call_Exists K I) (\<lambda>b. if b then f else reconcile_missing K (mt_Conditions mt) I) g) t Q" for f g
    by (intro ends_handle) (erule ends_conseq, use rest log in auto)
  with t(2) assms(4-6) show "ends (after_valid K (mt_Conditions mt) I) t Q"
    by (simp add: add_finalizer_def reconcile_live_def ends_simps)
qed

text \<open>Second reconcile: the phase Provisioning is stored.\<close>

abbreviation not_created :: "machine_meta \<Rightarrow> machine_meta" where
  "not_created \<equiv> set_condition ''InstanceExists'' (FalseCondition ''InstanceNotCreated'' ''Warning'' ''Instance has not been created'')"

lemma start_provisioning:
  assumes K: "stores K ns n obj V" and "in_store obj V m mt v s" "ctl_validateMachine m" "\<not> mt_Deleted mt"
    "MachineFinalizer \<in> set (mt_Finalizers mt)" and "phase_of mt = []" and "\<not> machineIsProvisioned m" and "absent I V v m"
  shows "ends (ctl_Reconcile K I ns n) s (\<lambda>r t. r = no_requeue \<and> in_store obj V m (with_phase PhaseProvisioning (not_created mt)) v t)"
    (is "ends _ _ ?Q")
proof (rule ends_missing [OF assms(1-5) _ assms(8)])
  show "\<not> machineIsFailed mt" using assms(6) by (simp add: machineIsFailed_def PhaseFailed_def)
next
  fix t assume t: "at_hand V m mt v t"
  then have "at_hand V m (not_created mt) v (t\<lparr>kt_meta := not_created mt\<rparr>)" by (auto simp: at_hand_def)
  then have "ends (bnd (updateStatus K oc PhaseProvisioning None) (\<lambda>_. ret no_requeue)) (t\<lparr>kt_meta := not_created mt\<rparr>) ?Q" for oc
    by (rule ends_status [OF K phase_distinct(2)]) (simp add: ends_simps in_syncD(4))
  with t assms(6,7) show "ends (reconcile_missing K (mt_Conditions mt) I) t ?Q"
    unfolding reconcile_missing_def at_hand_def by (auto simp: ends_basic ends_state ends_bnd [of "gets f" for f] ends_bnd [of "modify_meta f" for f])
qed

text \<open>Third reconcile: the instance is created.\<close>

lemma create_first:
  assumes K: "stores K ns n obj V" and "in_store obj V m mt v s" "ctl_validateMachine m" "\<not> mt_Deleted mt"
    "MachineFinalizer \<in> set (mt_Finalizers mt)" and "phase_of mt = PhaseProvisioning" and "\<not> machineIsProvisioned m"
    and "absent I V v m" and "creatable I V v m"
  shows "ends (ctl_Reconcile K I ns n) s (\<lambda>r t. r = requeue_later \<and> new_steps s t = [K_Get, K_Exists (Some False), K_Create True])"
    (is "ends _ _ ?Q")
proof (rule ends_missing [OF assms(1-5) _ assms(8)])
  show "\<not> machineIsFailed mt" using assms(6) by (simp add: machineIsFailed_def)
next
  fix t assume t: "at_hand V m mt v t" and log: "kt_log t = kt_log s @ [K_Get, K_Exists (Some False)]"
  let ?t = "t\<lparr>kt_meta := not_created mt\<rparr>"
  obtain b where "i_Create I (kt_act t) = (Ok (), b)" using t assms(9) unfolding at_hand_def creatable_def by metis
  then have "ends (call_Create K I) ?t (\<lambda>_ u. kt_log u = kt_log t @ [K_Create True])"
    by (simp add: ends_def call_Create_def call_actuator_def)
  then have "ends (create_instance K oc I) ?t ?Q" for oc
    unfolding create_instance_def by (intro ends_handle) (erule ends_conseq, simp add: ends_simps log new_steps_def)
  with t assms(6,7) show "ends (reconcile_missing K (mt_Conditions mt) I) t ?Q"
    unfolding reconcile_missing_def at_hand_def by (auto simp: ends_basic ends_state ends_bnd [of "gets f" for f] ends_bnd [of "modify_meta f" for f])
qed

end
