(* ===== verification/No_Panic.thy ===== *)
theory No_Panic
  imports Actuator MachineSet
begin

text \<open>
  Progress: no entry point of the provider ends in a run-time panic.  The Go code dereferences a
  pointer it has not tested in a handful of places; \<open>well_answered\<close> states what those places
  rely on from the code behind the calls, and under it every operation returns a value or an error.
  \<open>safe I m\<close> is the triple that carries the proof: from a state with \<open>I\<close> the operation does not
  panic and keeps \<open>I\<close>.  The invariants are \<open>any\<close> (none) and \<open>spec_validated\<close> (the pointer to the
  validated provider spec is set, as it is from the first line of \<open>validateVMConfig\<close> on).
\<close>

named_theorems safe_rules \<open>rules that show an operation free of panics\<close>

section \<open>The triple\<close>

definition safe :: "('s \<Rightarrow> bool) \<Rightarrow> ('s, 'x, 'a) op \<Rightarrow> bool" where
  "safe I m \<longleftrightarrow> (\<forall>s. I s \<longrightarrow> fst (m s) \<noteq> Panic \<and> I (snd (m s)))"

definition any :: "'s \<Rightarrow> bool" where
  "any s \<longleftrightarrow> True"

definition spec_validated :: "'e machineScope \<Rightarrow> bool" where
  "spec_validated s \<longleftrightarrow> s_providerSpecValidated s \<noteq> None"

lemma any_holds [simp]: "any s"
  by (simp add: any_def)

lemma safeI: "(\<And>s r t. I s \<Longrightarrow> m s = (r, t) \<Longrightarrow> r \<noteq> Panic \<and> I t) \<Longrightarrow> safe I m"
  by (simp add: safe_def prod_eq_iff)

lemma safeD: "safe I m \<Longrightarrow> I s \<Longrightarrow> m s = (r, t) \<Longrightarrow> r \<noteq> Panic \<and> I t"
  unfolding safe_def by (metis fst_conv snd_conv)

lemma safe_any_iff: "safe any m \<longleftrightarrow> (\<forall>s t. m s \<noteq> (Panic, t))"
  unfolding safe_def by (simp add: prod_eq_iff)

lemma safe_never: "safe any m \<Longrightarrow> fst (m s) \<noteq> Panic"
  by (simp add: safe_def)

lemma safe_ret [safe_rules]: "safe I (ret x)"
  and safe_raise [safe_rules]: "safe I (raise e)"
  and safe_gets [safe_rules]: "safe I (gets f)"
  by (simp_all add: safe_def op_defs)

lemma safe_modify [safe_rules]: "(\<And>s. I s \<Longrightarrow> I (f s)) \<Longrightarrow> safe I (modify f)"
  by (simp add: safe_def op_defs)

lemma safe_lift_out [safe_rules]: "r \<noteq> Panic \<Longrightarrow> safe I (lift_out r)"
  by (simp add: safe_def op_defs)

lemma safe_lift_sum [safe_rules]: "safe I (lift_sum r)"
  by (cases r) (simp_all add: safe_def op_defs)

lemma safe_deref [safe_rules]: "p \<noteq> None \<Longrightarrow> safe I (deref p)"
  by (auto simp: safe_def op_defs)

text \<open>The continuation may use that its argument is a value the first part returned.\<close>

lemma safe_handle_value:
  assumes "safe I m" and "\<And>s x t. I s \<Longrightarrow> m s = (Ok x, t) \<Longrightarrow> safe I (f x)" and "\<And>e. safe I (h e)"
  shows "safe I (handle m f h)"
proof (rule safeI)
  fix s r u assume s: "I s" and run: "handle m f h s = (r, u)"
  obtain q t where m: "m s = (q, t)" by fastforce
  note q = safeD [OF assms(1) s m]
  show "r \<noteq> Panic \<and> I u"
  proof (cases q)
    case (Ok x)
    with m run have "f x t = (r, u)" by (simp add: handle_def)
    with assms(2) s m Ok q show ?thesis by (blast dest: safeD)
  next
    case (Err e)
    with m run have "h e t = (r, u)" by (simp add: handle_def)
    with assms(3) q show ?thesis by (blast dest: safeD)
  qed (use q in simp)
qed

lemma safe_handle [safe_rules]:
  "safe I m \<Longrightarrow> (\<And>x. safe I (f x)) \<Longrightarrow> (\<And>e. safe I (h e)) \<Longrightarrow> safe I (handle m f h)"
  by (rule safe_handle_value)

lemma safe_bnd [safe_rules]: "safe I m \<Longrightarrow> (\<And>x. safe I (f x)) \<Longrightarrow> safe I (bnd m f)"
  unfolding bnd_def by (rule safe_handle [OF _ _ safe_raise])

lemma safe_if [safe_rules]: "safe I f \<Longrightarrow> safe I g \<Longrightarrow> safe I (if b then f else g)"
  by simp

lemma safe_option [safe_rules]:
  "safe I f \<Longrightarrow> (\<And>x. safe I (g x)) \<Longrightarrow> safe I (case p of None \<Rightarrow> f | Some x \<Rightarrow> g x)"
  by (cases p) auto

lemma safe_list [safe_rules]:
  "safe I f \<Longrightarrow> (\<And>x xs. safe I (g x xs)) \<Longrightarrow> safe I (case l of [] \<Rightarrow> f | x # xs \<Rightarrow> g x xs)"
  by (cases l) auto

lemma safe_prod [safe_rules]: "(\<And>x y. safe I (f x y)) \<Longrightarrow> safe I (case p of (x, y) \<Rightarrow> f x y)"
  by (cases p) auto

section \<open>What the untested dereferences rely on\<close>

text \<open>
  A provider spec is a JSON object and not the text \<^verbatim>\<open>null\<close>; a credentials entry has data; the
  platform of the Infrastructure object is Nutanix; a listed project has metadata.
\<close>

definition well_answered :: "'e api \<Rightarrow> bool" where
  "well_answered A \<longleftrightarrow>
     (\<forall>raw. a_Unmarshal_Spec A raw \<noteq> Inr None) \<and>
     (\<forall>raw cs. a_Unmarshal_Credentials A raw = Inr cs \<longrightarrow> list_all (\<lambda>c. cred_Data c \<noteq> None) cs) \<and>
     (\<forall>n e infra e'. a_Get_Infrastructure A n e = (Inr infra, e') \<longrightarrow> in_Nutanix infra \<noteq> None) \<and>
     (\<forall>f e ps e'. a_ListProject A f e = (Inr ps, e') \<longrightarrow> list_all (\<lambda>p. pj_Metadata p \<noteq> None) ps)"

lemma spec_decodes: "well_answered A \<Longrightarrow> NutanixMachineProviderSpecFromRawExtension A raw \<noteq> Panic"
  by (auto simp: well_answered_def NutanixMachineProviderSpecFromRawExtension_def split: option.splits sum.splits)

lemma status_decodes: "NutanixMachineProviderStatusFromRawExtension A raw \<noteq> Panic"
  by (auto simp: NutanixMachineProviderStatusFromRawExtension_def split: option.splits sum.splits)

lemma status_encodes: "RawExtensionFromNutanixMachineProviderStatus A st \<noteq> Panic"
  by (auto simp: RawExtensionFromNutanixMachineProviderStatus_def split: option.splits sum.splits)

lemma credentials_decode:
  assumes "well_answered A"
  shows "setClientCredentials A raw creds \<noteq> Panic"
proof -
  have "list_all (\<lambda>c. cred_Data c \<noteq> None) cs" if "a_Unmarshal_Credentials A raw = Inr cs" for cs
    using assms that by (simp add: well_answered_def)
  then show ?thesis by (auto simp: setClientCredentials_def split: sum.splits list.splits option.splits)
qed

lemma machine_validates: "validateMachine m \<noteq> Panic"
  by (simp add: validateMachine_def)

section \<open>World operations\<close>

text \<open>They leave the scope alone, so they keep whatever is said of its fields.\<close>

lemma safe_world:
  fixes m :: "('e, 'a) scope_op"
  assumes "keeps (call_rel P) m" and "safe any m"
  shows "safe spec_validated m"
proof (rule safeI)
  fix s r t assume s: "spec_validated s" and run: "m s = (r, t)"
  from safeD [OF assms(2) _ run] world_op_validated [OF assms(1) run] s
  show "r \<noteq> Panic \<and> spec_validated t" by (simp add: spec_validated_def)
qed

lemma safe_call_api [safe_rules]: "safe any (call_api c f)"
  by (rule safeI) (auto simp: call_api_not_Panic)

lemma safe_call_api_validated [safe_rules]: "safe spec_validated (call_api c f)"
  by (rule safe_world [OF call_api_rel [of "\<lambda>_. True"] safe_call_api]) simp

lemma safe_metav1_Now [safe_rules]: "safe any (metav1_Now A)"
  by (auto simp: safe_def metav1_Now_def split: prod.splits)

lemma safe_record [safe_rules]: "safe any (record_event ev)" "safe any (record_metric m)"
  unfolding record_event_def record_metric_def by (intro safe_rules; simp)+

lemma safe_lookups [safe_rules]:
  "safe any (findVMByUUID A u)" "safe any (findVMByName A n)" "safe any (deleteVM A u)"
  "safe any (findClusterUuidByName A n)" "safe any (findImageUuidByName A n)" "safe any (findSubnetUuidByName A n)"
  "safe any (getProjectByUUID A u)" "safe any (getCategoryValue A k v)" "safe any (listVMNics A u)"
  "safe any (getClusterNameByUUID A u)" "safe any (getPrismCentralCluster A)" "safe any (getGPUsForPEConverged A u)"
  unfolding findVMByUUID_def findVMByName_def deleteVM_def findClusterUuidByName_def findImageUuidByName_def
    findSubnetUuidByName_def getProjectByUUID_def getCategoryValue_def listVMNics_def getClusterNameByUUID_def
    getPrismCentralCluster_def getGPUsForPEConverged_def Let_def
  by (intro safe_rules; simp)+

text \<open>The project lookup reads the uuid through the metadata pointer of the one project found.\<close>

lemma safe_findProjectUuidByName [safe_rules]:
  assumes "well_answered A"
  shows "safe any (findProjectUuidByName A n)"
proof -
  have "pj_Metadata p \<noteq> None" if "call_api c (a_ListProject A f) s = (Ok [p], t)" for c f s p t
    using assms that by (elim call_api_cases) (fastforce simp: well_answered_def)+
  then show ?thesis
    unfolding findProjectUuidByName_def Let_def
    by (intro safe_handle_value safe_raise safe_call_api) (auto intro!: safe_rules split: list.split)
qed

lemma safe_Client [safe_rules]: "safe any (Client A opts)" "safe any (V3Client A opts)"
  unfolding Client_def V3Client_def by (intro safe_rules)+

section \<open>Validation and creation\<close>

lemmas safe_validated_lookups [safe_rules] =
  safe_world [OF findVMByUUID_rel safe_lookups(1)] safe_world [OF findVMByName_rel safe_lookups(2)]
  safe_world [OF findClusterUuidByName_rel safe_lookups(4)] safe_world [OF findImageUuidByName_rel safe_lookups(5)]
  safe_world [OF findSubnetUuidByName_rel safe_lookups(6)] safe_world [OF getProjectByUUID_rel safe_lookups(7)]
  safe_world [OF getCategoryValue_rel safe_lookups(8)]
  safe_world [OF findProjectUuidByName_rel safe_findProjectUuidByName]

lemma safe_validated_gpus [safe_rules]: "safe spec_validated (getGPUsForPEConverged A u)"
  by (rule safe_world [OF getGPUsForPEConverged_rel [where P = "\<lambda>_. True"] safe_lookups(12)]) simp

lemma safe_validated [safe_rules]: "safe spec_validated validated"
  by (rule safeI) (auto simp: spec_validated_def validated_eq)

lemma safe_update_validated [safe_rules]: "safe spec_validated (update_validated f)"
  by (rule safeI) (auto simp: spec_validated_def update_validated_eq)

lemma safe_getV3Client [safe_rules]: "safe spec_validated (getV3Client A)"
  by (rule safeI) (auto simp: spec_validated_def dest: getV3Client_validated)

lemma safe_subnets_loop [safe_rules]: "safe spec_validated (subnets_loop A p i rs)"
  by (induction rs arbitrary: i) (simp_all only: subnets_loop.simps validate_subnet_def, (intro safe_rules; assumption?)+)

lemma safe_categories_loop [safe_rules]: "safe spec_validated (categories_loop A p cs)"
  by (induction cs) (simp_all only: categories_loop.simps, (intro safe_rules; assumption?)+)

lemma safe_validate_data_source [safe_rules]: "safe spec_validated (validate_data_source A p i ds)"
  unfolding validate_data_source_def by (intro safe_rules)

lemma safe_disks_loop [safe_rules]: "safe spec_validated (disks_loop A p i ds)"
  by (induction ds arbitrary: i) (simp_all only: disks_loop.simps, (intro safe_rules; assumption?)+)

lemma safe_checks [safe_rules]:
  "safe spec_validated (validateClusterConfig A p)" "safe spec_validated (validateImageConfig A p)"
  "safe spec_validated (validateSubnetsConfig A p)" "safe spec_validated (validateCategoriesConfig A p)"
  "safe spec_validated (validateGPUsConfig A p)" "safe spec_validated (validateDataDisksConfig A p)"
  "well_answered A \<Longrightarrow> safe spec_validated (validateProjectConfig A p)"
  unfolding validateClusterConfig_def validateImageConfig_def validateSubnetsConfig_def validateProjectConfig_def
    validateCategoriesConfig_def validateGPUsConfig_def validateDataDisksConfig_def Let_def
  by (intro safe_rules; assumption?)+

text \<open>The first statement of the validation sets the pointer the rest of it reads through.\<close>

lemma validateVMConfig_sets:
  assumes "well_answered A" and "validateVMConfig A s = (r, t)"
  shows "r \<noteq> Panic \<and> spec_validated t"
proof -
  let ?set = "\<lambda>s. s\<lparr>s_providerSpecValidated := Some (apply_failure_domain (s_failureDomain s) (s_providerSpec s))\<rparr>"
  have "safe spec_validated (validateVMConfig A)"
    unfolding validateVMConfig_def Let_def
    by (intro safe_rules assms(1)) (simp add: spec_validated_def)
  moreover have "validateVMConfig A s = validateVMConfig A (?set s)"
    by (simp add: validateVMConfig_def modify_def bnd_eq_Ok)
  moreover have "spec_validated (?set s)" by (simp add: spec_validated_def)
  ultimately show ?thesis using assms(2) by (metis safeD)
qed

lemma gpu_list_loop_returns [simp]: "gpu_list_loop ds gpus acc \<noteq> Panic"
  by (induction ds gpus acc rule: gpu_list_loop.induct) (auto split: outcome.splits)

lemma safe_category_refs_loop [safe_rules]: "safe any (category_refs_loop A cs refs)"
  by (induction cs arbitrary: refs) (simp_all only: category_refs_loop.simps, (intro safe_rules; assumption?)+)

text \<open>
  The GPU list dereferences the cluster's uuid, which its caller has tested on the same spec; so the
  construction of the VM is followed with the spec fixed.
\<close>

definition spec_is :: "NutanixMachineProviderConfig \<Rightarrow> 'e machineScope \<Rightarrow> bool" where
  "spec_is sp s \<longleftrightarrow> s_providerSpecValidated s = Some sp"

lemma safe_spec_validated: "(\<And>sp. safe (spec_is sp) m) \<Longrightarrow> safe spec_validated m"
  unfolding safe_def spec_is_def spec_validated_def by blast

lemma safe_world_spec:
  fixes m :: "('e, 'a) scope_op"
  assumes "keeps (call_rel P) m" and "safe any m"
  shows "safe (spec_is sp) m"
proof (rule safeI)
  fix s r t assume s: "spec_is sp s" and run: "m s = (r, t)"
  from safeD [OF assms(2) _ run] world_op_validated [OF assms(1) run] s
  show "r \<noteq> Panic \<and> spec_is sp t" by (simp add: spec_is_def)
qed

lemma safe_bnd_validated: "safe (spec_is sp) (f sp) \<Longrightarrow> safe (spec_is sp) (bnd validated f)"
  unfolding safe_def spec_is_def by (simp add: validated_eq bnd_eq_Ok)

lemmas safe_spec_lookups [safe_rules] =
  safe_world_spec [OF category_refs_loop_rel safe_category_refs_loop] safe_world_spec [OF getCategoryValue_rel safe_lookups(8)]

lemma safe_spec_gpus [safe_rules]: "safe (spec_is sp) (getGPUsForPEConverged A u)"
  by (rule safe_world_spec [OF getGPUsForPEConverged_rel [where P = "\<lambda>_. True"] safe_lookups(12)]) simp

lemma safe_add_gpus [safe_rules]: "ri_UUID (ps_Cluster sp) = Some u \<Longrightarrow> safe (spec_is sp) (add_gpus A sp vm)"
  unfolding add_gpus_def buildV4GPUList_def by (intro safe_bnd_validated safe_rules) simp_all

lemma safe_buildV4CategoryRefs [safe_rules]: "safe (spec_is sp) (buildV4CategoryRefs A)"
  unfolding buildV4CategoryRefs_def owner_category_ref_def Let_def by (intro safe_bnd_validated safe_rules)

lemma safe_buildV4VMFromScope [safe_rules]: "safe spec_validated (buildV4VMFromScope A ud)"
proof (rule safe_spec_validated)
  fix sp
  show "safe (spec_is sp) (buildV4VMFromScope A ud)"
    unfolding buildV4VMFromScope_def
    by (intro safe_bnd safe_gets safe_bnd_validated) (auto intro!: safe_rules split: option.split)
qed

lemma safe_createVM [safe_rules]: "safe spec_validated (createVM A ud)"
  unfolding createVM_def create_by_name_def create_new_vm_def create_and_power_on_def by (intro safe_rules)

section \<open>Scope, reconciler and actuator\<close>

lemma safe_setProviderStatus [safe_rules]: "safe any (setProviderStatus A vm c)"
  by (rule safeI) (auto dest: setProviderStatusD)

lemma safe_set_conditions [safe_rules]: "safe any (set_conditions A cs)"
  by (rule safeI) (metis any_holds fst_conv outcome.distinct(3) set_conditions_Ok)

lemma safe_patchMachine [safe_rules]: "safe any (patchMachine A)"
  by (rule safeI) (simp add: patchMachine_frame(5))

lemma safe_nodeHasVolumesAttached [safe_rules]: "safe any (nodeHasVolumesAttached A)"
  by (rule safeI) auto

lemma safe_getUserData [safe_rules]: "safe any (getUserData A)"
  unfolding getUserData_def Let_def by (intro safe_rules)

lemma safe_set_machine [safe_rules]: "safe any (set_machine m)"
  unfolding set_machine_def by (intro safe_rules) simp

lemma safe_pc_credentials: "well_answered A \<Longrightarrow> safe any (pc_credentials A np)"
  unfolding pc_credentials_def by (intro safe_rules credentials_decode)

lemma safe_connect_scope:
  assumes "well_answered A"
  shows "safe any (connect_scope A)"
proof -
  have nutanix: "in_Nutanix infra \<noteq> None" if "call_api c (a_Get_Infrastructure A n) s = (Ok infra, t)" for c n s infra t
    using assms that unfolding well_answered_def by (elim call_api_cases) blast+
  have "safe any (getNutanixClientOptions A)"
    unfolding getNutanixClientOptions_def set_failure_domain_def
    by (intro safe_handle_value safe_call_api safe_rules safe_pc_credentials assms) (auto dest: nutanix)
  then show ?thesis unfolding connect_scope_def by (intro safe_rules) simp_all
qed

lemma safe_in_scope: "safe any m \<Longrightarrow> safe any (in_scope x m)"
  by (auto simp: safe_any_iff in_scope_def split: prod.splits outcome.splits)

lemma safe_newMachineScope: "well_answered A \<Longrightarrow> safe any (newMachineScope A params)"
  unfolding newMachineScope_def
  by (intro safe_rules safe_in_scope safe_connect_scope spec_decodes status_decodes)

lemma safe_updateMachineWithVMState [safe_rules]: "safe any (updateMachineWithVMState A vm)"
  unfolding updateMachineWithVMState_def setProviderID_def set_node_provider_id_def vm_zone_def Let_def
  by (intro safe_rules)

lemma safe_find [safe_rules]: "safe any (find_machine_vm A)" "safe any (find_for_update A m)" "safe any (check_volumes A m)"
  unfolding find_machine_vm_def find_for_update_def update_failed_def check_volumes_def by (intro safe_rules; simp)+

text \<open>A first part that establishes an invariant, and a second part that relies on it.\<close>

lemma safe_after:
  assumes "\<And>s r t. m s = (r, t) \<Longrightarrow> r \<noteq> Panic \<and> J t" and "\<And>x s. J s \<Longrightarrow> fst (f x s) \<noteq> Panic"
  shows "safe any (bnd m f)"
proof (rule safeI)
  fix s r u assume run: "bnd m f s = (r, u)"
  obtain q t where m: "m s = (q, t)" by fastforce
  with assms(1) have "q \<noteq> Panic" "J t" by auto
  with run m assms(2) [of t] show "r \<noteq> Panic \<and> any u"
    by (cases q) (auto simp: op_defs, metis fst_conv)
qed

lemma handle_returns:
  assumes "safe J m" and "\<And>x. safe any (f x)" and "\<And>e. safe any (h e)" and "J s"
  shows "fst (handle m f h s) \<noteq> Panic"
proof -
  obtain q t where m: "m s = (q, t)" by fastforce
  with assms(1,4) have "q \<noteq> Panic" by (auto dest: safeD)
  with m assms(2,3) show ?thesis by (cases q) (auto simp: handle_def safe_def)
qed

lemma safe_create:
  assumes "well_answered A"
  shows "safe any (create A)"
proof -
  have after: "safe any (bnd (validateVMConfig A :: ('a, _) scope_op) (\<lambda>errs. if errs \<noteq> [] then raise (f errs) else handle (createVM A ud) g h))"
    if "\<And>vm. safe any (g vm)" "\<And>e. safe any (h e)" for f ud g h
  proof (rule safe_after [of _ spec_validated])
    fix s and r :: "(go_error, field_error list) outcome" and t
    assume "validateVMConfig A s = (r, t)"
    with assms show "r \<noteq> Panic \<and> spec_validated t" by (rule validateVMConfig_sets)
  next
    fix errs and s :: "'a machineScope" assume "spec_validated s"
    with that show "fst ((if errs \<noteq> [] then raise (f errs) else handle (createVM A ud) g h) s) \<noteq> Panic"
      by (cases "errs = []") (simp_all add: raise_def handle_returns [OF safe_createVM])
  qed
  show ?thesis unfolding create_def by (intro after safe_rules machine_validates)
qed

lemma safe_reconciler: "safe any (update A)" "safe any (delete A)" "safe any (exists A)"
  unfolding update_def update_failed_def delete_def exists_def Let_def
  by (intro safe_rules machine_validates; simp)+

lemma safe_reconcile_failed [safe_rules]: "safe any (reconcile_failed A c ready action e)"
  unfolding reconcile_failed_def handleMachineError_def by (intro safe_rules)

lemma safe_bodies: "well_answered A \<Longrightarrow> safe any (create_body A)" "safe any (update_body A)" "safe any (delete_body A)"
  unfolding create_body_def update_body_def delete_body_def
  by (intro safe_rules safe_create; assumption) (intro safe_rules safe_reconciler)+

lemma safe_scope_for: "well_answered A \<Longrightarrow> safe any (scope_for A)"
  using safe_newMachineScope [of A] by (auto simp: safe_any_iff scope_for_def split: prod.splits)

lemma safe_with_scope: "safe any m \<Longrightarrow> safe any (with_scope m x)"
  by (auto simp: safe_any_iff with_scope_def split: prod.splits)

lemma safe_actuator:
  assumes "well_answered A"
  shows "safe any (Create A)" "safe any (Exists A)" "safe any (Update A)" "safe any (Delete A)"
  unfolding Create_def Exists_def Update_def Delete_def handleMachineError_def
  by (intro safe_rules safe_scope_for safe_with_scope safe_bodies safe_reconciler assms)+

lemma safe_ms_Reconcile:
  assumes "well_answered A"
  shows "safe any (ms_Reconcile A ns n)"
proof -
  have "reconcile A ms \<noteq> (Panic, ms')" for ms ms'
    using spec_decodes [OF assms] by (simp add: reconcile_def split: outcome.split)
  then show ?thesis
    unfolding ms_Reconcile_def
    by (intro safe_handle safe_if safe_ret safe_raise safe_call_api)
      (auto intro!: safe_rules split: prod.split outcome.split)
qed

end
