(* ===== verification/Go_Flag.thy ===== *)
theory Go_Flag
  imports Go_Std
begin

text \<open>
  Go's packages \<^verbatim>\<open>flag\<close> and \<^verbatim>\<open>time\<close>, as far as a command line with boolean, string and duration
  flags uses them: \<^verbatim>\<open>strconv.ParseBool\<close>, \<^verbatim>\<open>time.ParseDuration\<close>, and the parser of a flag set whose
  error handling is \<^verbatim>\<open>ExitOnError\<close>.  A flag set is a table from names to flags; setting a flag is a
  function on the state the flags live in.
\<close>

section \<open>Values\<close>

definition strconv_ParseBool :: "string \<Rightarrow> bool option" where
  "strconv_ParseBool s =
     (if s \<in> {''1'', ''t'', ''T'', ''true'', ''TRUE'', ''True''} then Some True
      else if s \<in> {''0'', ''f'', ''F'', ''false'', ''FALSE'', ''False''} then Some False
      else None)"

text \<open>
  The digits after a decimal point, with the power of ten they are to be divided by; digits that no
  longer fit are dropped.
\<close>

fun leadingFraction :: "string \<Rightarrow> nat \<Rightarrow> nat \<Rightarrow> nat \<times> nat" where
  "leadingFraction [] x scale = (x, scale)"
| "leadingFraction (c # cs) x scale =
     (if x > (2 ^ 63 - 1) div 10 then (x, scale)
      else let y = x * 10 + (code c - 48) in
        if y > 2 ^ 63 then (x, scale) else leadingFraction cs y (scale * 10))"

text \<open>The nanoseconds of a unit; both spellings of the micro sign are two bytes.\<close>

definition unitMap :: "string \<Rightarrow> nat option" where
  "unitMap u =
     (if u = ''ns'' then Some 1
      else if u \<in> {''us'', [CHR 0xC2, CHR 0xB5, CHR ''s''], [CHR 0xCE, CHR 0xBC, CHR ''s'']} then Some 1000
      else if u = ''ms'' then Some 1000000
      else if u = ''s'' then Some 1000000000
      else if u = ''m'' then Some 60000000000
      else if u = ''h'' then Some 3600000000000
      else None)"

definition number_char :: "char \<Rightarrow> bool" where
  "number_char c \<longleftrightarrow> c = CHR ''.'' \<or> is_digit c"

text \<open>The optional fraction after the integer digits: its digits and the rest of the text.\<close>

fun fraction_digits :: "string \<Rightarrow> string \<times> string" where
  "fraction_digits [] = ([], [])"
| "fraction_digits (c # r) = (if c = CHR ''.'' then (takeWhile is_digit r, dropWhile is_digit r) else ([], c # r))"

text \<open>
  One element \<^verbatim>\<open>12.5s\<close>: the nanoseconds and the rest of the text.  The product of a fraction and a
  unit is taken in \<^verbatim>\<open>float64\<close>; it is the parameter \<open>fl\<close>, applied to the digits, the power of ten and
  the unit.
\<close>

definition duration_element :: "(nat \<Rightarrow> nat \<Rightarrow> nat \<Rightarrow> nat) \<Rightarrow> string \<Rightarrow> (nat \<times> string) option" where
  "duration_element fl s =
     (let ds = takeWhile is_digit s;
          v = digits_val ds;
          (fs, s2) = fraction_digits (dropWhile is_digit s);
          (f, scale) = leadingFraction fs 0 1;
          u = takeWhile (\<lambda>c. \<not> number_char c) s2
      in if \<not> number_char (hd s) \<or> v > 2 ^ 63 \<or> (ds = [] \<and> fs = []) \<or> u = [] then None
         else case unitMap u of
             None \<Rightarrow> None
           | Some unit \<Rightarrow>
               if v > 2 ^ 63 div unit then None
               else let w = v * unit + (if f > 0 then fl f scale unit else 0)
                    in if w > 2 ^ 63 then None else Some (w, dropWhile (\<lambda>c. \<not> number_char c) s2))"

text \<open>An element takes its unit off the text, so the loop over the elements ends.\<close>

lemma fraction_digits_le: "length (snd (fraction_digits s)) \<le> length s"
  by (cases s) (auto intro: le_SucI length_dropWhile_le)

lemma dropWhile_shorter: "takeWhile P xs \<noteq> [] \<Longrightarrow> length (dropWhile P xs) < length xs"
  by (metis length_append length_greater_0_conv less_add_same_cancel2 takeWhile_dropWhile_id)

lemma duration_element_shorter:
  assumes "duration_element fl s = Some (w, r)"
  shows "length r < length s"
proof -
  obtain fs s2 where p: "fraction_digits (dropWhile is_digit s) = (fs, s2)" by fastforce
  with assms have "takeWhile (\<lambda>c. \<not> number_char c) s2 \<noteq> []" "r = dropWhile (\<lambda>c. \<not> number_char c) s2"
    by (auto simp: duration_element_def Let_def split: if_splits option.splits prod.splits)
  then have "length r < length s2" by (simp add: dropWhile_shorter)
  also have "\<dots> \<le> length s"
    using fraction_digits_le [of "dropWhile is_digit s"] length_dropWhile_le [of is_digit s] p by simp
  finally show ?thesis .
qed

text \<open>The loop over the elements, with the sum \<^verbatim>\<open>d\<close> in an unsigned 64-bit word.\<close>

function duration_sum :: "(nat \<Rightarrow> nat \<Rightarrow> nat \<Rightarrow> nat) \<Rightarrow> string \<Rightarrow> nat \<Rightarrow> nat option" where
  "duration_sum fl s d =
     (if s = [] then Some d
      else case duration_element fl s of
          None \<Rightarrow> None
        | Some (w, r) \<Rightarrow>
            let d' = (d + w) mod 2 ^ 64 in
            if d' > 2 ^ 63 then None else duration_sum fl r d')"
  by auto
termination
  by (relation "measure (\<lambda>(fl, s, d). length s)") (auto dest: duration_element_shorter)

declare duration_sum.simps [simp del]

text \<open>\<^verbatim>\<open>time.ParseDuration\<close>: the nanoseconds as a signed 64-bit word.\<close>

definition time_ParseDuration :: "(nat \<Rightarrow> nat \<Rightarrow> nat \<Rightarrow> nat) \<Rightarrow> string \<Rightarrow> int64 option" where
  "time_ParseDuration fl orig =
     (let (neg, s) = (case orig of
            c # r \<Rightarrow> if c = CHR ''-'' \<or> c = CHR ''+'' then (c = CHR ''-'', r) else (False, orig)
          | [] \<Rightarrow> (False, []))
      in if s = ''0'' then Some 0
         else if s = [] then None
         else case duration_sum fl s 0 of
             None \<Rightarrow> None
           | Some d \<Rightarrow>
               if neg then Some (- of_nat d)
               else if d > 2 ^ 63 - 1 then None else Some (of_nat d))"

section \<open>Flag sets\<close>

text \<open>
  A flag over a state \<open>'v\<close>: whether it is boolean, and \<^verbatim>\<open>Value.Set\<close>, which fails or changes the
  state.
\<close>

record 'v formal =
  fm_IsBoolFlag :: bool
  fm_Set :: "string \<Rightarrow> 'v \<Rightarrow> string + 'v"

datatype flag_error = ErrHelp | FlagError string

text \<open>What one round of the parser does: a flag was seen, the flags are over, or it fails.\<close>

datatype 'v parsed_one = Seen "string list" 'v | NoFlag "string list" | Failed flag_error

text \<open>The name and, after the first equals sign that is not the first character, the value.\<close>

definition cut_value :: "string \<Rightarrow> string \<times> string option" where
  "cut_value name =
     (let n = takeWhile (\<lambda>c. c \<noteq> CHR ''='') (tl name); r = dropWhile (\<lambda>c. c \<noteq> CHR ''='') (tl name)
      in (hd name # n, case r of [] \<Rightarrow> None | _ # v \<Rightarrow> Some v))"

definition set_flag ::
  "'v formal \<Rightarrow> (string \<Rightarrow> string) \<Rightarrow> string \<Rightarrow> string list \<Rightarrow> 'v \<Rightarrow> 'v parsed_one" where
  "set_flag fm msg val args st = (case fm_Set fm val st of
       Inl e \<Rightarrow> Failed (FlagError (msg e))
     | Inr st' \<Rightarrow> Seen args st')"

text \<open>A flag that has been recognised, with the arguments left.\<close>

definition parse_flag ::
  "(string \<Rightarrow> 'v formal option) \<Rightarrow> string \<Rightarrow> string option \<Rightarrow> string list \<Rightarrow> 'v \<Rightarrow> 'v parsed_one" where
  "parse_flag flags name val args st = (case flags name of
       None \<Rightarrow>
         if name = ''help'' \<or> name = ''h'' then Failed ErrHelp
         else Failed (FlagError (''flag provided but not defined: -'' @ name))
     | Some fm \<Rightarrow>
         let bad = (\<lambda>v e. ''invalid value '' @ strconv_Quote v @ '' for flag -'' @ name @ '': '' @ e) in
         if fm_IsBoolFlag fm then
           (case val of
              Some v \<Rightarrow> set_flag fm (\<lambda>e. ''invalid boolean value '' @ strconv_Quote v @ '' for -'' @ name @ '': '' @ e) v args st
            | None \<Rightarrow> set_flag fm (\<lambda>e. ''invalid boolean flag '' @ name @ '': '' @ e) ''true'' args st)
         else
           (case (val, args) of
              (Some v, _) \<Rightarrow> set_flag fm (bad v) v args st
            | (None, v # rest) \<Rightarrow> set_flag fm (bad v) v rest st
            | (None, []) \<Rightarrow> Failed (FlagError (''flag needs an argument: -'' @ name))))"

definition parseOne :: "(string \<Rightarrow> 'v formal option) \<Rightarrow> string list \<Rightarrow> 'v \<Rightarrow> 'v parsed_one" where
  "parseOne flags args st = (case args of
       [] \<Rightarrow> NoFlag []
     | s # rest \<Rightarrow>
         if length s < 2 \<or> hd s \<noteq> CHR ''-'' then NoFlag args
         else if s = ''--'' then NoFlag rest
         else
           (let name = (if s ! 1 = CHR ''-'' then drop 2 s else drop 1 s) in
            if name = [] \<or> hd name = CHR ''-'' \<or> hd name = CHR ''=''
            then Failed (FlagError (''bad flag syntax: '' @ s))
            else case cut_value name of (n, v) \<Rightarrow> parse_flag flags n v rest st))"

text \<open>\<^verbatim>\<open>Parse\<close> with \<^verbatim>\<open>ExitOnError\<close>: the remaining arguments and the state, or an exit code.\<close>

datatype 'v parsed = Parsed "string list" 'v | Exit nat

partial_function (option) flag_Parse ::
  "(string \<Rightarrow> 'v formal option) \<Rightarrow> string list \<Rightarrow> 'v \<Rightarrow> 'v parsed option" where
  "flag_Parse flags args st = (case parseOne flags args st of
       Seen rest st' \<Rightarrow> flag_Parse flags rest st'
     | NoFlag rest \<Rightarrow> Some (Parsed rest st)
     | Failed ErrHelp \<Rightarrow> Some (Exit 0)
     | Failed (FlagError msg) \<Rightarrow> Some (Exit 2))"

text \<open>\<^verbatim>\<open>flag.Set\<close>.\<close>

definition flag_Set :: "(string \<Rightarrow> 'v formal option) \<Rightarrow> string \<Rightarrow> string \<Rightarrow> 'v \<Rightarrow> string + 'v" where
  "flag_Set flags name val st = (case flags name of
       None \<Rightarrow> Inl (''no such flag -'' @ name)
     | Some fm \<Rightarrow> fm_Set fm val st)"

section \<open>The parser ends\<close>

lemma set_flag_shorter: "set_flag fm msg v args st = Seen rest st' \<Longrightarrow> rest = args"
  by (auto simp: set_flag_def split: sum.splits)

lemma parseOne_shorter: "parseOne flags args st = Seen rest st' \<Longrightarrow> length rest < length args"
  by (auto simp: parseOne_def parse_flag_def Let_def dest!: set_flag_shorter
      split: list.splits if_splits option.splits prod.splits)

lemma flag_Parse_returns: "\<exists>r. flag_Parse flags args st = Some r"
proof (induction args arbitrary: st rule: length_induct)
  case (1 args)
  show ?case
  proof (cases "parseOne flags args st")
    case (Seen rest st')
    with 1 parseOne_shorter [OF Seen] show ?thesis by (subst flag_Parse.simps) simp
  next
    case (Failed e)
    then show ?thesis by (subst flag_Parse.simps) (cases e; simp)
  qed (subst flag_Parse.simps, simp)
qed

section \<open>Arguments of the form name=value\<close>

definition flag_arg :: "string \<Rightarrow> string \<Rightarrow> string" where
  "flag_arg name val = ''--'' @ name @ ''='' @ val"

definition flag_name :: "string \<Rightarrow> bool" where
  "flag_name n \<longleftrightarrow> n \<noteq> [] \<and> hd n \<noteq> CHR ''-'' \<and> CHR ''='' \<notin> set n"

lemma cut_value_arg: "flag_name n \<Longrightarrow> cut_value (n @ ''='' @ v) = (n, Some v)"
proof (cases n)
  case (Cons c cs)
  assume "flag_name n"
  with Cons have "\<forall>x\<in>set cs. x \<noteq> CHR ''=''" by (auto simp: flag_name_def)
  then have "takeWhile (\<lambda>c. c \<noteq> CHR ''='') (cs @ ''='' @ v) = cs" "dropWhile (\<lambda>c. c \<noteq> CHR ''='') (cs @ ''='' @ v) = ''='' @ v"
    by (simp_all add: takeWhile_append dropWhile_append)
  with Cons show ?thesis by (simp add: cut_value_def)
qed (simp add: flag_name_def)

lemma parseOne_arg:
  assumes "flag_name n" and "flags n = Some fm" and "fm_Set fm v st = Inr st'"
  shows "parseOne flags (flag_arg n v # args) st = Seen args st'"
proof -
  have h: "n \<noteq> []" "hd n \<noteq> CHR ''-''" "hd n \<noteq> CHR ''=''"
    using assms(1) by (auto simp: flag_name_def dest: hd_in_set)
  have c: "cut_value (n @ CHR ''='' # v) = (n, Some v)" using cut_value_arg [OF assms(1), of v] by simp
  show ?thesis
    using h c assms(2,3) by (simp add: parseOne_def flag_arg_def parse_flag_def set_flag_def Let_def)
qed

lemma flag_Parse_arg:
  assumes "flag_name n" and "flags n = Some fm" and "fm_Set fm v st = Inr st'"
  shows "flag_Parse flags (flag_arg n v # args) st = flag_Parse flags args st'"
  by (subst flag_Parse.simps) (simp add: parseOne_arg [of n flags, OF assms])

lemma flag_Parse_Nil: "flag_Parse flags [] st = Some (Parsed [] st)"
  by (subst flag_Parse.simps) (simp add: parseOne_def)

section \<open>Durations of whole seconds\<close>

lemma takeWhile_digits: "list_all P ds \<Longrightarrow> \<not> P c \<Longrightarrow> takeWhile P (ds @ c # r) = ds \<and> dropWhile P (ds @ c # r) = c # r"
  by (induction ds) auto

lemma time_ParseDuration_seconds:
  assumes "n \<le> 9223372036"
  shows "time_ParseDuration fl (nat_digits n @ ''s'') = Some (of_nat (n * 1000000000))"
proof -
  let ?s = "nat_digits n @ ''s''"
  obtain c cs where d: "nat_digits n = c # cs" by (cases "nat_digits n") auto
  then have c: "is_digit c" using nat_digits_are_digits [of n] by simp
  then have nc: "c \<noteq> CHR ''-''" "c \<noteq> CHR ''+''" by (auto simp: is_digit_def)
  have t: "takeWhile is_digit ?s = nat_digits n" "dropWhile is_digit ?s = ''s''"
    using takeWhile_digits [of is_digit "nat_digits n" "CHR ''s''" "[]"] nat_digits_are_digits [of n]
    by (simp_all add: is_digit_def)
  have hs: "number_char (hd ?s)" using d c by (simp add: number_char_def)
  have "duration_element fl ?s = Some (n * 1000000000, [])"
    using assms t hs by (simp add: duration_element_def Let_def digits_val_nat_digits number_char_def is_digit_def unitMap_def)
  then have "duration_sum fl ?s 0 = Some (n * 1000000000)"
    using assms by (subst duration_sum.simps) (simp add: duration_sum.simps [of _ "[]"])
  with assms d nc show ?thesis by (simp add: time_ParseDuration_def)
qed

end
