(* ===== verification/Manager.thy ===== *)
theory Manager
  imports World Go_Flag
begin

text \<open>
  \<^verbatim>\<open>cmd/manager/main.go\<close>, \<^verbatim>\<open>pkg/version\<close> and the constructors \<^verbatim>\<open>main\<close> uses: the command line of the
  controller process, the options of the controller manager, and the start-up sequence with its exit
  codes.  The packages behind the calls of \<^verbatim>\<open>main\<close> (feature gates, controller-runtime, the vendored
  machine controller, klog's own flags) are a parameter, the record \<open>boot\<close>; the process keeps a log of
  those calls and its standard output.
\<close>

section \<open>Version\<close>

record semver_Version =
  v_Major :: nat
  v_Minor :: nat
  v_Patch :: nat

definition semver_String :: "semver_Version \<Rightarrow> string" where
  "semver_String v = nat_digits (v_Major v) @ ''.'' @ nat_digits (v_Minor v) @ ''.'' @ nat_digits (v_Patch v)"

definition version_Version :: semver_Version where
  "version_Version = \<lparr>v_Major = 1, v_Minor = 0, v_Patch = 1\<rparr>"

definition version_String :: string where
  "version_String = ''ClusterAPIProviderNutanix '' @ semver_String version_Version"

section \<open>Flags\<close>

definition Second :: int64 where "Second = 1000000000"

definition leaseDuration :: int64 where "leaseDuration = 120 * Second"
definition renewDeadline :: int64 where "renewDeadline = 110 * Second"
definition retryPeriod :: int64 where "retryPeriod = 20 * Second"
definition syncPeriod :: int64 where "syncPeriod = 10 * 60 * Second"

definition DefaultMachineMetricsAddress :: string where "DefaultMachineMetricsAddress = '':8081''"

record mainFlags =
  printVersion :: bool
  metricsAddress :: string
  watchNamespace :: string
  leaderElectResourceNamespace :: string
  leaderElect :: bool
  leaderElectLeaseDuration :: int64
  healthAddr :: string

definition default_flags :: mainFlags where
  "default_flags = \<lparr>printVersion = False, metricsAddress = DefaultMachineMetricsAddress, watchNamespace = [],
     leaderElectResourceNamespace = [], leaderElect = False, leaderElectLeaseDuration = leaseDuration,
     healthAddr = '':9440''\<rparr>"

definition flag_Bool :: "(bool \<Rightarrow> mainFlags \<Rightarrow> mainFlags) \<Rightarrow> mainFlags formal" where
  "flag_Bool upd = \<lparr>fm_IsBoolFlag = True,
     fm_Set = (\<lambda>v f. case strconv_ParseBool v of None \<Rightarrow> Inl ''parse error'' | Some b \<Rightarrow> Inr (upd b f))\<rparr>"

definition flag_String :: "(string \<Rightarrow> mainFlags \<Rightarrow> mainFlags) \<Rightarrow> mainFlags formal" where
  "flag_String upd = \<lparr>fm_IsBoolFlag = False, fm_Set = (\<lambda>v f. Inr (upd v f))\<rparr>"

definition flag_Duration ::
  "(nat \<Rightarrow> nat \<Rightarrow> nat \<Rightarrow> nat) \<Rightarrow> (int64 \<Rightarrow> mainFlags \<Rightarrow> mainFlags) \<Rightarrow> mainFlags formal" where
  "flag_Duration fl upd = \<lparr>fm_IsBoolFlag = False,
     fm_Set = (\<lambda>v f. case time_ParseDuration fl v of None \<Rightarrow> Inl ''parse error'' | Some d \<Rightarrow> Inr (upd d f))\<rparr>"

text \<open>The seven flags \<^verbatim>\<open>main\<close> defines.\<close>

definition main_flags :: "(nat \<Rightarrow> nat \<Rightarrow> nat \<Rightarrow> nat) \<Rightarrow> string \<Rightarrow> mainFlags formal option" where
  "main_flags fl name =
     (if name = ''version'' then Some (flag_Bool (\<lambda>v f. f\<lparr>printVersion := v\<rparr>))
      else if name = ''metrics-bind-address'' then Some (flag_String (\<lambda>v f. f\<lparr>metricsAddress := v\<rparr>))
      else if name = ''namespace'' then Some (flag_String (\<lambda>v f. f\<lparr>watchNamespace := v\<rparr>))
      else if name = ''leader-elect-resource-namespace''
        then Some (flag_String (\<lambda>v f. f\<lparr>leaderElectResourceNamespace := v\<rparr>))
      else if name = ''leader-elect'' then Some (flag_Bool (\<lambda>v f. f\<lparr>leaderElect := v\<rparr>))
      else if name = ''leader-elect-lease-duration''
        then Some (flag_Duration fl (\<lambda>v f. f\<lparr>leaderElectLeaseDuration := v\<rparr>))
      else if name = ''health-addr'' then Some (flag_String (\<lambda>v f. f\<lparr>healthAddr := v\<rparr>))
      else None)"

section \<open>Manager options\<close>

text \<open>A nil map of namespaces means all of them; the configuration of a namespace is empty.\<close>

record manager_Options =
  o_LeaderElection :: bool
  o_LeaderElectionNamespace :: string
  o_LeaderElectionID :: string
  o_LeaseDuration :: int64
  o_HealthProbeBindAddress :: string
  o_SyncPeriod :: int64
  o_DefaultNamespaces :: "string list option"
  o_BindAddress :: string
  o_RetryPeriod :: int64
  o_RenewDeadline :: int64

definition manager_options :: "mainFlags \<Rightarrow> manager_Options" where
  "manager_options f =
     (let opts = \<lparr>o_LeaderElection = leaderElect f, o_LeaderElectionNamespace = leaderElectResourceNamespace f,
            o_LeaderElectionID = ''cluster-api-provider-nutanix-leader'',
            o_LeaseDuration = leaderElectLeaseDuration f, o_HealthProbeBindAddress = healthAddr f,
            o_SyncPeriod = syncPeriod, o_DefaultNamespaces = None, o_BindAddress = metricsAddress f,
            o_RetryPeriod = retryPeriod, o_RenewDeadline = renewDeadline\<rparr>
      in if watchNamespace f \<noteq> [] then opts\<lparr>o_DefaultNamespaces := Some [watchNamespace f]\<rparr> else opts)"

text \<open>
  What client-go's \<^verbatim>\<open>NewLeaderElector\<close> asks of the three durations; the jitter factor of the retry
  period is 1.2.
\<close>

definition leader_election_accepts :: "manager_Options \<Rightarrow> bool" where
  "leader_election_accepts opts \<longleftrightarrow>
     sint (o_LeaseDuration opts) > sint (o_RenewDeadline opts) \<and>
     5 * sint (o_RenewDeadline opts) > 6 * sint (o_RetryPeriod opts) \<and>
     sint (o_LeaseDuration opts) \<ge> 1 \<and> sint (o_RenewDeadline opts) \<ge> 1 \<and> sint (o_RetryPeriod opts) \<ge> 1"

section \<open>Controllers\<close>

text \<open>What a manager hands out: its client, its event recorders and its scheme.\<close>

datatype client = GetClient
datatype recorder = GetEventRecorderFor string
datatype scheme = GetScheme

record actuatorParams =
  ap_Client :: client
  ap_EventRecorder :: recorder

record machineActuator =
  act_client :: client
  act_eventRecorder :: recorder

definition NewActuator :: "actuatorParams \<Rightarrow> machineActuator" where
  "NewActuator params = \<lparr>act_client = ap_Client params, act_eventRecorder = ap_EventRecorder params\<rparr>"

record machineSetReconciler =
  msr_Client :: client
  msr_Log :: "string list"
  msr_recorder :: "recorder option"
  msr_scheme :: "scheme option"

section \<open>The process\<close>

datatype boot_call =
    B_NewFeatureGateOptions nat | B_GetConfig | B_ApplyTo | B_NewManager manager_Options
  | B_AddToScheme string | B_AddWithActuator machineActuator | B_Build machineSetReconciler
  | B_AddReadyzCheck string | B_AddHealthzCheck string | B_Start

text \<open>
  \<open>b_Flags\<close> are the flags the linked packages define (\<^verbatim>\<open>kubeconfig\<close>, \<^verbatim>\<open>feature-gates\<close>, those of klog);
  Go refuses a name that is defined twice.  \<open>b_float\<close> is the floating-point product inside
  \<^verbatim>\<open>time.ParseDuration\<close>.
\<close>

record 'e boot =
  b_float :: "nat \<Rightarrow> nat \<Rightarrow> nat \<Rightarrow> nat"
  b_Flags :: "string \<Rightarrow> 'e formal option"
  b_NewFeatureGateOptions :: "nat \<Rightarrow> ('e, unit) ext_call"
  b_GetConfig :: "('e, unit) ext_call"
  b_ApplyTo :: "('e, string list) ext_call"
  b_NewManager :: "manager_Options \<Rightarrow> ('e, unit) ext_call"
  b_AddToScheme :: "string \<Rightarrow> ('e, unit) ext_call"
  b_AddWithActuator :: "machineActuator \<Rightarrow> ('e, unit) ext_call"
  b_Build :: "machineSetReconciler \<Rightarrow> ('e, unit) ext_call"
  b_AddReadyzCheck :: "string \<Rightarrow> ('e, unit) ext_call"
  b_AddHealthzCheck :: "string \<Rightarrow> ('e, unit) ext_call"
  b_Start :: "('e, unit) ext_call"

record 'e process =
  pr_ext :: 'e
  pr_calls :: "boot_call list"
  pr_stdout :: "string list"

text \<open>An operation of the process ends with a value, with \<^verbatim>\<open>os.Exit(code)\<close>, or with a Go error.\<close>

type_synonym ('e, 'x, 'a) process_op = "('e process, 'x, 'a) op"

definition call_boot :: "boot_call \<Rightarrow> ('e, 'a) ext_call \<Rightarrow> ('e, go_error, 'a) process_op" where
  "call_boot c f = (\<lambda>s. case f (pr_ext s) of
      (r, e) \<Rightarrow> (case r of Inl err \<Rightarrow> Err err | Inr x \<Rightarrow> Ok x,
        s\<lparr>pr_ext := e, pr_calls := pr_calls s @ [c]\<rparr>))"

definition os_Exit :: "nat \<Rightarrow> ('e, nat, 'a) process_op" where
  "os_Exit n = raise n"

text \<open>\<^verbatim>\<open>if err != nil { klog.Fatal(err) }\<close>; klog exits with code 255.\<close>

definition or_Fatal :: "('e, go_error, 'a) process_op \<Rightarrow> ('e, nat, 'a) process_op" where
  "or_Fatal m = handle m ret (\<lambda>e. os_Exit 255)"

definition fmt_Println :: "string \<Rightarrow> ('e, nat, unit) process_op" where
  "fmt_Println line = modify (\<lambda>s. s\<lparr>pr_stdout := pr_stdout s @ [line]\<rparr>)"

text \<open>The flag set of the process: the flags of \<^verbatim>\<open>main\<close> and those of the packages.\<close>

definition own_flag :: "mainFlags formal \<Rightarrow> (mainFlags \<times> 'e) formal" where
  "own_flag fm = \<lparr>fm_IsBoolFlag = fm_IsBoolFlag fm,
     fm_Set = (\<lambda>v (f, e). map_sum id (\<lambda>f'. (f', e)) (fm_Set fm v f))\<rparr>"

definition package_flag :: "'e formal \<Rightarrow> (mainFlags \<times> 'e) formal" where
  "package_flag fm = \<lparr>fm_IsBoolFlag = fm_IsBoolFlag fm,
     fm_Set = (\<lambda>v (f, e). map_sum id (\<lambda>e'. (f, e')) (fm_Set fm v e))\<rparr>"

definition CommandLine :: "'e boot \<Rightarrow> string \<Rightarrow> (mainFlags \<times> 'e) formal option" where
  "CommandLine B name = (case main_flags (b_float B) name of
       Some fm \<Rightarrow> Some (own_flag fm)
     | None \<Rightarrow> map_option package_flag (b_Flags B name))"

text \<open>\<^verbatim>\<open>flag.Set("logtostderr", "true")\<close>, whose error is dropped, then \<^verbatim>\<open>flag.Parse()\<close>.\<close>

definition parse_command_line :: "'e boot \<Rightarrow> string list \<Rightarrow> ('e, nat, mainFlags) process_op" where
  "parse_command_line B args = (\<lambda>s.
     let st = (default_flags, pr_ext s);
         st' = (case flag_Set (CommandLine B) ''logtostderr'' ''true'' st of Inl e \<Rightarrow> st | Inr t \<Rightarrow> t)
     in case flag_Parse (CommandLine B) args st' of
          Some (Parsed rest (f, e)) \<Rightarrow> (Ok f, s\<lparr>pr_ext := e\<rparr>)
        | Some (Exit n) \<Rightarrow> (Err n, s)
        | None \<Rightarrow> (Panic, s))"

section \<open>Start-up\<close>

definition majorVersion :: nat where
  "majorVersion = (if v_Major version_Version = 0 then 4 else v_Major version_Version)"

definition SetupWithManager :: "'e boot \<Rightarrow> machineSetReconciler \<Rightarrow> ('e, go_error, machineSetReconciler) process_op" where
  "SetupWithManager B r =
     handle (call_boot (B_Build r) (b_Build B r))
       (\<lambda>_. ret (r\<lparr>msr_recorder := Some (GetEventRecorderFor ''machineset-controller''), msr_scheme := Some GetScheme\<rparr>))
       (\<lambda>e. raise (fmt_Errorf_w ''failed setting up with a controller manager: '' e))"

definition machine_actuator :: machineActuator where
  "machine_actuator = NewActuator \<lparr>ap_Client = GetClient, ap_EventRecorder = GetEventRecorderFor ''nutanixcontroller''\<rparr>"

definition machineset_reconciler :: machineSetReconciler where
  "machineset_reconciler = \<lparr>msr_Client = GetClient, msr_Log = [''controllers'', ''MachineSet''],
     msr_recorder = None, msr_scheme = None\<rparr>"

text \<open>From the API server's configuration to the running manager.\<close>

definition run_manager :: "'e boot \<Rightarrow> mainFlags \<Rightarrow> ('e, nat, unit) process_op" where
  "run_manager B flags =
     bnd (or_Fatal (call_boot B_GetConfig (b_GetConfig B))) (\<lambda>_.
     bnd (or_Fatal (call_boot B_ApplyTo (b_ApplyTo B))) (\<lambda>warnings.
     bnd (or_Fatal (call_boot (B_NewManager (manager_options flags)) (b_NewManager B (manager_options flags)))) (\<lambda>_.
     bnd (or_Fatal (call_boot (B_AddToScheme ''machinev1beta1'') (b_AddToScheme B ''machinev1beta1''))) (\<lambda>_.
     bnd (or_Fatal (call_boot (B_AddToScheme ''machinev1'') (b_AddToScheme B ''machinev1''))) (\<lambda>_.
     bnd (or_Fatal (call_boot (B_AddToScheme ''configv1'') (b_AddToScheme B ''configv1''))) (\<lambda>_.
     bnd (or_Fatal (call_boot (B_AddToScheme ''corev1'') (b_AddToScheme B ''corev1''))) (\<lambda>_.
     bnd (or_Fatal (call_boot (B_AddWithActuator machine_actuator) (b_AddWithActuator B machine_actuator))) (\<lambda>_.
     handle (SetupWithManager B machineset_reconciler)
       (\<lambda>_.
         bnd (or_Fatal (call_boot (B_AddReadyzCheck ''ping'') (b_AddReadyzCheck B ''ping''))) (\<lambda>_.
         bnd (or_Fatal (call_boot (B_AddHealthzCheck ''ping'') (b_AddHealthzCheck B ''ping''))) (\<lambda>_.
         or_Fatal (call_boot B_Start (b_Start B)))))
       (\<lambda>e. os_Exit 1)))))))))"

definition main :: "'e boot \<Rightarrow> string list \<Rightarrow> ('e, nat, unit) process_op" where
  "main B args =
     bnd (or_Fatal (call_boot (B_NewFeatureGateOptions majorVersion) (b_NewFeatureGateOptions B majorVersion))) (\<lambda>_.
     bnd (parse_command_line B args) (\<lambda>flags.
     if printVersion flags
     then bnd (fmt_Println version_String) (\<lambda>_. os_Exit 0)
     else run_manager B flags))"

section \<open>The start-up sequence\<close>

text \<open>
  \<open>follows cs m\<close>: run to its end, \<open>m\<close> makes the calls \<open>cs\<close> in this order; if it ends early, it does so
  right after the first of them that fails, with the exit code of that call, and prints nothing.
\<close>

fun exit_code :: "boot_call \<Rightarrow> nat" where
  "exit_code (B_Build r) = 1"
| "exit_code _ = 255"

definition follows :: "boot_call list \<Rightarrow> ('e, nat, 'a) process_op \<Rightarrow> bool" where
  "follows cs m \<longleftrightarrow> (\<forall>s r s'. m s = (r, s') \<longrightarrow> pr_stdout s' = pr_stdout s \<and>
     (case r of
        Ok x \<Rightarrow> pr_calls s' = pr_calls s @ cs
      | Err n \<Rightarrow> \<exists>ds c es. cs = ds @ c # es \<and> pr_calls s' = pr_calls s @ ds @ [c] \<and> n = exit_code c
      | Panic \<Rightarrow> False))"

lemma follows_call: "exit_code c = 255 \<Longrightarrow> follows [c] (or_Fatal (call_boot c f))"
  unfolding follows_def
  by (auto simp: or_Fatal_def call_boot_def os_Exit_def op_defs split: prod.splits sum.splits)

lemma follows_handle:
  assumes "follows [c] (handle m ret (\<lambda>e. os_Exit n))" and "\<And>x. follows cs (f x)"
  shows "follows (c # cs) (handle m f (\<lambda>e. os_Exit n))"
  unfolding follows_def
proof (intro allI impI)
  fix s r u assume run: "handle m f (\<lambda>e. os_Exit n) s = (r, u)"
  obtain q t where m: "m s = (q, t)" by fastforce
  then have one: "(handle m ret (\<lambda>e. os_Exit n)) s = (case q of Ok x \<Rightarrow> Ok x | Err e \<Rightarrow> Err n | Panic \<Rightarrow> Panic, t)"
    by (cases q) (simp_all add: handle_def ret_def os_Exit_def raise_def)
  note step = assms(1) [unfolded follows_def, rule_format, OF one]
  show "pr_stdout u = pr_stdout s \<and> (case r of Ok x \<Rightarrow> pr_calls u = pr_calls s @ c # cs
      | Err n \<Rightarrow> \<exists>ds d es. c # cs = ds @ d # es \<and> pr_calls u = pr_calls s @ ds @ [d] \<and> n = exit_code d | Panic \<Rightarrow> False)"
  proof (cases q)
    case (Ok x)
    with m run have "f x t = (r, u)" by (simp add: handle_def)
    note rest = assms(2) [unfolded follows_def, rule_format, OF this]
    from step Ok have "pr_stdout t = pr_stdout s" "pr_calls t = pr_calls s @ [c]" by simp_all
    with rest show ?thesis by (auto split: outcome.splits intro: exI [of _ "c # _"])
  next
    case (Err e)
    with m run have "r = Err n" "u = t" by (simp_all add: handle_def os_Exit_def raise_def)
    with step Err show ?thesis by (auto simp: Cons_eq_append_conv)
  qed (use step in simp)
qed

lemma follows_bnd:
  assumes "exit_code c = 255" and "\<And>x. follows cs (f x)"
  shows "follows (c # cs) (bnd (or_Fatal (call_boot c g)) f)"
proof -
  have "bnd (or_Fatal (call_boot c g)) f = handle (call_boot c g) f (\<lambda>e. os_Exit 255)"
    by (auto simp: fun_eq_iff or_Fatal_def os_Exit_def op_defs split: prod.splits outcome.splits)
  with follows_handle [OF follows_call [OF assms(1), of g, unfolded or_Fatal_def], of cs f] assms(2) show ?thesis
    by simp
qed

text \<open>The calls after the command line, for given flags.\<close>

definition manager_trace :: "mainFlags \<Rightarrow> boot_call list" where
  "manager_trace flags =
     [B_GetConfig, B_ApplyTo, B_NewManager (manager_options flags), B_AddToScheme ''machinev1beta1'',
      B_AddToScheme ''machinev1'', B_AddToScheme ''configv1'', B_AddToScheme ''corev1'',
      B_AddWithActuator machine_actuator, B_Build machineset_reconciler, B_AddReadyzCheck ''ping'',
      B_AddHealthzCheck ''ping'', B_Start]"

lemma SetupWithManager_step:
  "follows [B_Build r] (handle (SetupWithManager B r) ret (\<lambda>e. os_Exit 1))"
  unfolding follows_def
  by (auto simp: SetupWithManager_def call_boot_def os_Exit_def op_defs split: prod.splits sum.splits)

lemma run_manager_follows: "follows (manager_trace flags) (run_manager B flags)"
  unfolding run_manager_def manager_trace_def
  by (intro follows_bnd follows_handle [OF SetupWithManager_step] follows_call) simp_all

text \<open>The last call of the trace appears in a part of it only if the part is the whole.\<close>

lemma last_of_trace:
  assumes "ds @ c # es = cs @ [x]" and "x \<notin> set cs" and "x \<in> set (ds @ [c])"
  shows "ds @ [c] = cs @ [x]"
  using assms by (cases es rule: rev_cases) auto

lemma run_manager_Start:
  assumes run: "run_manager B flags s = (r, s')" and log: "pr_calls s' = pr_calls s @ cs"
    and "r = Ok () \<or> B_Start \<in> set cs"
  shows "cs = manager_trace flags"
proof -
  note f = run_manager_follows [unfolded follows_def, rule_format, OF run]
  show ?thesis
  proof (cases r)
    case (Ok x)
    with f log show ?thesis by simp
  next
    case (Err n)
    with f log obtain ds c es where t: "manager_trace flags = ds @ c # es" and cs: "cs = ds @ [c]" by auto
    moreover have "B_Start \<in> set (ds @ [c])" using assms(3) Err cs by simp
    moreover have "manager_trace flags = butlast (manager_trace flags) @ [B_Start]" "B_Start \<notin> set (butlast (manager_trace flags))"
      by (simp_all add: manager_trace_def)
    ultimately show ?thesis using last_of_trace by metis
  qed (use f in simp)
qed

section \<open>The whole of main\<close>

lemma majorVersion_eq [simp]: "majorVersion = 1"
  by (simp add: majorVersion_def version_Version_def)

text \<open>The parser always returns; a failure of it is one of the two exits.\<close>

lemma flag_Parse_cases:
  obtains (parsed) rest st' where "flag_Parse flags args st = Some (Parsed rest st')"
    | (exit) n where "flag_Parse flags args st = Some (Exit n)" "n = 0 \<or> n = 2"
proof -
  have "n = 0 \<or> n = 2" if "flag_Parse flags args st = Some (Exit n)" for n
    using that
  proof (induction args arbitrary: st rule: length_induct)
    case (1 args)
    show ?case
    proof (cases "parseOne flags args st")
      case (Seen rest st')
      with 1 parseOne_shorter [OF Seen] flag_Parse.simps [of flags args st] show ?thesis by auto
    next
      case (Failed e)
      with 1 flag_Parse.simps [of flags args st] show ?thesis by (cases e) auto
    qed (use 1 flag_Parse.simps [of flags args st] in simp)
  qed
  moreover obtain r where "flag_Parse flags args st = Some r" using flag_Parse_returns [of flags args st] by blast
  ultimately show thesis by (cases r) (auto intro: that)
qed

lemma parse_command_line_cases:
  obtains (flags) f e where "parse_command_line B args s = (Ok f, s\<lparr>pr_ext := e\<rparr>)"
    | (exit) n where "parse_command_line B args s = (Err n, s)" "n = 0 \<or> n = 2"
proof -
  let ?st = "case flag_Set (CommandLine B) ''logtostderr'' ''true'' (default_flags, pr_ext s) of
      Inl e \<Rightarrow> (default_flags, pr_ext s) | Inr t \<Rightarrow> t"
  show thesis
  proof (cases rule: flag_Parse_cases [of "CommandLine B" args ?st])
    case (parsed rest st')
    then show thesis by (cases st') (rule flags, simp add: parse_command_line_def Let_def)
  next
    case (exit n)
    then show thesis by (intro that(2) [of n]) (simp_all add: parse_command_line_def Let_def)
  qed
qed

lemma main_cases:
  assumes "main B args s = (r, s')"
  obtains (no_gates) "r = Err 255" "pr_calls s' = pr_calls s @ [B_NewFeatureGateOptions 1]" "pr_stdout s' = pr_stdout s"
    | (no_flags) n where "r = Err n" "n = 0 \<or> n = 2" "pr_calls s' = pr_calls s @ [B_NewFeatureGateOptions 1]"
        "pr_stdout s' = pr_stdout s"
    | (version) f t u where "parse_command_line B args t = (Ok f, u)" "printVersion f" "r = Err 0"
        "pr_calls s' = pr_calls s @ [B_NewFeatureGateOptions 1]" "pr_stdout s' = pr_stdout s @ [version_String]"
    | (manager) f t u where "parse_command_line B args t = (Ok f, u)" "\<not> printVersion f"
        "run_manager B f u = (r, s')" "pr_calls u = pr_calls s @ [B_NewFeatureGateOptions 1]" "pr_stdout u = pr_stdout s"
proof -
  obtain q e where q: "b_NewFeatureGateOptions B 1 (pr_ext s) = (q, e)" by fastforce
  let ?t = "s\<lparr>pr_ext := e, pr_calls := pr_calls s @ [B_NewFeatureGateOptions 1]\<rparr>"
  show thesis
  proof (cases q)
    case (Inl err)
    with q assms show thesis
      by (intro that(1)) (auto simp: main_def or_Fatal_def call_boot_def os_Exit_def op_defs)
  next
    case (Inr x)
    with q assms have run: "bnd (parse_command_line B args) (\<lambda>flags. if printVersion flags
        then bnd (fmt_Println version_String) (\<lambda>_. os_Exit 0) else run_manager B flags) ?t = (r, s')"
      by (simp add: main_def or_Fatal_def call_boot_def handle_def ret_def bnd_eq_Ok)
    show thesis
    proof (cases rule: parse_command_line_cases [of B args ?t])
      case (flags f e')
      then show thesis
      proof (cases "printVersion f")
        case True
        with flags run have "r = Err 0" "s' = ?t\<lparr>pr_ext := e', pr_stdout := pr_stdout s @ [version_String]\<rparr>"
          by (auto simp: bnd_eq_Ok fmt_Println_def modify_def os_Exit_def raise_def)
        with flags(1) True show thesis by (intro that(3) [OF flags(1)]) simp_all
      next
        case False
        with flags run have "run_manager B f (?t\<lparr>pr_ext := e'\<rparr>) = (r, s')" by (simp add: bnd_eq_Ok)
        with False show thesis by (intro that(4) [OF flags(1)]) simp_all
      qed
    next
      case (exit n)
      with run show thesis by (intro that(2)) (auto simp: bnd_eq_Err)
    qed
  qed
qed

text \<open>A start-up in which every package answers without an error.\<close>

definition boot_succeeds :: "'e boot \<Rightarrow> bool" where
  "boot_succeeds B \<longleftrightarrow>
     (\<forall>n e. \<exists>x e'. b_NewFeatureGateOptions B n e = (Inr x, e')) \<and> (\<forall>e. \<exists>x e'. b_GetConfig B e = (Inr x, e')) \<and>
     (\<forall>e. \<exists>x e'. b_ApplyTo B e = (Inr x, e')) \<and> (\<forall>opts e. \<exists>x e'. b_NewManager B opts e = (Inr x, e')) \<and>
     (\<forall>g e. \<exists>x e'. b_AddToScheme B g e = (Inr x, e')) \<and> (\<forall>a e. \<exists>x e'. b_AddWithActuator B a e = (Inr x, e')) \<and>
     (\<forall>m e. \<exists>x e'. b_Build B m e = (Inr x, e')) \<and> (\<forall>n e. \<exists>x e'. b_AddReadyzCheck B n e = (Inr x, e')) \<and>
     (\<forall>n e. \<exists>x e'. b_AddHealthzCheck B n e = (Inr x, e')) \<and> (\<forall>e. \<exists>x e'. b_Start B e = (Inr x, e'))"

definition succeeds :: "('e, 'x, 'a) process_op \<Rightarrow> bool" where
  "succeeds m \<longleftrightarrow> (\<forall>s. \<exists>x s'. m s = (Ok x, s'))"

lemma succeeds_call: "(\<And>e. \<exists>x e'. f e = (Inr x, e')) \<Longrightarrow> succeeds (call_boot c f)"
  unfolding succeeds_def
proof
  fix s :: "'a process" assume "\<And>e. \<exists>x e'. f e = (Inr x, e')"
  then obtain x e' where "f (pr_ext s) = (Inr x, e')" by blast
  then show "\<exists>x s'. call_boot c f s = (Ok x, s')" by (simp add: call_boot_def)
qed

lemma succeeds_handle: "succeeds m \<Longrightarrow> (\<And>x. succeeds (f x)) \<Longrightarrow> succeeds (handle m f h)"
  unfolding succeeds_def by (metis handle_eq_Ok)

lemma succeeds_ret: "succeeds (ret x)"
  by (simp add: succeeds_def ret_def)

lemma succeeds_or_Fatal: "succeeds m \<Longrightarrow> succeeds (or_Fatal m)"
  unfolding or_Fatal_def by (intro succeeds_handle succeeds_ret)

lemma run_manager_succeeds: "boot_succeeds B \<Longrightarrow> succeeds (run_manager B f)"
  unfolding run_manager_def bnd_def SetupWithManager_def
  by (intro succeeds_handle succeeds_or_Fatal succeeds_ret succeeds_call) (simp_all add: boot_succeeds_def)

section \<open>The command line\<close>

text \<open>A command line for given flags, with a lease of whole seconds.\<close>

definition flag_args :: "mainFlags \<Rightarrow> nat \<Rightarrow> string list" where
  "flag_args f seconds =
     [flag_arg ''version'' (if printVersion f then ''true'' else ''false''),
      flag_arg ''metrics-bind-address'' (metricsAddress f),
      flag_arg ''namespace'' (watchNamespace f),
      flag_arg ''leader-elect-resource-namespace'' (leaderElectResourceNamespace f),
      flag_arg ''leader-elect'' (if leaderElect f then ''true'' else ''false''),
      flag_arg ''leader-elect-lease-duration'' (nat_digits seconds @ ''s''),
      flag_arg ''health-addr'' (healthAddr f)]"

lemmas flag_kinds = flag_Bool_def flag_String_def flag_Duration_def own_flag_def strconv_ParseBool_def

lemma CommandLine_main: "main_flags (b_float B) n = Some fm \<Longrightarrow> CommandLine B n = Some (own_flag fm)"
  by (simp add: CommandLine_def)

lemma parse_own:
  assumes "main_flags (b_float B) n = Some fm" and "flag_name n" and "fm_Set fm v f = Inr f'"
  shows "flag_Parse (CommandLine B) (flag_arg n v # args) (f, e) = flag_Parse (CommandLine B) args (f', e)"
  by (rule flag_Parse_arg [of n "CommandLine B", OF assms(2) CommandLine_main [OF assms(1)]])
    (simp add: own_flag_def assms(3))

lemma parse_flag_args:
  assumes "n \<le> 9223372036" and "leaderElectLeaseDuration f = of_nat (n * 1000000000)"
  shows "flag_Parse (CommandLine B) (flag_args f n) (f0, e) = Some (Parsed [] (f, e))"
  using assms unfolding flag_args_def
  by (cases f; cases f0)
    (simp add: parse_own main_flags_def flag_kinds flag_name_def time_ParseDuration_seconds flag_Parse_Nil)

section \<open>Leader election\<close>

lemma accepts_options:
  "leader_election_accepts (manager_options f) \<longleftrightarrow> sint (leaderElectLeaseDuration f) > 110 * 10 ^ 9"
  by (auto simp: leader_election_accepts_def manager_options_def Let_def renewDeadline_def retryPeriod_def Second_def)

end
