(* ===== verification/System_Properties.thy ===== *)
theory System_Properties
  imports History No_Panic Manager Example_Server
begin

text \<open>
  Properties of the program as a whole: what holds over any sequence of actuator calls, that no entry
  point panics, and what the process does from its command line to the running manager.
\<close>

section \<open>Sequences of calls\<close>

text \<open>The example server is honest about a name: only a creation adds a VM, and a listing is complete.\<close>

definition has_name :: "string \<Rightarrow> Vm \<Rightarrow> bool" where
  "has_name n v \<longleftrightarrow> vm_Name v = Some n \<and> vm_ExtId v \<noteq> None"

definition ex_named :: "string \<Rightarrow> server \<Rightarrow> nat" where
  "ex_named n e = length (filter (has_name n) (sv_vms e))"

lemma ex_api_keeps_vms:
  "sv_vms (snd (a_VMs_Get ex_api u e)) = sv_vms e" "sv_vms (snd (a_VMs_List ex_api f e)) = sv_vms e"
  "sv_vms (snd (a_Wait ex_api k e)) = sv_vms e" "sv_vms (snd (a_ListNicsByVmId ex_api u e)) = sv_vms e"
  "sv_vms (snd (a_Images_Get ex_api u e)) = sv_vms e" "sv_vms (snd (a_Images_List ex_api f e)) = sv_vms e"
  "sv_vms (snd (a_Clusters_Get ex_api u e)) = sv_vms e" "sv_vms (snd (a_Clusters_List ex_api q e)) = sv_vms e"
  "sv_vms (snd (a_ListClusterPhysicalGPUs ex_api u e)) = sv_vms e" "sv_vms (snd (a_Subnets_Get ex_api u e)) = sv_vms e"
  "sv_vms (snd (a_Subnets_List ex_api f e)) = sv_vms e" "sv_vms (snd (a_Categories_List ex_api f e)) = sv_vms e"
  "sv_vms (snd (a_ListProject ex_api f e)) = sv_vms e" "sv_vms (snd (a_GetProject ex_api u e)) = sv_vms e"
  "sv_vms (snd (a_NewClient ex_api c e)) = sv_vms e" "sv_vms (snd (a_NewV3Client ex_api c e)) = sv_vms e"
  "sv_vms (snd (a_Get_Infrastructure ex_api n e)) = sv_vms e" "sv_vms (snd (a_Get_Secret ex_api ns n e)) = sv_vms e"
  "sv_vms (snd (a_Get_Node ex_api n e)) = sv_vms e" "sv_vms (snd (a_Update_Node ex_api nd e)) = sv_vms e"
  "sv_vms (snd (a_Patch_Machine ex_api m b e)) = sv_vms e" "sv_vms (snd (a_Patch_MachineStatus ex_api m b e)) = sv_vms e"
  "sv_vms (snd (a_Get_MachineSet ex_api ns n e)) = sv_vms e" "sv_vms (snd (a_Patch_MachineSet ex_api ms mb e)) = sv_vms e"
  "sv_vms (snd (a_Now ex_api e)) = sv_vms e"
  by (simp_all add: ex_api_def)

lemma ex_api_changes_vms:
  "sv_vms (snd (a_VMs_Create ex_api v e)) = sv_vms e @ [v\<lparr>vm_ExtId := Some ''vm-1''\<rparr>]"
  "sv_vms (snd (a_VMs_DeleteAsync ex_api u e)) = filter (\<lambda>v. vm_ExtId v \<noteq> Some u) (sv_vms e)"
  "sv_vms (snd (a_VMs_PowerOnVM ex_api u e)) = map (start_vm u) (sv_vms e)"
  by (simp_all add: ex_api_def)

lemma has_name_start: "has_name n \<circ> start_vm u = has_name n"
  by (auto simp: fun_eq_iff start_vm_def has_name_def)

lemma length_filter_filter: "length (filter P (filter Q xs)) \<le> length (filter P xs)"
  by (induction xs) auto

lemma ex_answered:
  assumes "answered ex_api c e e'"
  shows "ex_named n e' \<le> ex_named n e + (if creates n c then 1 else 0)"
  using assms
  by (cases rule: answered.cases)
    (simp_all add: ex_named_def ex_api_keeps_vms ex_api_changes_vms has_name_start filter_map length_filter_filter has_name_def [of n "_\<lparr>vm_ExtId := _\<rparr>"]
      del: filter_filter)

lemma ex_listing:
  "a_VMs_List ex_api (name_filter n) e =
     (Inr (filter (\<lambda>v. vm_ExtId v \<noteq> None \<and> ptr_Deref (vm_Name v) [] = n) (sv_vms e)), e)"
  by (auto simp: ex_api_def name_filter_def intro!: filter_cong)

lemma ex_unlisted: "filter (\<lambda>v. vm_ExtId v \<noteq> None \<and> ptr_Deref (vm_Name v) [] = n) (sv_vms e) = [] \<Longrightarrow> ex_named n e = 0"
  by (auto simp: ex_named_def filter_empty_conv has_name_def)

lemma ex_honest: "honest_about ex_api n (ex_named n)"
proof -
  have get: "\<exists>v. fst (a_VMs_Get ex_api u e) = Inr v" if "v \<in> set (sv_vms e)" "vm_ExtId v = Some u" for u v e
  proof -
    have "find_vm u (sv_vms e) \<noteq> None" using that by (auto simp: find_vm_def find_None_iff)
    then show ?thesis by (auto simp: ex_api_def)
  qed
  have listed: "v \<in> set (sv_vms e)" if "a_VMs_List ex_api (name_filter n) e = (Inr [v], e1)" for v e e1
  proof -
    from that have "filter (\<lambda>v. vm_ExtId v \<noteq> None \<and> ptr_Deref (vm_Name v) [] = n) (sv_vms e) = [v]"
      unfolding ex_listing by blast
    from arg_cong [OF this, of set] show ?thesis by auto
  qed
  show ?thesis
    unfolding honest_about_def
  proof (intro conjI allI impI)
    fix e v u e1 err e'
    assume "a_VMs_List ex_api (name_filter n) e = (Inr [v], e1) \<and> vm_ExtId v = Some u \<and>
        a_VMs_Get ex_api u e1 = (Inl err, e') \<and> isNotFoundError (Some err)"
    with listed get have False by (fastforce simp: ex_listing)
    then show "ex_named n e' = 0" ..
  next
    show "ex_named n (snd (a_Now ex_api e)) \<le> ex_named n e" for e by (simp add: ex_named_def ex_api_keeps_vms)
  qed (auto simp: ex_answered ex_listing list_all_iff ex_unlisted)
qed

text \<open>
  One VM per name.  If Prism Central is honest about a machine name and nobody else adds a VM of
  that name, then after any sequence of actuator calls, for any machines and interleaved with any
  other changes outside, it holds at most one VM of that name, given that it held at most one before.
\<close>

theorem one_vm_per_name:
  assumes "history A env a b" and "honest_about A n K" and "dns_name n"
    and "\<And>e e'. env e e' \<Longrightarrow> K e' \<le> K e" and "K (w_ext a) \<le> 1"
  shows "K (w_ext b) \<le> 1"
  using history_capped [OF assms(1-4)] assms(5) by (simp add: capped_def)

theorem one_vm_per_name_witness:
  "\<exists>b. history ex_api (\<lambda>e e'. e' = e) (ex_act ex_machine [] None) b \<and> length (sv_vms (w_ext b)) = 1 \<and> ex_named ''m1'' (w_ext b) \<le> 1"
proof -
  let ?a = "ex_act ex_machine [] None"
  let ?b = "invoke ex_api MCreate ?a"
  have h: "history ex_api (\<lambda>e e'. e' = e) ?a ?b" by (intro history.intros)
  have "length (sv_vms (w_ext ?b)) = 1" by code_simp
  moreover have "dns_name ''m1''" "ex_named ''m1'' (w_ext ?a) \<le> 1" by code_simp+
  ultimately show ?thesis using one_vm_per_name [OF h ex_honest] h by blast
qed


section \<open>Panics\<close>

text \<open>
  C18: no entry point panics.  If provider specs are not the JSON text null, credentials entries have
  data, the infrastructure is Nutanix and listed projects have metadata, then every method of the
  actuator and the MachineSet controller return a value or an error, whatever else the servers
  answer.
\<close>

theorem provider_never_panics:
  assumes "well_answered A"
  shows "fst (Create A a) \<noteq> Panic \<and> fst (Exists A a) \<noteq> Panic \<and> fst (Update A a) \<noteq> Panic \<and> fst (Delete A a) \<noteq> Panic \<and>
     fst (ms_Reconcile A ns n w) \<noteq> Panic"
  by (intro conjI safe_never safe_actuator safe_ms_Reconcile assms)

theorem provider_never_panics_witness: "fst (Create ex_api (ex_act ex_machine [] None)) \<noteq> Panic"
proof -
  have "well_answered ex_api" by (auto simp: well_answered_def ex_api_def)
  then show ?thesis by (rule conjunct1 [OF provider_never_panics])
qed



section \<open>Start-up\<close>

text \<open>
  C19: the manager starts only after everything is registered.  If the process ever calls Start, or
  ends normally, it was not asked for its version, and its calls are, in this order: feature gates,
  configuration, the manager with the options of the command line, the four schemes, the machine
  controller with this actuator, the MachineSet controller, the two probes, Start.
\<close>

theorem main_starts_configured:
  assumes "main B args s = (r, s')" and "pr_calls s' = pr_calls s @ cs" and "r = Ok () \<or> B_Start \<in> set cs"
  shows "\<exists>f t u. parse_command_line B args t = (Ok f, u) \<and> \<not> printVersion f \<and>
     cs = B_NewFeatureGateOptions 1 # manager_trace f"
  using assms(1)
proof (cases rule: main_cases)
  case (manager f t u)
  obtain ds where ds: "cs = B_NewFeatureGateOptions 1 # ds" "pr_calls s' = pr_calls u @ ds"
    using run_manager_follows [unfolded follows_def, rule_format, OF manager(3)] manager(4) assms(2)
    by (cases r) auto
  with assms(3) have "ds = manager_trace f" by (intro run_manager_Start [OF manager(3)]) auto
  with manager ds show ?thesis by blast
qed (use assms(2,3) in auto)


text \<open>Packages that accept every call, with klog's flag that the process sets itself.\<close>

definition ex_boot :: "unit boot" where
  "ex_boot = \<lparr>b_float = (\<lambda>f scale u. f * u div scale),
     b_Flags = (\<lambda>n. if n = ''logtostderr'' then Some \<lparr>fm_IsBoolFlag = True, fm_Set = (\<lambda>v e. Inr e)\<rparr> else None),
     b_NewFeatureGateOptions = (\<lambda>n e. (Inr (), e)), b_GetConfig = (\<lambda>e. (Inr (), e)), b_ApplyTo = (\<lambda>e. (Inr [], e)),
     b_NewManager = (\<lambda>opts e. (Inr (), e)), b_AddToScheme = (\<lambda>g e. (Inr (), e)), b_AddWithActuator = (\<lambda>a e. (Inr (), e)),
     b_Build = (\<lambda>m e. (Inr (), e)), b_AddReadyzCheck = (\<lambda>n e. (Inr (), e)), b_AddHealthzCheck = (\<lambda>n e. (Inr (), e)),
     b_Start = (\<lambda>e. (Inr (), e))\<rparr>"

definition ex_process :: "unit process" where
  "ex_process = \<lparr>pr_ext = (), pr_calls = [], pr_stdout = []\<rparr>"

lemma ex_boot_succeeds: "boot_succeeds ex_boot"
  by (simp add: boot_succeeds_def ex_boot_def)

text \<open>
  C25: the flags reach the manager.  With packages that accept every call, a command line that spells
  out flags other than the version request makes the process build its manager with exactly the
  options of these flags, register everything and end normally once Start returns.
\<close>

theorem main_runs_with_flags:
  assumes "boot_succeeds B" and "\<not> printVersion f" and "n \<le> 9223372036"
    and "leaderElectLeaseDuration f = of_nat (n * 1000000000)"
  shows "\<exists>s' opts. main B (flag_args f n) s = (Ok (), s') \<and> pr_calls s' = pr_calls s @ B_NewFeatureGateOptions 1 # manager_trace f \<and>
     B_NewManager opts \<in> set (manager_trace f) \<and> o_LeaderElection opts = leaderElect f \<and>
     o_LeaderElectionNamespace opts = leaderElectResourceNamespace f \<and> o_LeaseDuration opts = of_nat (n * 1000000000) \<and>
     o_HealthProbeBindAddress opts = healthAddr f \<and> o_BindAddress opts = metricsAddress f \<and>
     o_DefaultNamespaces opts = (if watchNamespace f = [] then None else Some [watchNamespace f])"
proof -
  obtain x e where g: "b_NewFeatureGateOptions B 1 (pr_ext s) = (Inr x, e)"
    using assms(1) unfolding boot_succeeds_def by blast
  let ?t = "s\<lparr>pr_ext := e, pr_calls := pr_calls s @ [B_NewFeatureGateOptions 1]\<rparr>"
  have gate: "or_Fatal (call_boot (B_NewFeatureGateOptions 1) (b_NewFeatureGateOptions B 1)) s = (Ok x, ?t)"
    using g by (simp add: or_Fatal_def call_boot_def handle_def ret_def)
  have "fst (parse_command_line B (flag_args f n) ?t) = Ok f"
    using parse_flag_args [OF assms(3,4), of B] by (auto simp: parse_command_line_def Let_def split: sum.split prod.split)
  then obtain e' where parse: "parse_command_line B (flag_args f n) ?t = (Ok f, ?t\<lparr>pr_ext := e'\<rparr>)"
    by (cases rule: parse_command_line_cases [of B "flag_args f n" ?t]) auto
  let ?u = "?t\<lparr>pr_ext := e'\<rparr>"
  obtain y s' where r: "run_manager B f ?u = (Ok y, s')"
    using run_manager_succeeds [OF assms(1), of f] by (auto simp: succeeds_def)
  have "main B (flag_args f n) s = (Ok (), s')"
    using gate parse r assms(2) by (simp add: main_def bnd_eq_Ok)
  moreover have "pr_calls s' = pr_calls s @ B_NewFeatureGateOptions 1 # manager_trace f"
    using run_manager_follows [unfolded follows_def, rule_format, OF r] by simp
  ultimately show ?thesis
    by (intro exI [of _ s'] exI [of _ "manager_options f"]) (simp add: manager_trace_def manager_options_def Let_def assms(4))
qed

definition ex_flags :: mainFlags where
  "ex_flags = default_flags\<lparr>watchNamespace := ''openshift-machine-api'', leaderElect := True\<rparr>"

lemma ex_flags_lease: "leaderElectLeaseDuration ex_flags = of_nat (120 * 1000000000)"
  by (simp add: ex_flags_def default_flags_def leaseDuration_def Second_def)

lemma ex_flags_run: "\<not> printVersion ex_flags"
  by (simp add: ex_flags_def default_flags_def)

theorem main_runs_with_flags_witness:
  "\<exists>s' opts. main ex_boot (flag_args ex_flags 120) ex_process = (Ok (), s') \<and> B_NewManager opts \<in> set (pr_calls s') \<and>
     o_DefaultNamespaces opts = Some [''openshift-machine-api'']"
proof -
  have "watchNamespace ex_flags = ''openshift-machine-api''" by (simp add: ex_flags_def)
  with main_runs_with_flags [OF ex_boot_succeeds ex_flags_run _ ex_flags_lease, of ex_process] show ?thesis by fastforce
qed

theorem main_starts_configured_witness:
  "\<exists>f t u. parse_command_line ex_boot [] t = (Ok f, u) \<and> \<not> printVersion f"
proof -
  obtain r s' where run: "main ex_boot [] ex_process = (r, s')" by fastforce
  have "r = Ok ()" using run by (simp add: main_def run_manager_def parse_command_line_def flag_Parse_Nil flag_Set_def CommandLine_def
      main_flags_def package_flag_def default_flags_def ex_boot_def ex_process_def or_Fatal_def call_boot_def SetupWithManager_def op_defs)
  moreover have "pr_calls s' = pr_calls ex_process @ pr_calls s'" by (simp add: ex_process_def)
  ultimately show ?thesis using main_starts_configured [OF run] by blast
qed


text \<open>
  C38: the command line round-trips.  Spelling out all seven flags, with a lease of whole seconds,
  and parsing the result gives back exactly these flags, from any previous setting, and leaves the
  flags of the other packages alone.
\<close>

theorem flag_args_roundtrip:
  assumes "n \<le> 9223372036" and "leaderElectLeaseDuration f = of_nat (n * 1000000000)"
  shows "flag_Parse (CommandLine B) (flag_args f n) (f0, e) = Some (Parsed [] (f, e))"
  using assms by (rule parse_flag_args)

theorem flag_args_roundtrip_witness:
  "flag_Parse (CommandLine ex_boot) (flag_args ex_flags 120) (default_flags, ()) = Some (Parsed [] (ex_flags, ()))"
  using flag_args_roundtrip [OF _ ex_flags_lease] by simp


text \<open>
  C40: a bound on the lease.  The renewal deadline is fixed at 110 seconds while the lease is a flag, so
  leader election accepts the options of the command line exactly when the lease is longer than 110
  seconds; the default of 120 seconds is accepted.
\<close>

theorem lease_bound:
  "leader_election_accepts (manager_options f) = (sint (leaderElectLeaseDuration f) > 110 * 10 ^ 9) \<and>
     leader_election_accepts (manager_options default_flags)"
  by (simp add: accepts_options default_flags_def leaseDuration_def Second_def)

end
