(* ===== verification/Controller_Properties.thy ===== *)
theory Controller_Properties
  imports Actuator_Contract System_Properties
begin

text \<open>
  Properties of the machine controller together with the provider: when a reconcile of a Machine
  creates an instance, when it lets a Machine go, and what it does with one whose provider spec
  cannot be decoded.
\<close>

section \<open>An example\<close>

text \<open>The Kubernetes API of the example server: one Machine, every write accepted as sent.\<close>

definition ex_ctl :: "machine_object \<Rightarrow> server ctl_api" where
  "ex_ctl obj = \<lparr>k_Migration = False, k_Get = (\<lambda>ns n e. (Inr obj, e)), k_Update = (\<lambda>obj e. (Inr obj, e)),
     k_Patch = (\<lambda>obj base e. (Inr obj, e)), k_PatchStatus = (\<lambda>obj base e. (Inr obj, e)),
     k_GetNode = (\<lambda>n e. (Inl node_not_found, e)), k_DeleteNode = (\<lambda>n e. (Inr (), e)),
     k_invalid = (\<lambda>m. []), k_override = Inr, k_after = (\<lambda>x e m. m)\<rparr>"

definition ex_meta :: "bool \<Rightarrow> machine_meta" where
  "ex_meta deleted = \<lparr>mt_Finalizers = [MachineFinalizer], mt_Deleted = deleted, mt_PreDrain = [], mt_PreTerminate = [],
     mt_SpecAuthority = [], mt_Authority = [], mt_Phase = Some PhaseProvisioning,
     mt_Conditions = [''Drained'' \<mapsto> TrueCondition], mt_ErrorReason = None, mt_ErrorMessage = None\<rparr>"

definition ex_ctl_state :: "Vm list \<Rightarrow> server ctlState" where
  "ex_ctl_state vms = \<lparr>kt_act = ex_act ex_machine vms None, kt_meta = ex_meta False, kt_log = []\<rparr>"

lemma steps_rel_new: "K_RemoveFinalizer \<in> set (new_steps s s') \<Longrightarrow> \<not> steps_rel keeps_finalizer s s'"
  by (auto simp: steps_rel_def new_steps_def list_all_iff)

section \<open>A run that creates\<close>

text \<open>The run of a reconcile that reaches the actuator's \<open>Create\<close>.\<close>

lemma reconcile_to_create:
  assumes "\<not> k_Migration K" and "k_Get K ns n (w_ext (kt_act s)) = (Inr (m, mt), e)"
    and "ctl_validateMachine m" "\<not> mt_Deleted mt" "MachineFinalizer \<in> set (mt_Finalizers mt)" "\<not> machineIsFailed mt"
    and "i_Exists I ((kt_act s)\<lparr>w_ext := e, ac_machine := m\<rparr>) = (Ok False, a)" "\<not> machineIsProvisioned (ac_machine a)"
    and "ptr_Deref (mt_Phase (k_after K MExists (w_ext a) mt)) [] \<noteq> []" and "i_Create I a = (Ok (), b)"
  shows "\<exists>s'. ctl_Reconcile K I ns n s = (Ok requeue_later, s') \<and> kt_act s' = b \<and>
     new_steps s s' = [K_Get, K_Exists (Some False), K_Create True]"
  using assms
  by (simp add: ctl_Reconcile_def k_call_def set_object_def check_authority_def check_valid_def add_finalizer_def
      reconcile_live_def reconcile_missing_def create_instance_def call_Exists_def call_Create_def call_actuator_def
      modify_meta_def modify_def gets_def ret_def handle_def bnd_def set_condition_def new_steps_def Let_def)

text \<open>An answer of \<open>Exists\<close> leaves the machine as it is.\<close>

lemma Exists_Ok_machine:
  assumes "Exists A a = (Ok b, a')"
  shows "ac_machine a' = ac_machine a"
  using assms unfolding Exists_def
proof (cases rule: actuator_cases)
  case (no_scope e a1)
  then show ?thesis by (simp add: op_defs)
next
  case (ran s s' rs)
  then have valid: "validateMachine (s_machine s) = Ok ()"
    by (auto simp: exists_def bnd_def gets_def lift_out_def handle_def raise_def split: outcome.splits)
  obtain q t where f: "find_machine_vm A s = (q, t)" by fastforce
  have "s_machine t = s_machine s"
    using keepsD [OF find_machine_vm_rel f] by (cases s; cases t) (simp add: call_rel_def)
  moreover from ran(4) f have "s' = t"
    unfolding exists_eq [OF valid] by (auto split: outcome.splits if_splits)
  ultimately show ?thesis using ran by (simp add: scope_ok_def)
qed simp

definition ex_absent :: "server actuatorState" where
  "ex_absent = snd (Exists ex_api (ex_act ex_machine [] None))"

definition ex_new_created :: "server actuatorState" where
  "ex_new_created = snd (Create ex_api ex_absent)"

lemma ex_absent_run: "Exists ex_api (ex_act ex_machine [] None) = (Ok False, ex_absent)"
  unfolding ex_absent_def by (rule run_as) code_simp

lemma ex_absent_eq: "ex_absent = (ex_act ex_machine [] None)\<lparr>w_calls := w_calls ex_absent\<rparr>"
proof -
  have "length (sv_vms (w_ext ex_absent)) = 0 \<and> Option.is_none (sv_node (w_ext ex_absent)) \<and> sv_clock (w_ext ex_absent) = 0 \<and>
      length (sv_cordoned (w_ext ex_absent)) = 0 \<and> Option.is_none (sv_object (w_ext ex_absent))"
    by code_simp
  moreover have "w_events ex_absent = []" "w_metrics ex_absent = []" by code_simp+
  ultimately show ?thesis
    using Exists_Ok_machine [OF ex_absent_run]
    by (cases ex_absent) (simp add: Option.is_none_def ex_act_def ex_world_def world.extend_def actuatorState.fields_def)
qed

lemma ex_create_after: "fst (Create ex_api ((ex_act ex_machine [] None)\<lparr>w_calls := cs\<rparr>)) = Ok ()"
  by code_simp

lemma ex_create_adds: "ex_named ''m1'' (w_ext (snd (Create ex_api ((ex_act ex_machine [] None)\<lparr>w_calls := cs\<rparr>)))) = 1"
  by code_simp

lemma ex_new_run: "Create ex_api ex_absent = (Ok (), ex_new_created)"
  unfolding ex_new_created_def by (rule run_as) (metis ex_absent_eq ex_create_after)

lemma ex_new_machine:
  "ctl_validateMachine ex_machine" "\<not> machineIsProvisioned ex_machine" "\<not> machineIsFailed (ex_meta b)"
  by code_simp+

lemma ex_ctl_machine:
  "\<not> k_Migration (ex_ctl obj)" "k_Get (ex_ctl obj) ns n e = (Inr obj, e)" "k_after (ex_ctl obj) x e mt = mt" "ac_machine ex_absent = ex_machine"
  "mt_Deleted (ex_meta b) = b" "mt_Finalizers (ex_meta b) = [MachineFinalizer]" "ptr_Deref (mt_Phase (ex_meta b)) [] \<noteq> []"
  by (simp_all add: ex_ctl_def ex_meta_def PhaseProvisioning_def Exists_Ok_machine [OF ex_absent_run])

lemma ex_ctl_act: "(kt_act (ex_ctl_state vms))\<lparr>ac_machine := m\<rparr> = ex_act m vms None"
  by (simp add: ex_ctl_state_def ex_act_def ex_world_def world.extend_def actuatorState.fields_def)

lemma ex_new_create_sent: "list_ex is_create (new_calls ex_absent ex_new_created)"
proof -
  have "traced ex_api ex_absent ex_new_created" by (rule keepsD [OF actuator_traced(1) ex_new_run])
  from traced_count [OF ex_honest this, of "''m1''"]
  have "1 \<le> ex_named ''m1'' (w_ext ex_absent) + length (filter (creates ''m1'') (new_calls ex_absent ex_new_created))"
    unfolding ex_new_created_def using ex_create_adds ex_absent_eq by metis
  moreover have "ex_named ''m1'' (w_ext ex_absent) = 0" by code_simp
  ultimately have "filter (creates ''m1'') (new_calls ex_absent ex_new_created) \<noteq> []" by auto
  then show ?thesis using not_create_creates by (auto simp: filter_empty_conv list_ex_iff)
qed

lemma ex_reconcile_new:
  "\<exists>s'. ctl_Reconcile (ex_ctl (ex_machine, ex_meta False)) (nutanix_actuator ex_api) ''ns'' ''m1'' (ex_ctl_state []) =
     (Ok requeue_later, s') \<and> kt_act s' = ex_new_created \<and> new_steps (ex_ctl_state []) s' = [K_Get, K_Exists (Some False), K_Create True]"
  by (rule reconcile_to_create [where m = ex_machine and mt = "ex_meta False" and a = ex_absent, OF ex_ctl_machine(1,2)])
    (simp_all add: nutanix_actuator_def ex_ctl_act ex_ctl_machine ex_new_machine ex_absent_run ex_new_run)

section \<open>Creation\<close>



text \<open>
  And it does create one.  For a fetched Machine that is valid, not being deleted, not failed,
  with the finalizer and a phase, without provider id and address, and of which the provider answers
  that it has no VM, the reconcile calls Create with that machine and nothing else after it; if Create
  succeeds the machine comes back to the queue after 30 seconds.
\<close>

theorem reconcile_creates_if_absent:
  assumes "\<not> k_Migration K" and "k_Get K ns n (w_ext (kt_act s)) = (Inr (m, mt), e)"
    and "ctl_validateMachine m" "\<not> mt_Deleted mt" "MachineFinalizer \<in> set (mt_Finalizers mt)" "\<not> machineIsFailed mt"
    and "Exists A ((kt_act s)\<lparr>w_ext := e, ac_machine := m\<rparr>) = (Ok False, a)" "\<not> machineIsProvisioned (ac_machine a)"
    and "ptr_Deref (mt_Phase (k_after K MExists (w_ext a) mt)) [] \<noteq> []" and "Create A a = (Ok (), b)"
  shows "\<exists>s'. ctl_Reconcile K (nutanix_actuator A) ns n s = (Ok requeue_later, s') \<and> kt_act s' = b \<and>
     new_steps s s' = [K_Get, K_Exists (Some False), K_Create True]"
  using assms by (intro reconcile_to_create) (simp_all add: nutanix_actuator_def)

theorem reconcile_creates_if_absent_witness:
  "\<exists>s'. ctl_Reconcile (ex_ctl (ex_machine, ex_meta False)) (nutanix_actuator ex_api) ''ns'' ''m1'' (ex_ctl_state []) =
     (Ok requeue_later, s') \<and> kt_act s' = ex_new_created \<and> new_steps (ex_ctl_state []) s' = [K_Get, K_Exists (Some False), K_Create True]"
  by (rule reconcile_creates_if_absent [where m = ex_machine and mt = "ex_meta False" and a = ex_absent, OF ex_ctl_machine(1,2)])
    (simp_all add: ex_ctl_act ex_ctl_machine ex_new_machine ex_absent_run ex_new_run)

section \<open>Deletion\<close>

lemma removes_after_exists:
  assumes run: "ctl_Reconcile K I ns n s = (r, s')" and rem: "K_RemoveFinalizer \<in> set (new_steps s s')"
  shows "\<exists>t oc u d a a'. quiet status_step s t \<and> mt_Deleted (kt_meta t) \<and> updateStatus K oc PhaseDeleting None t = (Ok (), u) \<and>
     may_delete (kt_meta u) \<and> i_Delete I (kt_act u) = (d, a) \<and> delete_done d (ac_machine a) \<and> i_Exists I a = (Ok False, a')"
proof -
  note new = steps_rel_new [OF rem]
  have quiet: "steps_rel keeps_finalizer s t" if "quiet status_step s t" for t
    by (rule quiet_steps [OF that]) auto
  from run obtain t oc where q: "quiet status_step s t" and br: "in_branch K oc I t r s'"
    by (cases rule: ctl_Reconcile_branches) (use quiet [of s'] new in blast)+
  have not: "\<not> steps_rel keeps_finalizer t s'"
    using steps_frame.trans [OF quiet [OF q]] new by blast
  have "mt_Deleted (kt_meta t)" "reconcile_deleted K oc I t = (r, s')"
    using br not by (auto simp: in_branch_def dest: keepsD [OF reconcile_live_keeps_finalizer] split: if_splits)
  with reconcile_deleted_removes [OF this(2) not] q show ?thesis by blast
qed

text \<open>
  C7: a Machine is let go only when its instance is gone.  If a reconcile sends the Machine without the
  controller's finalizer, the Machine was being deleted, its node was drained, no hook blocked the
  termination, the actuator's Delete was called and succeeded (or called the configuration invalid, on
  a machine without addresses), and Exists, asked after that, answered that there is no VM.
\<close>

theorem finalizer_removed_only_if_gone:
  assumes "ctl_Reconcile K I ns n s = (r, s')" and "K_RemoveFinalizer \<in> set (new_steps s s')"
  shows "\<exists>t oc u d a a'. quiet status_step s t \<and> mt_Deleted (kt_meta t) \<and> updateStatus K oc PhaseDeleting None t = (Ok (), u) \<and>
     may_delete (kt_meta u) \<and> i_Delete I (kt_act u) = (d, a) \<and> delete_done d (ac_machine a) \<and> i_Exists I a = (Ok False, a')"
  using assms by (rule removes_after_exists)

text \<open>A reconcile that removes the finalizer, with an actuator whose instances are gone at once.\<close>

definition ex_actuator :: "server Actuator_impl" where
  "ex_actuator = \<lparr>i_Create = ret (), i_Delete = ret (), i_Update = ret (), i_Exists = ret False\<rparr>"

definition ex_removed :: "server ctlState" where
  "ex_removed = snd (ctl_Reconcile (ex_ctl (ex_machine, ex_meta True)) ex_actuator ''ns'' ''m1'' (ex_ctl_state []))"

lemma ex_removes: "List.member (new_steps (ex_ctl_state []) ex_removed) K_RemoveFinalizer"
  by code_simp

theorem finalizer_removed_only_if_gone_witness:
  "\<exists>(u :: server ctlState) d a. may_delete (kt_meta u) \<and> i_Delete ex_actuator (kt_act u) = (d, a) \<and> delete_done d (ac_machine a)"
proof -
  have "K_RemoveFinalizer \<in> set (new_steps (ex_ctl_state []) ex_removed)" using ex_removes by simp
  from finalizer_removed_only_if_gone [OF run_eq this [unfolded ex_removed_def]] show ?thesis by blast
qed

text \<open>A machine whose spec cannot be decoded has no scope.\<close>

lemma bad_spec_no_scope:
  assumes "m_ProviderSpec (ac_machine a) = Some raw" and "a_Unmarshal_Spec A raw = Inl e"
  shows "\<exists>e. scope_for A a = (Err e, a)"
  using assms by (cases a) (simp add: scope_for_def newMachineScope_def NutanixMachineProviderSpecFromRawExtension_def lift_out_def
      handle_def raise_def world.extend_def world.truncate_def)

lemma updateStatus_answer:
  assumes "updateStatus K oc ph c t = (Ok (), u)"
  shows "\<exists>obj base e e'. k_PatchStatus K obj base e = (Inr (ctl_object u), e')"
  using assms
  by (auto simp: updateStatus_def send_def k_call_def set_object_def bnd_eq_Ok op_defs Let_def split: prod.splits outcome.splits sum.splits) blast

text \<open>
  C30: a Machine whose provider spec cannot be decoded is never let go.  The controller goes on with
  the deletion of a machine without addresses when Delete calls its configuration invalid, as it does
  here; but Exists, which it asks next, fails on the same spec, so no reconcile removes the finalizer,
  as long as the API server has that spec.
\<close>

theorem bad_spec_keeps_finalizer:
  assumes "\<And>obj base e obj' e'. k_PatchStatus K obj base e = (Inr obj', e') \<Longrightarrow> m_ProviderSpec (fst obj') = Some raw"
    and "a_Unmarshal_Spec A raw = Inl err"
    and "ctl_Reconcile K (nutanix_actuator A) ns n s = (r, s')"
  shows "K_RemoveFinalizer \<notin> set (new_steps s s')"
proof
  assume "K_RemoveFinalizer \<in> set (new_steps s s')"
  from removes_after_exists [OF assms(3) this] obtain t oc u d a a' where
    up: "updateStatus K oc PhaseDeleting None t = (Ok (), u)" and del: "Delete A (kt_act u) = (d, a)"
    and ex: "Exists A a = (Ok False, a')" by (auto simp: nutanix_actuator_def)
  from updateStatus_answer [OF up] assms(1) have spec: "m_ProviderSpec (ctl_machine u) = Some raw" by fastforce
  with bad_spec_no_scope [OF _ assms(2)] del have "ac_machine a = ctl_machine u"
    by (fastforce simp: Delete_def handleMachineError_def record_event_def op_defs split: if_splits)
  with spec have "m_ProviderSpec (ac_machine a) = Some raw" by simp
  with bad_spec_no_scope [OF _ assms(2)] ex show False by (fastforce simp: Exists_def op_defs)
qed

theorem bad_spec_keeps_finalizer_witness:
  "K_RemoveFinalizer \<notin> set (new_steps (ex_ctl_state [])
     (snd (ctl_Reconcile ((ex_ctl (ex_machine\<lparr>m_ProviderSpec := Some ''junk''\<rparr>, ex_meta True))
        \<lparr>k_PatchStatus := \<lambda>obj base e. (Inr ((fst obj)\<lparr>m_ProviderSpec := Some ''junk''\<rparr>, snd obj), e)\<rparr>)
        (nutanix_actuator ex_api) ''ns'' ''m1'' (ex_ctl_state []))))"
proof (rule bad_spec_keeps_finalizer [OF _ _ run_eq])
  show "a_Unmarshal_Spec ex_api ''junk'' = Inl (NewError ''bad json'')" by (simp add: ex_api_def)
qed auto

end
