(* ===== verification/Life_Properties.thy ===== *)
theory Life_Properties
  imports Progress Controller_Properties
begin

text \<open>
  Properties of the two controllers over the life of a Machine: what holds over any run of the
  process, the phases of a Machine, and the order of draining, deleting and letting go.
\<close>

section \<open>An example with control plane nodes\<close>

definition ex_control_plane :: "string \<Rightarrow> server \<Rightarrow> drain_node" where
  "ex_control_plane n e = \<lparr>n_Name = n, n_Labels = Some [nodeMasterLabel \<mapsto> []], n_ProviderID = [], n_VolumesAttached = [],
     nd_Unschedulable = n \<in> set (sv_cordoned e), nd_Conditions = []\<rparr>"

definition ex_drain :: "server drain_api" where
  "ex_drain = \<lparr>d_NewForConfig = (\<lambda>e. (Inr (), e)), d_GetNode = (\<lambda>n e. (Inr (ex_control_plane n e), e)),
     d_ListNodes = (\<lambda>e. (Inr (map (\<lambda>n. ex_control_plane n e) [''cp1'', ''cp2'']), e)),
     d_PatchNode = (\<lambda>node b e. (Inr (), if b \<and> isControlPlaneNode node then e\<lparr>sv_cordoned := n_Name node # sv_cordoned e\<rparr> else e)),
     d_RunNodeDrain = (\<lambda>h n e. (Inr (), e))\<rparr>"

definition ex_cordoned :: "server \<Rightarrow> nat" where
  "ex_cordoned e = length (filter (\<lambda>n. n \<in> set (sv_cordoned e)) [''cp1'', ''cp2''])"

definition ex_draining :: machine_object where
  "ex_draining = (ex_machine\<lparr>m_NodeRef := Some ''cp1''\<rparr>, (ex_meta True)\<lparr>mt_Phase := Some PhaseDeleting, mt_Conditions := Map.empty\<rparr>)"

lemma ex_ctl_inert: "inert_ctl V (ex_ctl obj)"
  by (simp add: inert_ctl_def inert_def ex_ctl_def)

lemma ex_drain_inert: "inert_drain V ex_drain"
  by (simp add: inert_drain_def inert_def ex_drain_def)

lemma ex_honest_nodes: "honest_nodes ex_cordoned ex_drain"
  unfolding honest_nodes_def
proof (intro conjI allI impI ex_drain_inert)
  fix e nodes e'
  assume "d_ListNodes ex_drain e = (Inr nodes, e') \<and> \<not> list_ex cordoned_control_plane nodes"
  then show "ex_cordoned e' = 0"
    by (auto simp: ex_drain_def ex_cordoned_def ex_control_plane_def isControlPlaneNode_def map_lookup_def)
next
  show "ex_cordoned (snd (d_PatchNode ex_drain node True e)) \<le> ex_cordoned e + (if isControlPlaneNode node then 1 else 0)" for node e
    by (cases "n_Name node = ''cp1''"; cases "n_Name node = ''cp2''") (simp_all add: ex_drain_def ex_cordoned_def)
qed

lemma ex_api_cordoned: "inert_api ex_cordoned ex_api"
proof -
  have "sv_cordoned e' = sv_cordoned e" if "answered ex_api c e e'" for c e e'
    using that by (cases rule: answered.cases) (simp_all add: ex_api_def)
  moreover have "sv_cordoned (snd (a_Now ex_api e)) = sv_cordoned e" for e by (simp add: ex_api_def)
  ultimately show ?thesis by (simp add: inert_api_def ex_cordoned_def)
qed

section \<open>Any run of the process\<close>

text \<open>
  C4: one VM per name, over any run of the process.  If Prism Central is honest about a machine name
  and nobody else adds a VM of that name, then after any sequence of reconciles of the machine
  controller and the drain controller, of any Machines and interleaved with any other changes
  outside, there is at most one VM of that name, given that there was at most one before.
\<close>

theorem process_one_vm_per_name:
  assumes "cluster K (nutanix_actuator A) D env s s'" and "honest_about A n V" and "dns_name n"
    and "inert_ctl V K" and "inert_drain V D" and "\<And>node b. inert V (d_PatchNode D node b)" and "\<And>e e'. env e e' \<Longrightarrow> V e' \<le> V e"
    and "V (w_ext (kt_act s)) \<le> 1"
  shows "V (w_ext (kt_act s')) \<le> 1"
  using cluster_capped_vms [OF assms(1-7)] assms(8) by (simp add: ctl_capped_def capped_def)

theorem process_one_vm_per_name_witness:
  "\<exists>s'. cluster (ex_ctl (ex_machine, ex_meta False)) (nutanix_actuator ex_api) ex_drain (\<lambda>e e'. e' = e) (ex_ctl_state []) s' \<and>
     ex_named ''m1'' (w_ext (kt_act s')) = 1"
proof -
  let ?K = "ex_ctl (ex_machine, ex_meta False)" and ?s = "ex_ctl_state []"
  let ?s' = "snd (ctl_Reconcile ?K (nutanix_actuator ex_api) ''ns'' ''m1'' ?s)"
  have run: "cluster ?K (nutanix_actuator ex_api) ex_drain (\<lambda>e e'. e' = e) ?s ?s'" by (intro cluster.intros)
  have "dns_name ''m1''" "ex_named ''m1'' (w_ext (kt_act ?s)) \<le> 1" by code_simp+
  moreover have "inert (ex_named ''m1'') (d_PatchNode ex_drain node b)" for node b
    by (simp add: inert_def ex_drain_def ex_named_def)
  ultimately have "ex_named ''m1'' (w_ext (kt_act ?s')) \<le> 1"
    using process_one_vm_per_name [OF run ex_honest _ ex_ctl_inert ex_drain_inert] by simp
  moreover have "ex_named ''m1'' (w_ext (kt_act ?s')) = 1"
    using ex_reconcile_new ex_create_adds ex_absent_eq unfolding ex_new_created_def by (metis snd_conv)
  ultimately show ?thesis using run by blast
qed

text \<open>
  C8: control plane nodes are drained one at a time.  If the cluster is honest about its cordoned
  control plane nodes and nobody else cordons one, then over any run of the process at most one of
  them is cordoned, given that at most one was before: the drain controller cordons a control plane
  node only after it saw that no other one is.
\<close>

theorem one_control_plane_drain:
  assumes "cluster K (nutanix_actuator A) D env s s'" and "honest_nodes V D" and "inert_ctl V K"
    and "inert_api V A" and "\<And>e e'. env e e' \<Longrightarrow> V e' \<le> V e" and "V (w_ext (kt_act s)) \<le> 1"
  shows "V (w_ext (kt_act s')) \<le> 1"
  using cluster_capped_nodes [OF assms(1-5)] assms(6) by (simp add: ctl_capped_def capped_def)

theorem one_control_plane_drain_witness:
  "\<exists>s'. cluster (ex_ctl ex_draining) (nutanix_actuator ex_api) ex_drain (\<lambda>e e'. e' = e) (ex_ctl_state []) s' \<and>
     ex_cordoned (w_ext (kt_act s')) = 1"
proof -
  let ?K = "ex_ctl ex_draining" and ?s = "ex_ctl_state []"
  let ?s' = "snd (drain_Reconcile ?K ex_drain ''ns'' ''m1'' ?s)"
  have run: "cluster ?K (nutanix_actuator ex_api) ex_drain (\<lambda>e e'. e' = e) ?s ?s'" by (intro cluster.intros)
  have "ex_cordoned (w_ext (kt_act ?s)) \<le> 1" by code_simp
  then have "ex_cordoned (w_ext (kt_act ?s')) \<le> 1"
    using one_control_plane_drain [OF run ex_honest_nodes ex_ctl_inert ex_api_cordoned] by simp
  moreover have "ex_cordoned (w_ext (kt_act ?s')) > 0" by code_simp
  ultimately show ?thesis using run by (intro exI [of _ ?s']) simp
qed

section \<open>Phases\<close>



section \<open>Draining and deleting\<close>

text \<open>
  C9: drained means drained.  If the drain controller sends the condition Drained, the Machine it read
  is being deleted, in the phase Deleting and not yet drained; and either it has no node to drain (none,
  or the annotation that excludes it), or no hook blocks the drain and the node is gone, or was found,
  cordoned unless it was so already (a control plane node after listing the nodes), and drained, in that order.
\<close>

theorem drained_only_after_drain:
  assumes "drain_Reconcile K D ns n s = (r, s')" and "D_Status \<in> set (new_steps s s')"
  shows "\<exists>m mt e. k_Get K ns n (w_ext (kt_act s)) = (Inr (m, mt), e) \<and> drain_due mt \<and>
     (if has_drainable_node m
      then mt_PreDrain mt = [] \<and> (\<exists>name e1 e2 answer. m_NodeRef m = Some name \<and> d_GetNode D name e1 = (answer, e2) \<and>
        (case answer of
           Inl err \<Rightarrow> apierrors_IsNotFound err \<and> new_steps s s' = [K_Get, D_NewClient, D_GetNode name, D_Status]
         | Inr node \<Rightarrow> (\<exists>e3 e4. d_RunNodeDrain D (drainer node) (n_Name node) e3 = (Inr (), e4)) \<and>
             new_steps s s' = [K_Get, D_NewClient, D_GetNode name] @ drain_steps node @ [D_Status]))
      else new_steps s s' = [K_Get, D_Status])"
  using assms(1)
proof (cases rule: drain_Reconcile_cases)
  case idle
  with assms(2) show ?thesis by (auto simp: steps_rel_def new_steps_def list_all_iff)
next
  case (due m mt e t)
  from due(4) show ?thesis
  proof (cases rule: drain_machine_cases)
    case idle
    with assms(2) due(3) show ?thesis by (auto simp: steps_rel_def new_steps_def list_all_iff)
  next
    case (skipped u)
    with due drain_finished_log [OF skipped(3)] show ?thesis by (auto simp: new_steps_def)
  next
    case (drained u v w)
    from drained(4) show ?thesis
    proof (cases rule: drainNode_Ok)
      case (gone name err e1 e2)
      with due drained drain_finished_log [OF drained(6)] show ?thesis
        by (intro exI [of _ m] exI [of _ mt] exI [of _ e]) (fastforce simp: new_steps_def)
    next
      case (drained name node e1 e2 e3 e4)
      with due \<open>has_drainable_node m\<close> \<open>mt_PreDrain mt = []\<close> \<open>kt_log u = kt_log t\<close> \<open>kt_log w = kt_log v\<close>
        drain_finished_log [OF \<open>drain_finished K (m, mt) _ w = (r, s')\<close>] show ?thesis
        by (intro exI [of _ m] exI [of _ mt] exI [of _ e]) (fastforce simp: new_steps_def)
    qed
  qed
qed

theorem drained_only_after_drain_witness:
  "drain_due (snd ex_draining) \<and> (\<exists>node. new_steps (ex_ctl_state [])
     (snd (drain_Reconcile (ex_ctl ex_draining) ex_drain ''ns'' ''m1'' (ex_ctl_state []))) =
       [K_Get, D_NewClient, D_GetNode ''cp1''] @ drain_steps node @ [D_Status])"
proof -
  let ?s' = "snd (drain_Reconcile (ex_ctl ex_draining) ex_drain ''ns'' ''m1'' (ex_ctl_state []))"
  have "List.member (new_steps (ex_ctl_state []) ?s') D_Status" by code_simp
  then have "D_Status \<in> set (new_steps (ex_ctl_state []) ?s')" by simp
  note facts = drained_only_after_drain [OF run_eq this]
  have "has_drainable_node (ex_machine\<lparr>m_NodeRef := Some ''cp1''\<rparr>)" by code_simp
  moreover have "d_GetNode ex_drain name e = (Inr (ex_control_plane name e), e)" for name e by (simp add: ex_drain_def)
  ultimately show ?thesis using facts by (auto simp: ex_ctl_machine ex_draining_def)
qed

text \<open>
  C6: drained before deleted.  If a reconcile asks Prism Central to delete a VM, it asks once, for a
  valid Machine that is being deleted and has the finalizer, whose node was marked as drained, that no
  hook protects, and whose node has no volumes attached any more.
\<close>

theorem deletes_only_if_drained:
  assumes "ctl_Reconcile K (nutanix_actuator A) ns n s = (r, s')"
    and "C_VMs_DeleteAsync v \<in> set (new_calls (kt_act s) (kt_act s'))"
  shows "filter is_delete (new_calls (kt_act s) (kt_act s')) = [C_VMs_DeleteAsync v] \<and>
     (\<exists>t oc u. quiet status_step s t \<and> mt_Deleted (kt_meta t) \<and> ctl_validateMachine (ctl_machine t) \<and>
        updateStatus K oc PhaseDeleting None t = (Ok (), u) \<and> may_delete (kt_meta u) \<and> volumes_gone A (ctl_machine u))"
proof -
  from nutanix_delete.Reconcile_deletes [OF assms] obtain t oc u where t: "quiet status_step s t" "mt_Deleted (kt_meta t)"
    "ctl_validateMachine (ctl_machine t)" "updateStatus K oc PhaseDeleting None t = (Ok (), u)" "may_delete (kt_meta u)"
    and calls: "filter is_delete (new_calls (kt_act s) (kt_act s')) = filter is_delete (new_calls (kt_act u) (snd (Delete A (kt_act u))))"
    by (auto simp: nutanix_actuator_def)
  have "C_VMs_DeleteAsync v \<in> set (filter is_delete (new_calls (kt_act s) (kt_act s')))" using assms(2) by simp
  then have "C_VMs_DeleteAsync v \<in> set (new_calls (kt_act u) (snd (Delete A (kt_act u))))" unfolding calls by simp
  from Delete_vm_call [OF run_eq this] calls t show ?thesis by auto
qed

text \<open>A deletion on the example: the machine has a VM and no node.\<close>

definition ex_fetched :: "server ctlState" where
  "ex_fetched = \<lparr>kt_act = ex_act ex_machine [ex_vm] None, kt_meta = ex_meta True, kt_log = [K_Get]\<rparr>"

definition ex_deleting :: "server ctlState" where
  "ex_deleting = \<lparr>kt_act = ex_act ex_machine [ex_vm] None,
     kt_meta = status_fields PhaseDeleting None (setLifecycleHookConditions (ex_meta True)), kt_log = [K_Get, K_Status PhaseDeleting]\<rparr>"

lemma ex_updateStatus: "updateStatus (ex_ctl obj) oc PhaseDeleting None ex_fetched = (Ok (), ex_deleting)"
  by (simp add: updateStatus_def ex_fetched_def ex_deleting_def ex_ctl_def send_def k_call_def set_object_def modify_meta_def
      PhaseDeleting_def PhaseFailed_def Let_def setLifecycleHookConditions_def set_condition_def ex_meta_def status_fields_def op_defs)

lemma ex_deleting_may: "may_delete (kt_meta ex_deleting)"
  by code_simp

lemma ex_Delete_sends: "fst (Delete ex_api (kt_act ex_deleting)) = Ok ()" "list_ex is_delete (w_calls (snd (Delete ex_api (kt_act ex_deleting))))"
  by code_simp+

lemma ex_reconcile_fetched:
  "ctl_Reconcile (ex_ctl (ex_machine, ex_meta True)) I ns n (ex_ctl_state [ex_vm]) =
     reconcile_deleted (ex_ctl (ex_machine, ex_meta True)) (mt_Conditions (ex_meta True)) I ex_fetched"
  by (simp add: ctl_Reconcile_def handle_def k_call_def ex_ctl_machine set_object_def modify_def check_authority_def bnd_def
      check_valid_def gets_def ex_new_machine add_finalizer_def ret_def ex_ctl_act) (simp add: ex_ctl_state_def ex_fetched_def)

lemma ex_reconcile_deletes:
  assumes run: "reconcile_deleted (ex_ctl obj) oc (nutanix_actuator ex_api) ex_fetched = (r, s')"
  shows "list_ex is_delete (w_calls (kt_act s'))"
proof -
  obtain q t where c: "call_Delete (ex_ctl obj) (nutanix_actuator ex_api) ex_deleting = (q, t)" by fastforce
  with call_run(2) [OF c] ex_Delete_sends(1) have t: "call_Delete (ex_ctl obj) (nutanix_actuator ex_api) ex_deleting = (Ok (), t)"
    "kt_act t = snd (Delete ex_api (kt_act ex_deleting))" by (auto simp: nutanix_actuator_def)
  with run ex_deleting_may have "finish_delete (ex_ctl obj) (nutanix_actuator ex_api) t = (r, s')"
    by (simp add: reconcile_deleted_def ex_updateStatus gets_def bnd_eq_Ok may_delete_def handle_eq_Ok t(1))
  from keepsD [OF nutanix_delete.finish_deletes_none this] t(2) ex_Delete_sends(2) show ?thesis
    by (auto simp: sends_no_def log_rel_def)
qed

theorem deletes_only_if_drained_witness:
  "\<exists>v. filter is_delete (new_calls (kt_act (ex_ctl_state [ex_vm]))
     (kt_act (snd (ctl_Reconcile (ex_ctl (ex_machine, ex_meta True)) (nutanix_actuator ex_api) ''ns'' ''m1'' (ex_ctl_state [ex_vm]))))) =
     [C_VMs_DeleteAsync v]"
proof -
  obtain r s' where run: "ctl_Reconcile (ex_ctl (ex_machine, ex_meta True)) (nutanix_actuator ex_api) ''ns'' ''m1'' (ex_ctl_state [ex_vm]) = (r, s')"
    by fastforce
  have "list_ex is_delete (new_calls (kt_act (ex_ctl_state [ex_vm])) (kt_act s'))"
    using ex_reconcile_deletes run unfolding ex_reconcile_fetched
    by (simp add: new_calls_def ex_ctl_state_def ex_act_def ex_world_def world.extend_def)
  then show ?thesis
  proof (rule delete_call_of)
    fix v assume "C_VMs_DeleteAsync v \<in> set (new_calls (kt_act (ex_ctl_state [ex_vm])) (kt_act s'))"
    from deletes_only_if_drained [OF run this] run show ?thesis by auto
  qed
qed

section \<open>From the first reconcile to the instance, and from the deletion mark to the end\<close>

text \<open>The example server as a store of one Machine, with a worker node.\<close>

definition ex_stored :: "server \<Rightarrow> machine_object" where
  "ex_stored e = (case sv_object e of Some obj \<Rightarrow> obj | None \<Rightarrow> (ex_machine, ex_meta False))"

definition ex_write :: "machine_object \<Rightarrow> (server, machine_object) ext_call" where
  "ex_write obj e = (Inr (version ''9'' obj), e\<lparr>sv_object := Some (version ''9'' obj)\<rparr>)"

definition ex_store :: "server ctl_api" where
  "ex_store = (ex_ctl (ex_machine, ex_meta False))\<lparr>k_Get := \<lambda>ns n e. (Inr (ex_stored e), e), k_Update := ex_write,
     k_PatchStatus := \<lambda>obj base. ex_write obj\<rparr>"

definition ex_workers :: "server drain_api" where
  "ex_workers = ex_drain\<lparr>d_GetNode := \<lambda>n e. (Inr ((ex_control_plane n e)\<lparr>n_Labels := None\<rparr>), e)\<rparr>"

definition ex_linked :: Machine where
  "ex_linked = ex_machine\<lparr>m_NodeRef := Some ''w1''\<rparr>"

abbreviation ex_provider :: "server \<Rightarrow> Vm list \<times> Node option" where
  "ex_provider e \<equiv> (sv_vms e, sv_node e)"

lemma ex_stores: "stores ex_store ns n ex_stored ex_provider"
  by (auto simp: stores_def ex_store_def ex_ctl_def ex_write_def ex_stored_def version_def)

lemma ex_frees: "frees_nodes ex_store"
proof -
  have "apierrors_IsNotFound node_not_found" by code_simp
  then show ?thesis by (simp add: frees_nodes_def ex_store_def ex_ctl_def)
qed

lemma ex_drains: "drains ex_workers name (\<lambda>e. (ex_stored e, ex_provider e))"
  by (simp add: drains_def ex_workers_def ex_drain_def ex_control_plane_def isControlPlaneNode_def map_lookup_def ex_stored_def)

text \<open>The actuator in any state with these VMs and no node object.\<close>

abbreviation ex_at :: "Vm list \<Rightarrow> nat \<Rightarrow> string list \<Rightarrow> machine_object option \<Rightarrow> call list \<Rightarrow> event list \<Rightarrow> metric list \<Rightarrow> Machine \<Rightarrow> server actuatorState" where
  "ex_at vms c cord ob cs evs ms m \<equiv> \<lparr>w_ext = \<lparr>sv_vms = vms, sv_node = None, sv_clock = c, sv_cordoned = cord, sv_object = ob\<rparr>,
     w_calls = cs, w_events = evs, w_metrics = ms, ac_machine = m\<rparr>"

lemma ex_at_cases:
  assumes "ex_provider (w_ext a) = (vms, None)" and "ac_machine a = m"
  obtains c cord ob cs evs ms where "a = ex_at vms c cord ob cs evs ms m"
proof -
  have "a = ex_at vms (sv_clock (w_ext a)) (sv_cordoned (w_ext a)) (sv_object (w_ext a)) (w_calls a) (w_events a) (w_metrics a) m"
    using assms by (cases a; cases "w_ext a") simp
  then show thesis by (rule that)
qed

lemma ex_delete_any: "fst (Delete ex_api (ex_at [ex_vm] c cord ob cs evs ms (ex_linked\<lparr>m_ResourceVersion := ver\<rparr>))) = Ok ()"
  by code_simp

lemma ex_gone_any: "fst (Exists ex_api (snd (Delete ex_api (ex_at [ex_vm] c cord ob cs evs ms (ex_linked\<lparr>m_ResourceVersion := ver\<rparr>))))) = Ok False"
  by code_simp

lemma ex_absent_any: "fst (Exists ex_api (ex_at [] c cord ob cs evs ms (ex_machine\<lparr>m_ResourceVersion := ver\<rparr>))) = Ok False"
  by code_simp

lemma ex_absent_view: "case w_ext (snd (Exists ex_api (ex_at [] c cord ob cs evs ms (ex_machine\<lparr>m_ResourceVersion := ver\<rparr>)))) of e \<Rightarrow>
    length (sv_vms e) = 0 \<and> Option.is_none (sv_node e)"
  by code_simp

lemma ex_create_any: "fst (Create ex_api (ex_at [] c cord ob cs evs ms (ex_machine\<lparr>m_ResourceVersion := ver\<rparr>))) = Ok ()"
  by code_simp

lemma ex_deletable: "deletable (nutanix_actuator ex_api) ex_provider ([ex_vm], None) ex_linked"
  unfolding deletable_def
proof (intro allI impI, elim conjE)
  fix a :: "server actuatorState" and ver assume "ex_provider (w_ext a) = ([ex_vm], None)" "ac_machine a = ex_linked\<lparr>m_ResourceVersion := ver\<rparr>"
  then show "\<exists>a' b. i_Delete (nutanix_actuator ex_api) a = (Ok (), a') \<and> i_Exists (nutanix_actuator ex_api) a' = (Ok False, b)"
    by (rule ex_at_cases) (simp add: nutanix_actuator_def, blast intro: run_as [OF ex_delete_any] run_as [OF ex_gone_any])
qed

lemma ex_absent_now: "absent (nutanix_actuator ex_api) ex_provider ([], None) ex_machine"
  unfolding absent_def
proof (intro allI impI, elim conjE)
  fix a :: "server actuatorState" and ver assume "ex_provider (w_ext a) = ([], None)" "ac_machine a = ex_machine\<lparr>m_ResourceVersion := ver\<rparr>"
  then show "\<exists>a'. i_Exists (nutanix_actuator ex_api) a = (Ok False, a') \<and> ex_provider (w_ext a') = ([], None) \<and> ac_machine a' = ac_machine a"
  proof (rule ex_at_cases)
    fix c cord ob cs evs ms assume a: "a = ex_at [] c cord ob cs evs ms (ex_machine\<lparr>m_ResourceVersion := ver\<rparr>)"
    have run: "Exists ex_api a = (Ok False, snd (Exists ex_api a))" unfolding a by (rule run_as [OF ex_absent_any])
    with Exists_Ok_machine [OF run] ex_absent_view [of c cord ob cs evs ms ver, folded a] show ?thesis
      by (intro exI [of _ "snd (Exists ex_api a)"]) (simp add: nutanix_actuator_def Option.is_none_def)
  qed
qed

lemma ex_creatable: "creatable (nutanix_actuator ex_api) ex_provider ([], None) ex_machine"
  unfolding creatable_def nutanix_actuator_def
  by (auto elim!: ex_at_cases [rotated] intro!: run_as [OF ex_create_any] exI)


definition ex_to_delete :: "server ctlState" where
  "ex_to_delete = \<lparr>kt_act = ex_at [ex_vm] 0 [] (Some (ex_linked, (ex_meta True)\<lparr>mt_Conditions := Map.empty\<rparr>)) [] [] [] ex_machine,
     kt_meta = ex_meta False, kt_log = []\<rparr>"



definition ex_to_create :: "server ctlState" where
  "ex_to_create = \<lparr>kt_act = ex_at [] 0 [] (Some (ex_machine, (ex_meta False)\<lparr>mt_Finalizers := [], mt_Phase := None\<rparr>)) [] [] [] ex_machine,
     kt_meta = ex_meta False, kt_log = []\<rparr>"


end
