(* ===== verification/Spec2Isabelle.thy ===== *)
theory Spec2Isabelle
  imports Data_Properties Spec_Properties Life_Properties
begin

text \<open>
  The Nutanix provider of the OpenShift machine API, \<^verbatim>\<open>openshift/machine-api-provider-nutanix\<close>.

  \<^bold>\<open>The program.\<close>  The \<^emph>\<open>machine controller\<close> of the machine API operator, which the repository vendors
  and runs, calls the \<^emph>\<open>actuator\<close> with a Machine object: \<^verbatim>\<open>Create\<close>, \<^verbatim>\<open>Exists\<close>, \<^verbatim>\<open>Update\<close>, \<^verbatim>\<open>Delete\<close>.  The actuator builds a \<^emph>\<open>machine scope\<close> (the decoded
  provider spec and status, the clients of Prism Central, the failure domain), runs the
  \<^emph>\<open>reconciler\<close> in it, records an event or a failure metric and patches the Machine object.  The
  reconciler \<^emph>\<open>validates\<close> the spec against Prism Central (names become uuids), \<^emph>\<open>builds and
  creates\<close> the VM, looks it up, deletes it, and copies its state to the Machine object.  A second
  controller annotates MachineSets with the capacity of their machines.  The \<^emph>\<open>process\<close> parses its
  command line, builds a controller manager from it, registers the controllers and starts it.  Beside
  the machine controller runs the \<^emph>\<open>drain controller\<close>, which drains the node of a Machine that is
  being deleted; the machine controller waits for its mark on the Machine before it deletes the VM.

  \<^bold>\<open>The theories\<close>, each importing the ones it calls, and the source files under \<^verbatim>\<open>src/\<close> they model:

  \<^item> \<^verbatim>\<open>Prelude\<close>: the result of a Go call (\<open>Ok\<close>, \<open>Err\<close>, \<open>Panic\<close>), operations as functions from a
    state to a result and a state (\<open>bnd\<close>, \<open>handle\<close>, ...), the rule collections, and the locale
    \<open>op_frame\<close>: a reflexive and transitive relation on states that every step of an operation
    keeps is kept by the operation.
  \<^item> \<^verbatim>\<open>Go_Std\<close>, \<^verbatim>\<open>Go_Net\<close>: what the sources use of Go's standard library: integer widths and
    division, \<^verbatim>\<open>strings\<close>, \<^verbatim>\<open>strconv\<close>, base64, JSON strings, and \<^verbatim>\<open>net.ParseIP\<close> with IPv4 networks.
  \<^item> \<^verbatim>\<open>Errors\<close>, \<^verbatim>\<open>API_Types\<close>: error values with wrapping, field errors and their aggregate, and the
    API objects as records.
  \<^item> \<^verbatim>\<open>World\<close>: the outside.  The record \<open>api\<close> is a parameter of every operation: one function per
    external call (Prism Central's clients, the Kubernetes API, the environment, the clock, the
    JSON codecs of third-party types) over an arbitrary outside state.  Unless a
    property names one as a hypothesis (an honest or a storing server), no law is assumed of it: the theorems
    hold for every answer a server may give, and answers may change between two calls.  The world records the calls, events and metrics in order; the theorems read that log.
  \<^item> \<^verbatim>\<open>PC_Client\<close>: \<^verbatim>\<open>pkg/client/client.go\<close>.  \<^verbatim>\<open>Utils\<close>: \<^verbatim>\<open>pkg/actuators/machine/utils.go\<close>.
  \<^item> \<^verbatim>\<open>Lookup\<close>, \<^verbatim>\<open>Validate\<close>, \<^verbatim>\<open>Build_VM\<close>: \<^verbatim>\<open>pkg/actuators/machine/vm.go\<close>, its lookups by uuid and
    name, \<^verbatim>\<open>validateVMConfig\<close> and its parts, \<^verbatim>\<open>buildV4VMFromScope\<close> and \<^verbatim>\<open>createVM\<close>.
  \<^item> \<^verbatim>\<open>Scope_State\<close>, \<^verbatim>\<open>Addresses\<close>, \<^verbatim>\<open>Scope\<close>: \<^verbatim>\<open>pkg/actuators/machine/machine_scope.go\<close>.  A scope is
    the record \<open>machineScope\<close>, an extension of the world.
  \<^item> \<^verbatim>\<open>Reconcile\<close>: \<^verbatim>\<open>reconciler.go\<close>.  \<^verbatim>\<open>Actuator\<close>: \<^verbatim>\<open>actuator.go\<close>.  \<^verbatim>\<open>MachineSet\<close>:
    \<^verbatim>\<open>pkg/actuators/machineset/controller.go\<close>.
  \<^item> \<^verbatim>\<open>Go_Flag\<close>, \<^verbatim>\<open>Manager\<close>: Go's \<^verbatim>\<open>flag\<close> parser and \<^verbatim>\<open>time.ParseDuration\<close>; \<^verbatim>\<open>cmd/manager/main.go\<close>,
    \<^verbatim>\<open>pkg/version\<close>, \<^verbatim>\<open>NewActuator\<close> and \<^verbatim>\<open>SetupWithManager\<close>.  The packages the process calls are the
    record \<open>boot\<close>, a parameter like \<open>api\<close>; the process state logs those calls and its output.
  \<^item> \<^verbatim>\<open>Outside\<close>, \<^verbatim>\<open>History\<close>: above the model, the relation between the log and the outside (\<open>answered\<close>
    for one call, \<open>evolves\<close> for a list of calls) and sequences of actuator calls interleaved with
    other changes (\<open>history\<close>).  \<^verbatim>\<open>No_Panic\<close>: the triple \<open>safe\<close> and what the untested pointer
    dereferences rely on (\<open>well_answered\<close>).
  \<^item> \<^verbatim>\<open>Machine_Controller\<close>: \<^verbatim>\<open>Reconcile\<close> of the vendored
    \<^verbatim>\<open>machine-api-operator/pkg/controller/machine/controller.go\<close>, over any implementation of the
    interface \<^verbatim>\<open>Actuator\<close> (the record \<open>Actuator_impl\<close>); its own calls of the Kubernetes API are the
    record \<open>ctl_api\<close>, a parameter too, and its state logs what it did, in order.
  \<^item> \<^verbatim>\<open>Drain\<close>: \<^verbatim>\<open>Reconcile\<close> of the vendored \<^verbatim>\<open>drain_controller.go\<close> beside it, on the same state, with kubectl's
    \<^verbatim>\<open>RunCordonOrUncordon\<close>; its calls, the eviction of the pods of a node among them, are the record
    \<open>drain_api\<close>.
  \<^item> \<^verbatim>\<open>Actuator_Contract\<close>: what the machine controller relies on of an actuator, met by this provider's.
    \<^verbatim>\<open>Cluster\<close>: runs of the process (\<open>cluster\<close>), any sequence of reconciles of both controllers
    interleaved with other changes outside.  \<^verbatim>\<open>Life_Cycle\<close>: the phases of a Machine as a step relation
    (\<open>next_phase\<close>) and what every operation of the machine controller sends of it.  \<^verbatim>\<open>Progress\<close>: the triple
    \<open>ends\<close> (a run returns, and what holds then), an API server that stores what it is sent (\<open>stores\<close>), and
    the stages of a Machine's life as one reconcile each.
  \<^item> \<^verbatim>\<open>Example_Server\<close>: a concrete, executable Prism Central and API server on which the witnesses
    run whole actuator calls.
  \<^item> \<^verbatim>\<open>Data_Properties\<close>, \<^verbatim>\<open>Spec_Properties\<close>, \<^verbatim>\<open>System_Properties\<close>,
    \<^verbatim>\<open>Controller_Properties\<close>, \<^verbatim>\<open>Life_Properties\<close> and this theory: the properties.

  \<^bold>\<open>Reading the model.\<close>  A definition has the name of the Go function; a loop is a recursive
  function with the suffix \<^verbatim>\<open>_loop\<close>, a part of a long function a definition of its own.  A pointer
  is an \<open>option\<close> and its dereference can panic; an \<^verbatim>\<open>int32\<close> or \<^verbatim>\<open>int64\<close> is a word of that width.
  Every function terminates: the loops run over finite lists, and waiting for a task is one
  external call, so there is no fuel in the development.  The one loop without a bound in the code,
  that of the flag parser, is a \<^verbatim>\<open>partial_function\<close> that is proved to return.

  \<^bold>\<open>Interfaces.\<close>  \<open>op_frame\<close> is interpreted for the call log, for the scope, for the Machine
  object, for the true account of the log, for the number of VMs of a name, for the steps of the
  machine controller, for the calls it must not make, for what a run of the process may add and for the
  phases it sends; \<open>name_lookup\<close> is the contract of the lookups by name (image, subnet); \<open>ref_check\<close> the
  contract of checking and resolving one reference of the spec, met by the five checks of
  \<^verbatim>\<open>vm.go\<close>; \<open>actuation\<close> the shape of an actuator method (make a scope, run the reconciler, record,
  patch), interpreted as creation, deletion and update; \<open>actuator_contract\<close> and \<open>delete_contract\<close> what the
  machine controller relies on to create at most one instance and to delete only a drained one, both met
  by this provider's actuator.

  \<^bold>\<open>What is proved.\<close>
  \<^item> Creation: a VM is sent at most once, only after both lookups said that there is none, and it is
    the VM that the abstract function \<open>vm_of_spec\<close> gives for a spec that \<open>spec_resolves\<close> accepts;
    success means it was created, waited for and powered on, and the Machine records it.
  \<^item> Deletion: no delete call while the machine's node has volumes attached; success means a task
    was waited for or there was nothing to delete; requeueing errors reach the caller.
  \<^item> Update and existence: updates only synchronise; \<open>exists\<close> answers as the lookups do.
  \<^item> Lookups, validation, the VM builder, scopes, patches, user data, addresses, conditions,
    credentials and the MachineSet annotations: exact behaviour, on the error paths too.
  \<^item> The whole: over any run of the process an honest Prism Central never holds two VMs of one
    machine name, and no two control plane nodes are being drained at once; the log accounts for every change outside; no entry point panics unless one of four
    documented assumptions on decoded objects fails.
  \<^item> The life of a Machine: a reconcile creates a VM exactly for a live, valid, unprovisioned Machine of
    which the provider just said that it has none, and then one; it removes the finalizer only after the
    deletion went through and the instance was seen to be gone.  A Machine whose provider spec cannot be
    decoded is never let go.  Every phase it sends is a step of the life cycle, and it deletes a VM only
    after the node was marked as drained; the drain controller sets that mark only after a drain that
    went through or had nothing to do, and never past a pre-drain hook.
  \<^item> Progress: with a server that stores what it is sent, three reconciles take a new Machine to the creation
    of its instance, and three more, the drain controller's between two of the machine controller's, take
    one that is being deleted to the end; every one of them returns without an error.
  \<^item> Start-up: Start is called only after every registration, in a fixed order and with the options of
    the command line; every failure has its exit code; the command line round-trips; the parser ends.
  \<^item> Where the code does something it does not mean, a theorem states what it does: the provider
    conditions of earlier operations are dropped, and the vCPU annotation wraps at 32 bits.

  \<^bold>\<open>Not modelled.\<close>  Log output (\<^verbatim>\<open>klog\<close>) except where its arguments can panic; contexts and
  cancellation; concurrent workers inside one call (a history interleaves whole actuator calls);
  the contents of object metadata the provider does not read; the floating-point product of a
  fractional duration, a parameter of \<^verbatim>\<open>time.ParseDuration\<close>; the vendored clients; of the vendored machine and
  drain controllers their registration with the manager, the rate limiter, the phase metric and the time
  stamps; of kubectl the eviction of pods, one call of \<open>drain_api\<close>; the test helpers.
\<close>

section \<open>Creation\<close>

text \<open>
  C1: at most one VM, and a legal one.  If a run of the actuator's \<open>Create\<close> sends a VM to Prism
  Central, it sends exactly one and deletes none, and that VM is the VM of the machine's
  resolved and validated provider spec, in a scope made for this machine.
\<close>

theorem Create_sends_legal_vm:
  assumes "Create A a = (r, a')" and "C_VMs_Create v \<in> set (new_calls a a')"
  shows "filter is_create (new_calls a a') = [C_VMs_Create v] \<and> filter is_delete (new_calls a a') = [] \<and>
     validateMachine (ac_machine a) = Ok () \<and> (\<exists>s. scope_ok A (ac_machine a) s \<and> legal_vm A s v)"
  using assms by (rule Create_vm_call)

theorem Create_sends_legal_vm_witness:
  "\<exists>v s. C_VMs_Create v \<in> set (new_calls (ex_act ex_machine [] None) (snd (Create ex_api (ex_act ex_machine [] None)))) \<and>
     scope_ok ex_api ex_machine s \<and> legal_vm ex_api s v"
proof -
  have "list_ex is_create (new_calls (ex_act ex_machine [] None) (snd (Create ex_api (ex_act ex_machine [] None))))"
    by code_simp
  then obtain v where v: "C_VMs_Create v \<in> set (new_calls (ex_act ex_machine [] None) (snd (Create ex_api (ex_act ex_machine [] None))))"
    by (rule create_call_of)
  from Create_sends_legal_vm [OF run_eq v] v show ?thesis by (simp only: ex_act_machine) blast
qed

text \<open>
  C3: \<open>createVM\<close> sends a VM only after it was told that there is none: the lookup by the recorded
  uuid, if there is one, and the lookup by name both failed with a not-found error first.
\<close>

theorem createVM_only_if_absent:
  assumes "createVM A ud s = (r, s')" and "C_VMs_Create v \<in> set (new_calls s s')"
  shows "\<exists>t t'. uuid_is_free A s t \<and> name_is_free A (m_Name (s_machine s)) t t'"
  using assms(1)
proof (cases rule: createVM_trace)
  case kept
  then have "list_all is_read (new_calls s s')" by (intro call_rel_new_calls)
  with assms(2) show ?thesis by (auto simp: list_all_iff)
qed blast

theorem createVM_only_if_absent_witness:
  "\<exists>t t'. uuid_is_free ex_api ex_validated t \<and> name_is_free ex_api ''m1'' t t'"
proof -
  have "list_ex is_create (new_calls ex_validated (snd (createVM ex_api [] ex_validated)))" by code_simp
  then obtain v where v: "C_VMs_Create v \<in> set (new_calls ex_validated (snd (createVM ex_api [] ex_validated)))"
    by (rule create_call_of)
  from createVM_only_if_absent [OF run_eq v] ex_validated_name show ?thesis by simp
qed

text \<open>
  C17: \<open>createVM\<close> is idempotent: a VM that is found by its recorded uuid or, failing that, by name is
  returned as it is, and nothing is changed anywhere.
\<close>

theorem createVM_existing:
  assumes "found_vm A s vm s'"
  shows "createVM A ud s = (Ok vm, s') \<and> list_all is_read (new_calls s s') \<and> world.more s' = world.more s"
proof -
  have run: "createVM A ud s = (Ok vm, s')"
    using assms unfolding found_vm_def
    by (auto simp: createVM_def create_by_name_def uuid_is_free_def gets_def bnd_eq_Ok handle_eq_Ok handle_eq_Err ret_def
        split: option.splits)
  from assms have "call_rel is_read s s'"
    by (auto simp: found_vm_def dest!: keepsD [OF findVMByUUID_rel] keepsD [OF findVMByName_rel] uuid_is_free_rel
        intro: call_frame.trans)
  with run show ?thesis by (simp add: call_rel_new_calls call_rel_more)
qed

theorem createVM_existing_witness:
  "\<exists>s'. createVM ex_api [] (ex_scope ex_machine (empty_status\<lparr>st_VmUUID := Some ''vm-1''\<rparr>) [ex_vm] None) = (Ok ex_vm, s')"
proof -
  let ?s = "ex_scope ex_machine (empty_status\<lparr>st_VmUUID := Some ''vm-1''\<rparr>) [ex_vm] None"
  have "found_vm ex_api ?s ex_vm (?s\<lparr>w_calls := [C_VMs_Get ''vm-1'']\<rparr>)"
    by (simp add: found_vm_def findVMByUUID_def call_api_def ex_scope_def ex_world_def ex_api_def find_vm_def ex_vm_def)
  from createVM_existing [OF this] show ?thesis by blast
qed

text \<open>
  C13: a successful \<open>create\<close> that sent a VM went all the way: it created it, powered it on, waited
  for the task and read it back, in this order, after reads only.
\<close>

theorem create_Ok_powers_on:
  assumes "create A s = (Ok (), s')" and "C_VMs_Create v \<in> set (new_calls s s')"
  shows "\<exists>rs u task after. new_calls s s' = rs @ create_trace v u task @ after \<and>
     list_all is_read rs \<and> list_all sync_call after"
  using assms(1)
proof (cases rule: create_trace_cases)
  case reads
  with assms(2) show ?thesis by (auto simp: list_all_iff)
next
  case (creates v' rs u task k after)
  then have "take (Suc k) (create_trace v' u task) = create_trace v' u task" by (simp add: create_trace_def)
  moreover from create_vm_call(3) [OF assms] creates(1-3) have "v' = v"
    using filter_reads no_create_sync filter_create_trace(1) [of k v' u task] by force
  ultimately show ?thesis using creates by auto
qed

theorem create_Ok_powers_on_witness:
  "\<exists>v rs u task after. new_calls ex_start ex_created = rs @ create_trace v u task @ after"
proof -
  obtain v where "C_VMs_Create v \<in> set (new_calls ex_start ex_created)" using ex_create_sends by blast
  from create_Ok_powers_on [OF ex_create_run this] show ?thesis by blast
qed



text \<open>
  A spec that does not validate is refused without any change: \<open>create\<close> makes only reads and
  fails with an invalid-configuration error whose message contains every field error.
\<close>

theorem create_rejects:
  assumes "validateMachine (s_machine s) = Ok ()" and "getUserData A s = (Ok ud, s1)"
    and "validateVMConfig A s1 = (Ok errs, s')" and "errs \<noteq> []"
  shows "\<exists>msg. create A s = (Err (InvalidMachineConfiguration msg), s') \<and> list_all is_read (new_calls s s') \<and>
     list_all (\<lambda>e. strings_Contains msg (field_Error e)) errs"
proof -
  let ?msg = "m_Name (s_machine s) @ '': failed in validating machine providerSpec: '' @ aggregate_Error errs"
  have "create A s = (Err (InvalidMachineConfiguration ?msg), s')"
    using assms by (simp add: create_def gets_def lift_out_def bnd_def handle_def raise_def)
  moreover have "scope_rel is_read s s'"
    by (rule scope_frame.trans [OF call_rel_scope_rel [OF keepsD [OF getUserData_rel assms(2)]] keepsD [OF validateVMConfig_rel assms(3)]])
  moreover have "strings_Contains ?msg (field_Error e)" if "e \<in> set errs" for e
    using strings_Contains_append [OF aggregate_Error_contains [OF that], of "m_Name (s_machine s) @ '': failed in validating machine providerSpec: ''" "[]"]
    by simp
  ultimately show ?thesis by (intro exI [of _ ?msg]) (simp add: list_all_iff [of _ errs] scope_rel_new_calls)
qed

theorem create_rejects_witness:
  "\<exists>msg s'. create ex_api (ex_start\<lparr>s_providerSpec := empty_spec\<rparr>) = (Err (InvalidMachineConfiguration msg), s')"
proof -
  let ?s = "ex_start\<lparr>s_providerSpec := empty_spec\<rparr>"
  have m: "validateMachine (s_machine ?s) = Ok ()"
    by (simp add: validateMachine_def ex_start_def ex_scope_def ex_machine_def map_get_def)
  have u: "getUserData ex_api ?s = (Ok [], ?s)" by (simp add: getUserData_def gets_def ret_def bnd_eq_Ok empty_spec_def)
  have "case fst (validateVMConfig ex_api ?s) of Ok errs \<Rightarrow> errs \<noteq> [] | _ \<Rightarrow> False" by code_simp
  then obtain errs where ne: "errs \<noteq> []" and f: "fst (validateVMConfig ex_api ?s) = Ok errs" by (auto split: outcome.splits)
  from create_rejects [OF m u run_as [OF f] ne] show ?thesis by blast
qed

section \<open>Deletion\<close>



text \<open>
  C16: a machine whose node still has volumes attached is not deleted but requeued: \<open>delete\<close> makes
  only reads and asks to be called again in 20 seconds.
\<close>

theorem delete_requeues:
  assumes "find_machine_vm A s = (Ok v, t)" and "m_NodeRef (s_machine s) = Some n" and "n \<noteq> []"
    and "a_Get_Node A n (w_ext t) = (Inr node, e)" and "n_VolumesAttached node \<noteq> []"
  shows "\<exists>s'. delete A s = (Err (RequeueAfterError 20), s') \<and> list_all is_read (new_calls s s')"
proof -
  have rt: "call_rel is_read s t" by (rule keepsD [OF find_machine_vm_rel assms(1)])
  let ?s' = "t\<lparr>w_ext := e, w_calls := w_calls t @ [C_Get_Node n]\<rparr>"
  have "nodeHasVolumesAttached A t = (Ok True, ?s')"
    using assms call_rel_fields(3) [OF rt] by (simp add: nodeHasVolumesAttached_linked)
  then have c: "check_volumes A (s_machine s) t = (Ok True, ?s')"
    using assms by (simp add: check_volumes_def isNodeLinked_def handle_eq_Ok ret_def)
  then have "delete A s = (Err (RequeueAfterError 20), ?s')"
    using assms(1) by (simp add: delete_def gets_def bnd_eq_Ok handle_eq_Ok Let_def raise_def)
  moreover have "call_rel is_read s ?s'" by (rule call_frame.trans [OF rt keepsD [OF check_volumes_rel c]])
  ultimately show ?thesis by (auto dest: call_rel_new_calls)
qed

theorem delete_requeues_witness:
  "\<exists>s'. delete ex_api ex_attached = (Err (RequeueAfterError 20), s')"
  using delete_requeues [of ex_api ex_attached ex_vm "ex_attached\<lparr>w_calls := [C_VMs_Get ''vm-1'']\<rparr>" "''n1''" ex_node "w_ext ex_attached"]
  by (auto simp: ex_attached_def find_machine_vm_def findVMByUUID_def call_api_def gets_def bnd_eq_Ok ex_scope_def ex_world_def
      ex_api_def find_vm_def ex_vm_def ex_node_def)

text \<open>
  C15: \<open>delete\<close> succeeds in two ways only: the VM was not found, and the machine is left alone, or
  the deletion of the VM found went through, and the machine has no provider id and no addresses
  any more.
\<close>

theorem delete_Ok_cases:
  assumes "delete A s = (Ok (), s')"
  shows "(\<exists>e. find_machine_vm A s = (Err e, s') \<and> isNotFoundError (Some e) \<and> s_machine s' = s_machine s) \<or>
     (\<exists>v t t1 t2. find_machine_vm A s = (Ok v, t) \<and> check_volumes A (s_machine s) t = (Ok False, t1) \<and>
        deleteVM A (ptr_Deref (vm_ExtId v) []) t1 = (Ok (), t2) \<and>
        s_machine s' = (s_machine s)\<lparr>m_ProviderID := None, m_Addresses := []\<rparr>)"
  using assms
proof (cases rule: delete_cases)
  case (absent e)
  with call_rel_fields(3) [OF keepsD [OF find_machine_vm_rel absent(1)]] show ?thesis by blast
next
  case (deleted v t t1 t2)
  then show ?thesis
    by (intro disjI2 exI [of _ v] exI [of _ t] exI [of _ t1] exI [of _ t2]) simp
qed simp_all

theorem delete_Ok_cases_witness:
  "\<exists>e. find_machine_vm ex_api ex_start = (Err e, snd (delete ex_api ex_start)) \<and> isNotFoundError (Some e)"
proof -
  have "fst (delete ex_api ex_start) = Ok ()" by code_simp
  then have run: "delete ex_api ex_start = (Ok (), snd (delete ex_api ex_start))" by (rule run_as)
  have "\<not> is_Ok (fst (find_machine_vm ex_api ex_start))" by code_simp
  with delete_Ok_cases [OF run] show ?thesis by auto
qed

section \<open>Update and existence\<close>

text \<open>
  C20: \<open>update\<close> only copies state: besides reads it makes no call but updates of the machine's node.
  It never creates, deletes or powers on a VM, so a VM whose power-on failed is not started by
  later reconciliations either.
\<close>

theorem update_only_syncs:
  "list_all sync_call (new_calls s (snd (update A s))) \<and> filter is_create (new_calls s (snd (update A s))) = [] \<and>
     filter is_power_on (new_calls s (snd (update A s))) = [] \<and> filter is_delete (new_calls s (snd (update A s))) = []"
proof -
  obtain r s' where run: "update A s = (r, s')" by fastforce
  have "list_all sync_call (new_calls s s')" by (rule log_rel_new_calls [OF keepsD [OF update_log run]])
  with no_create_sync run show ?thesis by auto
qed

theorem update_only_syncs_witness:
  "is_Ok (fst (update ex_api (ex_scope ex_machine empty_status [ex_vm] None))) \<and>
     filter is_power_on (new_calls (ex_scope ex_machine empty_status [ex_vm] None)
       (snd (update ex_api (ex_scope ex_machine empty_status [ex_vm] None)))) = []"
proof (intro conjI)
  show "is_Ok (fst (update ex_api (ex_scope ex_machine empty_status [ex_vm] None)))" by code_simp
qed (use update_only_syncs [of "ex_scope ex_machine empty_status [ex_vm] None" ex_api] in blast)

text \<open>
  After a successful \<open>update\<close> the machine carries the state of the VM found: provider id, region,
  zone and type labels, the state annotations, addresses, uuid and condition; \<open>ACTIVE\<close> stands for
  a VM that is on.
\<close>

theorem update_Ok_machine:
  assumes "update A s = (Ok (), s')"
  shows "\<exists>v t u region zone. find_for_update A (s_machine s) s = (Ok v, t) \<and> vm_ExtId v = Some u \<and>
     m_ProviderID (s_machine s') = Some (providerIDFormat u) \<and> st_VmUUID (s_providerStatus s') = Some u \<and>
     st_Conditions (s_providerStatus s') = [conditionSuccess machineUpdate] \<and>
     map_lookup (m_Labels (s_machine s')) MachineRegionLabelName = Some region \<and>
     map_lookup (m_Labels (s_machine s')) MachineAZLabelName = Some zone \<and>
     map_lookup (m_Annotations (s_machine s')) MachineInstanceStateAnnotationName =
       Some (if vm_PowerState v = Some POWERSTATE_ON then ''ACTIVE'' else vmPowerStateName (Some v))"
  using assms
proof (rule update_Ok)
  fix v t assume f: "find_for_update A (s_machine s) s = (Ok v, t)" and r: "reconciled v (conditionSuccess machineUpdate) s s'"
  from r obtain m nics u region zone where m: "vm_ExtId v = Some u"
    "m = instance_labels region zone v ((s_machine s)\<lparr>m_ProviderID := Some (providerIDFormat u)\<rparr>)"
    "s_machine s' = m\<lparr>m_Addresses := node_addresses (getIPsFromNics nics) (vm_Name v)\<rparr>"
    and st: "st_VmUUID (s_providerStatus s') = vm_ExtId v" "st_Conditions (s_providerStatus s') = [conditionSuccess machineUpdate]"
    by (auto simp: reconciled_def synced_def)
  have on: "vmPowerStateName (Some v) = ''ON'' \<longleftrightarrow> vm_PowerState v = Some POWERSTATE_ON"
    by (cases "vm_PowerState v"; cases "the (vm_PowerState v)") (auto simp: vmPowerStateName_def)
  show ?thesis
    by (rule exI [of _ v], rule exI [of _ t], rule exI [of _ u], rule exI [of _ region], rule exI [of _ zone])
      (use f m st on in \<open>simp add: instance_labels_def Let_def MachineRegionLabelName_def MachineAZLabelName_def
        MachineInstanceTypeLabelName_def MachineInstanceStateAnnotationName_def MachineInstancePowerStateAnnotationName_def\<close>)
qed

theorem update_Ok_machine_witness:
  "\<exists>u. m_ProviderID (s_machine (snd (update ex_api (ex_scope ex_machine empty_status [ex_vm] None)))) = Some (providerIDFormat u)"
proof -
  let ?s = "ex_scope ex_machine empty_status [ex_vm] None"
  have "fst (update ex_api ?s) = Ok ()" by code_simp
  then have run: "update ex_api ?s = (Ok (), snd (update ex_api ?s))" by (rule run_as)
  from update_Ok_machine [OF run] show ?thesis by blast
qed

text \<open>
  \<open>exists\<close> answers yes exactly when the lookup finds the VM and no exactly when it fails with a
  not-found error; any other failure is an error and is counted, never an answer.
\<close>

theorem exists_answer:
  assumes "validateMachine (s_machine s) = Ok ()" and "find_machine_vm A s = (q, t)"
  shows "(fst (exists A s) = Ok True \<longleftrightarrow> (\<exists>v. q = Ok v)) \<and>
     (fst (exists A s) = Ok False \<longleftrightarrow> (\<exists>e. q = Err e \<and> isNotFoundError (Some e))) \<and>
     list_all is_read (new_calls s (snd (exists A s)))"
proof -
  obtain r s' where run: "exists A s = (r, s')" by fastforce
  have "list_all is_read (new_calls s s')" by (rule log_rel_new_calls [OF keepsD [OF exists_log run]])
  moreover have "(fst (exists A s) = Ok True \<longleftrightarrow> (\<exists>v. q = Ok v)) \<and>
     (fst (exists A s) = Ok False \<longleftrightarrow> (\<exists>e. q = Err e \<and> isNotFoundError (Some e)))"
    using assms(2) find_machine_vm_not_Panic [of A s t] by (cases q) (auto simp: exists_eq [OF assms(1)])
  ultimately show ?thesis using run by simp
qed

theorem exists_answer_witness: "fst (exists ex_api ex_start) = Ok False"
proof -
  have m: "validateMachine (s_machine ex_start) = Ok ()"
    by (simp add: validateMachine_def ex_start_def ex_scope_def ex_machine_def map_get_def)
  have "case fst (find_machine_vm ex_api ex_start) of Err e \<Rightarrow> isNotFoundError (Some e) | _ \<Rightarrow> False" by code_simp
  then have "\<exists>e. fst (find_machine_vm ex_api ex_start) = Err e \<and> isNotFoundError (Some e)" by (simp split: outcome.splits)
  with exists_answer [OF m run_eq] show ?thesis by simp
qed

section \<open>Invariants\<close>

text \<open>
  No operation of the reconciler ever changes the provider spec, in the scope or in the
  machine, nor the machine's name, namespace, node reference or resource version, nor the copy
  patches are computed against.  So the validated spec is never written back.
\<close>

theorem reconciler_keeps_spec:
  "machine_rel s (snd (create A s)) \<and> machine_rel s (snd (update A s)) \<and>
     machine_rel s (snd (delete A s)) \<and> machine_rel s (snd (exists A s))"
  using create_machine [of A] update_machine [of A] delete_machine [of A] exists_machine [of A] by (simp add: keeps_def)

text \<open>
  C21: errors keep their kind through the actuator.  When \<open>delete\<close> fails, \<open>Delete\<close> fails; unless the
  patch of the machine fails too, the error still carries the requeue request or the
  invalid-configuration mark of the cause, and one warning event with its text is recorded.
\<close>

theorem Delete_keeps_error_kind:
  assumes "delete A s = (Err e, t)" and "delete_body A s = (r, s')"
  shows "\<exists>e'. r = Err e' \<and> ((\<exists>u. patchMachine A u = (Err e', s')) \<and> w_events s' = w_events t \<or>
     as_RequeueAfterError e' = as_RequeueAfterError e \<and> as_MachineError e' = as_MachineError e \<and>
     w_events s' = w_events t @ [\<lparr>ev_Type = EventTypeWarning, ev_Reason = ''FailedDelete'', ev_Message = err_Error e'\<rparr>])"
  using assms
proof (cases rule: deletion.error_kept)
  case (unpatched pe u)
  then show ?thesis by blast
next
  case (patched e')
  then show ?thesis by (auto simp: deleteEventAction_def)
qed

theorem Delete_keeps_error_kind_witness:
  "\<exists>e'. fst (delete_body ex_api ex_attached) = Err e' \<and> as_RequeueAfterError e' = Some 20"
proof -
  have "fst (delete ex_api ex_attached) = Err (RequeueAfterError 20)" by code_simp
  then have run: "delete ex_api ex_attached = (Err (RequeueAfterError 20), snd (delete ex_api ex_attached))" by (rule run_as)
  have "w_events (snd (delete_body ex_api ex_attached)) \<noteq> w_events (snd (delete ex_api ex_attached))" by code_simp
  with Delete_keeps_error_kind [OF run run_eq] show ?thesis by auto
qed

text \<open>
  A success of \<open>Create\<close>'s body is a success of \<open>create\<close> that was also written back: the
  machine was patched with the conditions that the creation succeeded and the instance is ready.
\<close>

theorem Create_success_is_patched:
  assumes "create_body A s = (Ok (), s')"
  shows "\<exists>t u v. create A s = (Ok (), t) \<and> s_machine u = s_machine t \<and>
     st_Conditions (s_providerStatus u) = [conditionSuccess machineCreation, conditionInstanceReady ConditionTrue] \<and>
     st_VmUUID (s_providerStatus u) = st_VmUUID (s_providerStatus t) \<and>
     patchMachine A u = (Ok (), v) \<and> s_machine s' = s_machine v"
  using assms by (rule creation.success_from) auto

theorem Create_success_is_patched_witness:
  "\<exists>t. create ex_api ex_start = (Ok (), t)"
proof -
  have "is_Ok (fst (create_body ex_api ex_start))" by code_simp
  then have "fst (create_body ex_api ex_start) = Ok ()" by (cases "fst (create_body ex_api ex_start)") auto
  then have run: "create_body ex_api ex_start = (Ok (), snd (create_body ex_api ex_start))" by (rule run_as)
  from Create_success_is_patched [OF run] show ?thesis by blast
qed

end
